theory Spec2Isabelle
  imports Complex_Main
begin

section \<open>The service-log slice: data model\<close>

text \<open>
  This theory embeds \<^verbatim>\<open>src/serviceLogSlice.ts\<close> (the Redux slice with its
  validation function and its two persistence helpers) and the derived list
  \<^verbatim>\<open>filteredLogs\<close> of the \<^verbatim>\<open>ServiceLogManager\<close> component.

  A reducer of the slice becomes a function from the state to the next state.
  Redux Toolkit runs the reducers under Immer, so a reducer that throws leaves
  the state as it was: such a reducer returns \<open>exception + state\<close>, with
  \<open>Inl\<close> for the exception. What a reducer reads from the host (the clock,
  the random generator) is an explicit argument.

  A JavaScript string is modelled by the list of its code units, for text in
  the Latin-1 range (one \<open>char\<close> per code unit).
\<close>

datatype ServiceType = planned | unplanned | emergency

datatype SaveStatus = idle | saving | saved

text \<open>
  The TypeScript type \<^verbatim>\<open>number\<close>: a finite value, one of the two infinities,
  or \<^verbatim>\<open>NaN\<close>. Only the comparison with zero and the rendering as a string are
  used by the code.
\<close>

datatype number = NaN | NegInfinity | Finite real | PosInfinity

datatype exception = RangeError | QuotaExceededError | SyntaxError

text \<open>\<^verbatim>\<open>x < 0\<close> on numbers: false for \<^verbatim>\<open>NaN\<close>.\<close>

definition lessThanZero :: "number \<Rightarrow> bool" where
  "lessThanZero x =
     (case x of NaN \<Rightarrow> False | NegInfinity \<Rightarrow> True | Finite r \<Rightarrow> r < 0 | PosInfinity \<Rightarrow> False)"

text \<open>\<^verbatim>\<open>x >= 0\<close> on numbers: false for \<^verbatim>\<open>NaN\<close> as well.\<close>

definition atLeastZero :: "number \<Rightarrow> bool" where
  "atLeastZero x =
     (case x of NaN \<Rightarrow> False | NegInfinity \<Rightarrow> False | Finite r \<Rightarrow> 0 \<le> r | PosInfinity \<Rightarrow> True)"

text \<open>
  \<^verbatim>\<open>Partial<ServiceLog> | Partial<Draft>\<close>, the argument of the validation
  function, restricted to the properties the function reads. \<open>None\<close> is a
  property that is \<^verbatim>\<open>undefined\<close>.
\<close>

record Candidate =
  providerId :: "string option"
  serviceOrder :: "string option"
  carId :: "string option"
  odometer :: "number option"
  engineHours :: "number option"
  startDate :: "string option"
  endDate :: "string option"
  serviceDescription :: "string option"

text \<open>
  \<^verbatim>\<open>interface Filters\<close>; the empty string of \<^verbatim>\<open>type: ServiceType | ''\<close> is
  \<open>None\<close>. \<^verbatim>\<open>Partial<Filters>\<close> has every property optional.
\<close>

record PartialFilters =
  startDateFrom :: "string option"
  startDateTo :: "string option"
  type :: "ServiceType option option"

record Filters =
  startDateFrom :: string
  startDateTo :: string
  type :: "ServiceType option"

text \<open>
  \<^verbatim>\<open>interface ServiceLog\<close>. The last two fields are not declared by the
  interface: they are the properties \<^verbatim>\<open>lastSaved\<close> and \<^verbatim>\<open>isDirty\<close> that a
  log object carries at run time when it was built by spreading a draft
  (\<^verbatim>\<open>{ ...state.currentDraft, id, createdAt } as ServiceLog\<close>), and \<open>None\<close> on an
  object without them. They are visible to \<^verbatim>\<open>Object.values\<close> and to
  \<^verbatim>\<open>JSON.stringify\<close>.
\<close>

record ServiceLog =
  id :: string
  providerId :: string
  serviceOrder :: string
  carId :: string
  odometer :: number
  engineHours :: number
  startDate :: string
  endDate :: string
  type :: ServiceType
  serviceDescription :: string
  createdAt :: string
  lastSaved :: "string option"
  isDirty :: "bool option"

text \<open>\<^verbatim>\<open>interface Draft extends Omit<ServiceLog, 'id' | 'createdAt'>\<close>.\<close>

record Draft =
  providerId :: string
  serviceOrder :: string
  carId :: string
  odometer :: number
  engineHours :: number
  startDate :: string
  endDate :: string
  type :: ServiceType
  serviceDescription :: string
  id :: string
  lastSaved :: string
  isDirty :: bool

text \<open>
  \<^verbatim>\<open>Partial<RootStateServiceLog>\<close>, the payload of \<^verbatim>\<open>loadFromStorage\<close> and the
  object written to storage: \<open>None\<close> is an absent property, and
  \<open>Some None\<close> in \<open>currentDraft\<close> and \<open>editingLog\<close> is \<^verbatim>\<open>null\<close>.
\<close>

record PartialState =
  serviceLogs :: "ServiceLog list option"
  drafts :: "Draft list option"
  currentDraft :: "Draft option option"
  searchTerm :: "string option"
  filters :: "Filters option"
  editingLog :: "ServiceLog option option"
  saveStatus :: "SaveStatus option"
  validationErrors :: "string list option"
  showFilters :: "bool option"

text \<open>\<^verbatim>\<open>interface RootStateServiceLog\<close>; \<open>None\<close> is \<^verbatim>\<open>null\<close>.\<close>

record RootStateServiceLog =
  serviceLogs :: "ServiceLog list"
  drafts :: "Draft list"
  currentDraft :: "Draft option"
  searchTerm :: string
  filters :: Filters
  editingLog :: "ServiceLog option"
  saveStatus :: SaveStatus
  validationErrors :: "string list"
  showFilters :: bool

text \<open>
  The built-ins of the host that the code calls, taken as parameters. A time
  value is the number of milliseconds since the epoch.
  \<^item> \<open>dateParse s\<close> is the time value of \<^verbatim>\<open>new Date(s)\<close>, \<open>None\<close> for an
    invalid date (time value \<^verbatim>\<open>NaN\<close>);
  \<^item> \<open>getDate t\<close> is the day of the month of \<open>t\<close> in the local time zone;
  \<^item> \<open>setDate t d\<close> is the time value after \<^verbatim>\<open>setDate(d)\<close> on a date with time
    value \<open>t\<close>, \<open>None\<close> when the result is out of the range of dates;
  \<^item> \<open>toISOString t\<close> is the UTC rendering \<^verbatim>\<open>YYYY-MM-DDTHH:mm:ss.sssZ\<close>;
  \<^item> \<open>numberToString x\<close> is \<^verbatim>\<open>x.toString()\<close> on a number.
\<close>

record Runtime =
  dateParse :: "string \<Rightarrow> int option"
  getDate :: "int \<Rightarrow> int"
  setDate :: "int \<Rightarrow> int \<Rightarrow> int option"
  toISOString :: "int \<Rightarrow> string"
  numberToString :: "number \<Rightarrow> string"


section \<open>Strings\<close>

text \<open>
  The white space and line terminators that \<^verbatim>\<open>String.prototype.trim\<close> removes,
  among the code units below 256: tab, line feed, vertical tab, form feed,
  carriage return, space and no-break space.
\<close>

definition isWhiteSpace :: "char \<Rightarrow> bool" where
  "isWhiteSpace c = (of_char c \<in> {9, 10, 11, 12, 13, 32, 160 :: nat})"

definition trim :: "string \<Rightarrow> string" where
  "trim s = rev (dropWhile isWhiteSpace (rev (dropWhile isWhiteSpace s)))"

text \<open>\<^verbatim>\<open>s.split('T')[0]\<close>: the part of \<open>s\<close> before its first \<^verbatim>\<open>T\<close>.\<close>

definition beforeT :: "string \<Rightarrow> string" where
  "beforeT s = takeWhile (\<lambda>c. c \<noteq> CHR ''T'') s"

text \<open>
  \<^verbatim>\<open>toLowerCase\<close> on the code units below 256: the letters A to Z and the
  capital letters of Latin-1 (\<^verbatim>\<open>0xC0\<close> to \<^verbatim>\<open>0xDE\<close>, but not the multiplication
  sign \<^verbatim>\<open>0xD7\<close>) move up by 32.
\<close>

definition lowerChar :: "char \<Rightarrow> char" where
  "lowerChar c =
     (let n = (of_char c :: nat) in
      if (65 \<le> n \<and> n \<le> 90) \<or> (192 \<le> n \<and> n \<le> 222 \<and> n \<noteq> 215) then char_of (n + 32) else c)"

definition toLowerCase :: "string \<Rightarrow> string" where
  "toLowerCase s = map lowerChar s"

text \<open>\<^verbatim>\<open>s.startsWith(t)\<close> and \<^verbatim>\<open>s.includes(t)\<close>.\<close>

fun startsWith :: "string \<Rightarrow> string \<Rightarrow> bool" where
  "startsWith s [] = True"
| "startsWith [] (y # ys) = False"
| "startsWith (x # xs) (y # ys) = (x = y \<and> startsWith xs ys)"

fun includesStr :: "string \<Rightarrow> string \<Rightarrow> bool" where
  "includesStr [] t = (t = [])"
| "includesStr (x # xs) t = (startsWith (x # xs) t \<or> includesStr xs t)"

text \<open>\<^verbatim>\<open>a < b\<close> on strings: the lexicographic order of the code units.\<close>

fun stringLess :: "string \<Rightarrow> string \<Rightarrow> bool" where
  "stringLess a [] = False"
| "stringLess [] (y # ys) = True"
| "stringLess (x # xs) (y # ys) =
     ((of_char x :: nat) < of_char y \<or> (x = y \<and> stringLess xs ys))"

text \<open>
  \<^verbatim>\<open>a >= b\<close> and \<^verbatim>\<open>a <= b\<close> on strings, which JavaScript evaluates as the
  negations of \<^verbatim>\<open>a < b\<close> and of \<^verbatim>\<open>b < a\<close>.
\<close>

definition stringGreaterEq :: "string \<Rightarrow> string \<Rightarrow> bool" where
  "stringGreaterEq a b = (\<not> stringLess a b)"

definition stringLessEq :: "string \<Rightarrow> string \<Rightarrow> bool" where
  "stringLessEq a b = (\<not> stringLess b a)"


section \<open>Validation\<close>

text \<open>\<^verbatim>\<open>!s?.trim()\<close>: the property is undefined, or empty once trimmed.\<close>

definition blank :: "string option \<Rightarrow> bool" where
  "blank v = (case v of None \<Rightarrow> True | Some s \<Rightarrow> trim s = [])"

text \<open>\<^verbatim>\<open>!s\<close> on an optional string: undefined or the empty string.\<close>

definition falsy :: "string option \<Rightarrow> bool" where
  "falsy v = (case v of None \<Rightarrow> True | Some s \<Rightarrow> s = [])"

text \<open>\<^verbatim>\<open>x === undefined || x < 0\<close>.\<close>

definition undefinedOrNegative :: "number option \<Rightarrow> bool" where
  "undefinedOrNegative v = (case v of None \<Rightarrow> True | Some x \<Rightarrow> lessThanZero x)"

text \<open>
  \<^verbatim>\<open>new Date(a) < new Date(b)\<close>: the comparison of the two time values, false
  when one of them is \<^verbatim>\<open>NaN\<close>.
\<close>

definition dateBefore :: "Runtime \<Rightarrow> string \<Rightarrow> string \<Rightarrow> bool" where
  "dateBefore rt a b =
     (case (dateParse rt a, dateParse rt b) of
        (Some ta, Some tb) \<Rightarrow> ta < tb
      | _ \<Rightarrow> False)"

text \<open>
  \<^verbatim>\<open>data.startDate && data.endDate && new Date(data.endDate) < new Date(data.startDate)\<close>.
\<close>

definition endBeforeStart :: "Runtime \<Rightarrow> Candidate \<Rightarrow> bool" where
  "endBeforeStart rt data =
     (case (Candidate.startDate data, Candidate.endDate data) of
        (Some s, Some e) \<Rightarrow> s \<noteq> [] \<and> e \<noteq> [] \<and> dateBefore rt e s
      | _ \<Rightarrow> False)"

text \<open>
  \<^verbatim>\<open>validateServiceLog\<close>: nine checks in the order of the source, each pushing
  its message.
\<close>

definition validateServiceLog :: "Runtime \<Rightarrow> Candidate \<Rightarrow> string list" where
  "validateServiceLog rt data =
     (if blank (Candidate.providerId data) then [''Provider ID is required''] else []) @
     (if blank (Candidate.serviceOrder data) then [''Service Order is required''] else []) @
     (if blank (Candidate.carId data) then [''Car ID is required''] else []) @
     (if undefinedOrNegative (Candidate.odometer data)
      then [''Valid odometer reading is required''] else []) @
     (if undefinedOrNegative (Candidate.engineHours data)
      then [''Valid engine hours is required''] else []) @
     (if falsy (Candidate.startDate data) then [''Start date is required''] else []) @
     (if falsy (Candidate.endDate data) then [''End date is required''] else []) @
     (if blank (Candidate.serviceDescription data)
      then [''Service description is required''] else []) @
     (if endBeforeStart rt data then [''End date must be after start date''] else [])"

text \<open>A draft and a log as arguments of the validation: every property is defined.\<close>

definition candidateOfDraft :: "Draft \<Rightarrow> Candidate" where
  "candidateOfDraft d =
     \<lparr> Candidate.providerId = Some (Draft.providerId d),
       serviceOrder = Some (Draft.serviceOrder d),
       carId = Some (Draft.carId d),
       odometer = Some (Draft.odometer d),
       engineHours = Some (Draft.engineHours d),
       startDate = Some (Draft.startDate d),
       endDate = Some (Draft.endDate d),
       serviceDescription = Some (Draft.serviceDescription d) \<rparr>"

definition candidateOfLog :: "ServiceLog \<Rightarrow> Candidate" where
  "candidateOfLog l =
     \<lparr> Candidate.providerId = Some (ServiceLog.providerId l),
       serviceOrder = Some (ServiceLog.serviceOrder l),
       carId = Some (ServiceLog.carId l),
       odometer = Some (ServiceLog.odometer l),
       engineHours = Some (ServiceLog.engineHours l),
       startDate = Some (ServiceLog.startDate l),
       endDate = Some (ServiceLog.endDate l),
       serviceDescription = Some (ServiceLog.serviceDescription l) \<rparr>"

section \<open>The reducers\<close>

definition initialState :: RootStateServiceLog where
  "initialState =
     \<lparr> serviceLogs = [], drafts = [], currentDraft = None, searchTerm = [],
       filters = \<lparr> Filters.startDateFrom = [], startDateTo = [], type = None \<rparr>,
       editingLog = None, saveStatus = idle, validationErrors = [], showFilters = False \<rparr>"

text \<open>
  The three statements that advance a date by one day, which the source writes
  out in \<^verbatim>\<open>createInitialDraft\<close>, \<^verbatim>\<open>updateDraft\<close> and \<^verbatim>\<open>updateEditingLogField\<close>:
  \<^verbatim>\<open>
  const endDate = new Date(startDate);
  endDate.setDate(endDate.getDate() + 1);
  ... endDate.toISOString().split('T')[0]
  \<close>
  The argument \<open>start\<close> is the time value of \<^verbatim>\<open>startDate\<close>. On an invalid date
  \<^verbatim>\<open>getDate\<close> and \<^verbatim>\<open>setDate\<close> keep the time value \<^verbatim>\<open>NaN\<close>, and \<^verbatim>\<open>toISOString\<close>
  throws a \<^verbatim>\<open>RangeError\<close>.
\<close>

definition dayAfter :: "Runtime \<Rightarrow> int option \<Rightarrow> exception + string" where
  "dayAfter rt start =
     (case start of
        None \<Rightarrow> Inl RangeError
      | Some t \<Rightarrow>
          (case setDate rt t (getDate rt t + 1) of
             None \<Rightarrow> Inl RangeError
           | Some t' \<Rightarrow> Inr (beforeT (toISOString rt t'))))"

text \<open>
  \<^verbatim>\<open>createInitialDraft\<close> and the rest of the object literal of \<^verbatim>\<open>createDraft\<close>.
  \<open>today\<close> is the time value of \<^verbatim>\<open>new Date()\<close>, \<open>newId\<close> the value of the
  template \<^verbatim>\<open>draft_${Date.now()}_${Math.random().toString(36).slice(2, 9)}\<close>,
  and \<open>savedAt\<close> the time value of the \<^verbatim>\<open>new Date()\<close> of \<^verbatim>\<open>lastSaved\<close>.
\<close>

definition newDraft :: "Runtime \<Rightarrow> int \<Rightarrow> string \<Rightarrow> int \<Rightarrow> exception + Draft" where
  "newDraft rt today newId savedAt =
     (case dayAfter rt (Some today) of
        Inl e \<Rightarrow> Inl e
      | Inr tomorrow \<Rightarrow>
          Inr \<lparr> Draft.providerId = [], serviceOrder = [], carId = [],
                odometer = Finite 0, engineHours = Finite 0,
                startDate = beforeT (toISOString rt today), endDate = tomorrow,
                type = planned, serviceDescription = [],
                id = newId, lastSaved = toISOString rt savedAt, isDirty = False \<rparr>)"

definition draftId :: "Runtime \<Rightarrow> int \<Rightarrow> string \<Rightarrow> string" where
  "draftId rt now random = ''draft_'' @ numberToString rt (Finite (of_int now)) @ ''_'' @ random"

definition logId :: "Runtime \<Rightarrow> int \<Rightarrow> string \<Rightarrow> string" where
  "logId rt now random = ''log_'' @ numberToString rt (Finite (of_int now)) @ ''_'' @ random"

text \<open>\<^verbatim>\<open>loadFromStorage\<close>: \<^verbatim>\<open>Object.assign(state, action.payload)\<close>.\<close>

definition loadFromStorage :: "PartialState \<Rightarrow> RootStateServiceLog \<Rightarrow> RootStateServiceLog" where
  "loadFromStorage payload state =
     \<lparr> serviceLogs = (case PartialState.serviceLogs payload of None \<Rightarrow> serviceLogs state | Some v \<Rightarrow> v),
       drafts = (case PartialState.drafts payload of None \<Rightarrow> drafts state | Some v \<Rightarrow> v),
       currentDraft = (case PartialState.currentDraft payload of None \<Rightarrow> currentDraft state | Some v \<Rightarrow> v),
       searchTerm = (case PartialState.searchTerm payload of None \<Rightarrow> searchTerm state | Some v \<Rightarrow> v),
       filters = (case PartialState.filters payload of None \<Rightarrow> filters state | Some v \<Rightarrow> v),
       editingLog = (case PartialState.editingLog payload of None \<Rightarrow> editingLog state | Some v \<Rightarrow> v),
       saveStatus = (case PartialState.saveStatus payload of None \<Rightarrow> saveStatus state | Some v \<Rightarrow> v),
       validationErrors =
         (case PartialState.validationErrors payload of None \<Rightarrow> validationErrors state | Some v \<Rightarrow> v),
       showFilters = (case PartialState.showFilters payload of None \<Rightarrow> showFilters state | Some v \<Rightarrow> v) \<rparr>"

text \<open>
  \<^verbatim>\<open>createDraft\<close>. \<open>today\<close>, \<open>now\<close> and \<open>savedAt\<close> are the three clock
  readings of the reducer, \<open>random\<close> the seven digits taken from
  \<^verbatim>\<open>Math.random()\<close>.
\<close>

definition createDraft ::
  "Runtime \<Rightarrow> int \<Rightarrow> int \<Rightarrow> string \<Rightarrow> int \<Rightarrow> RootStateServiceLog \<Rightarrow> exception + RootStateServiceLog"
where
  "createDraft rt today now random savedAt state =
     (case newDraft rt today (draftId rt now random) savedAt of
        Inl e \<Rightarrow> Inl e
      | Inr d \<Rightarrow> Inr (state\<lparr> drafts := drafts state @ [d], currentDraft := Some d \<rparr>))"

definition setCurrentDraft :: "Draft option \<Rightarrow> RootStateServiceLog \<Rightarrow> RootStateServiceLog" where
  "setCurrentDraft payload state = state\<lparr> currentDraft := payload \<rparr>"

text \<open>
  The payload \<^verbatim>\<open>{ field: keyof Draft; value: any }\<close> of \<^verbatim>\<open>updateDraft\<close>, with
  the value at the type of the property it is written to.
\<close>

datatype DraftField =
    D_providerId string
  | D_serviceOrder string
  | D_carId string
  | D_odometer number
  | D_engineHours number
  | D_startDate string
  | D_endDate string
  | D_type ServiceType
  | D_serviceDescription string
  | D_id string
  | D_lastSaved string
  | D_isDirty bool

text \<open>\<^verbatim>\<open>(draft as any)[field] = value\<close>.\<close>

fun assignDraft :: "DraftField \<Rightarrow> Draft \<Rightarrow> Draft" where
  "assignDraft (D_providerId v) d = d\<lparr> Draft.providerId := v \<rparr>"
| "assignDraft (D_serviceOrder v) d = d\<lparr> Draft.serviceOrder := v \<rparr>"
| "assignDraft (D_carId v) d = d\<lparr> Draft.carId := v \<rparr>"
| "assignDraft (D_odometer v) d = d\<lparr> Draft.odometer := v \<rparr>"
| "assignDraft (D_engineHours v) d = d\<lparr> Draft.engineHours := v \<rparr>"
| "assignDraft (D_startDate v) d = d\<lparr> Draft.startDate := v \<rparr>"
| "assignDraft (D_endDate v) d = d\<lparr> Draft.endDate := v \<rparr>"
| "assignDraft (D_type v) d = d\<lparr> Draft.type := v \<rparr>"
| "assignDraft (D_serviceDescription v) d = d\<lparr> Draft.serviceDescription := v \<rparr>"
| "assignDraft (D_id v) d = d\<lparr> Draft.id := v \<rparr>"
| "assignDraft (D_lastSaved v) d = d\<lparr> Draft.lastSaved := v \<rparr>"
| "assignDraft (D_isDirty v) d = d\<lparr> Draft.isDirty := v \<rparr>"

text \<open>
  \<^verbatim>\<open>field === 'startDate' && value\<close>: the non-empty string written to
  \<^verbatim>\<open>startDate\<close>, if the payload is one.
\<close>

fun draftStartDate :: "DraftField \<Rightarrow> string option" where
  "draftStartDate (D_startDate v) = (if v \<noteq> [] then Some v else None)"
| "draftStartDate _ = None"

text \<open>\<^verbatim>\<open>xs.findIndex(p)\<close>, with \<open>None\<close> for \<^verbatim>\<open>-1\<close>.\<close>

fun findIndex :: "('a \<Rightarrow> bool) \<Rightarrow> 'a list \<Rightarrow> nat option" where
  "findIndex p [] = None"
| "findIndex p (x # xs) = (if p x then Some 0 else map_option Suc (findIndex p xs))"

text \<open>\<^verbatim>\<open>state.currentDraft?.id === id\<close>.\<close>

definition currentDraftHasId :: "RootStateServiceLog \<Rightarrow> string \<Rightarrow> bool" where
  "currentDraftHasId state i =
     (case currentDraft state of None \<Rightarrow> False | Some c \<Rightarrow> Draft.id c = i)"

text \<open>\<^verbatim>\<open>state.editingLog?.id === id\<close>.\<close>

definition editingLogHasId :: "RootStateServiceLog \<Rightarrow> string \<Rightarrow> bool" where
  "editingLogHasId state i =
     (case editingLog state of None \<Rightarrow> False | Some l \<Rightarrow> ServiceLog.id l = i)"

text \<open>\<^verbatim>\<open>updateDraft\<close>, with payload \<^verbatim>\<open>{ id, field, value }\<close>.\<close>

definition updateDraft ::
  "Runtime \<Rightarrow> string \<Rightarrow> DraftField \<Rightarrow> RootStateServiceLog \<Rightarrow> exception + RootStateServiceLog"
where
  "updateDraft rt i fv state =
     (case findIndex (\<lambda>d. Draft.id d = i) (drafts state) of
        None \<Rightarrow> Inr state
      | Some draftIndex \<Rightarrow>
          (let draft = (assignDraft fv (drafts state ! draftIndex))\<lparr> Draft.isDirty := True \<rparr> in
           case (case draftStartDate fv of
                   None \<Rightarrow> Inr draft
                 | Some v \<Rightarrow>
                     (case dayAfter rt (dateParse rt v) of
                        Inl e \<Rightarrow> Inl e
                      | Inr e \<Rightarrow> Inr (draft\<lparr> Draft.endDate := e \<rparr>))) of
             Inl e \<Rightarrow> Inl e
           | Inr draft' \<Rightarrow>
               Inr (state\<lparr> drafts := (drafts state)[draftIndex := draft'],
                           currentDraft :=
                             (if currentDraftHasId state i then Some draft' else currentDraft state),
                           saveStatus := saving \<rparr>)))"

definition deleteDraft :: "string \<Rightarrow> RootStateServiceLog \<Rightarrow> RootStateServiceLog" where
  "deleteDraft payload state =
     state\<lparr> drafts := filter (\<lambda>d. Draft.id d \<noteq> payload) (drafts state),
            currentDraft := (if currentDraftHasId state payload then None else currentDraft state) \<rparr>"

definition clearAllDrafts :: "RootStateServiceLog \<Rightarrow> RootStateServiceLog" where
  "clearAllDrafts state = state\<lparr> drafts := [], currentDraft := None \<rparr>"

text \<open>
  The object literal of \<^verbatim>\<open>createServiceLog\<close>:
  \<^verbatim>\<open>{ ...state.currentDraft, id: ..., createdAt: ... } as ServiceLog\<close>. The spread
  copies every property of the draft, so the log keeps the draft's
  \<^verbatim>\<open>lastSaved\<close> and \<^verbatim>\<open>isDirty\<close> next to the declared properties.
\<close>

definition newLog :: "Draft \<Rightarrow> string \<Rightarrow> string \<Rightarrow> ServiceLog" where
  "newLog d newId created =
     \<lparr> ServiceLog.id = newId,
       providerId = Draft.providerId d,
       serviceOrder = Draft.serviceOrder d,
       carId = Draft.carId d,
       odometer = Draft.odometer d,
       engineHours = Draft.engineHours d,
       startDate = Draft.startDate d,
       endDate = Draft.endDate d,
       type = Draft.type d,
       serviceDescription = Draft.serviceDescription d,
       createdAt = created,
       lastSaved = Some (Draft.lastSaved d),
       isDirty = Some (Draft.isDirty d) \<rparr>"

text \<open>
  \<^verbatim>\<open>createServiceLog\<close>. \<open>now\<close> and \<open>random\<close> are the clock reading and the
  random digits of the new id, \<open>createdNow\<close> the time value of the
  \<^verbatim>\<open>new Date()\<close> of \<^verbatim>\<open>createdAt\<close>.
\<close>

definition createServiceLog ::
  "Runtime \<Rightarrow> int \<Rightarrow> string \<Rightarrow> int \<Rightarrow> RootStateServiceLog \<Rightarrow> RootStateServiceLog"
where
  "createServiceLog rt now random createdNow state =
     (case currentDraft state of
        None \<Rightarrow> state\<lparr> validationErrors := [''No draft selected''] \<rparr>
      | Some cur \<Rightarrow>
          (let errors = validateServiceLog rt (candidateOfDraft cur) in
           if errors \<noteq> [] then state\<lparr> validationErrors := errors \<rparr>
           else
             state\<lparr> serviceLogs :=
                      serviceLogs state @ [newLog cur (logId rt now random) (toISOString rt createdNow)],
                    drafts := filter (\<lambda>d. Draft.id d \<noteq> Draft.id cur) (drafts state),
                    currentDraft := None,
                    validationErrors := [] \<rparr>))"

definition setEditingLog :: "ServiceLog option \<Rightarrow> RootStateServiceLog \<Rightarrow> RootStateServiceLog" where
  "setEditingLog payload state = state\<lparr> editingLog := payload, validationErrors := [] \<rparr>"

text \<open>
  The payload \<^verbatim>\<open>{ field: keyof ServiceLog; value: any }\<close> of
  \<^verbatim>\<open>updateEditingLogField\<close>, with the value at the type of the property.
\<close>

datatype LogField =
    L_id string
  | L_providerId string
  | L_serviceOrder string
  | L_carId string
  | L_odometer number
  | L_engineHours number
  | L_startDate string
  | L_endDate string
  | L_type ServiceType
  | L_serviceDescription string
  | L_createdAt string

text \<open>\<^verbatim>\<open>{ ...state.editingLog, [field]: value }\<close>.\<close>

fun assignLog :: "LogField \<Rightarrow> ServiceLog \<Rightarrow> ServiceLog" where
  "assignLog (L_id v) l = l\<lparr> ServiceLog.id := v \<rparr>"
| "assignLog (L_providerId v) l = l\<lparr> ServiceLog.providerId := v \<rparr>"
| "assignLog (L_serviceOrder v) l = l\<lparr> ServiceLog.serviceOrder := v \<rparr>"
| "assignLog (L_carId v) l = l\<lparr> ServiceLog.carId := v \<rparr>"
| "assignLog (L_odometer v) l = l\<lparr> ServiceLog.odometer := v \<rparr>"
| "assignLog (L_engineHours v) l = l\<lparr> ServiceLog.engineHours := v \<rparr>"
| "assignLog (L_startDate v) l = l\<lparr> ServiceLog.startDate := v \<rparr>"
| "assignLog (L_endDate v) l = l\<lparr> ServiceLog.endDate := v \<rparr>"
| "assignLog (L_type v) l = l\<lparr> ServiceLog.type := v \<rparr>"
| "assignLog (L_serviceDescription v) l = l\<lparr> ServiceLog.serviceDescription := v \<rparr>"
| "assignLog (L_createdAt v) l = l\<lparr> ServiceLog.createdAt := v \<rparr>"

fun logStartDate :: "LogField \<Rightarrow> string option" where
  "logStartDate (L_startDate v) = (if v \<noteq> [] then Some v else None)"
| "logStartDate _ = None"

definition updateEditingLogField ::
  "Runtime \<Rightarrow> LogField \<Rightarrow> RootStateServiceLog \<Rightarrow> exception + RootStateServiceLog"
where
  "updateEditingLogField rt fv state =
     (case editingLog state of
        None \<Rightarrow> Inr state
      | Some l \<Rightarrow>
          (let updated = assignLog fv l in
           case logStartDate fv of
             None \<Rightarrow> Inr (state\<lparr> editingLog := Some updated \<rparr>)
           | Some v \<Rightarrow>
               (case dayAfter rt (dateParse rt v) of
                  Inl e \<Rightarrow> Inl e
                | Inr e \<Rightarrow> Inr (state\<lparr> editingLog := Some (updated\<lparr> ServiceLog.endDate := e \<rparr>) \<rparr>))))"

definition saveEditingLog :: "Runtime \<Rightarrow> RootStateServiceLog \<Rightarrow> RootStateServiceLog" where
  "saveEditingLog rt state =
     (case editingLog state of
        None \<Rightarrow> state
      | Some editing \<Rightarrow>
          (let errors = validateServiceLog rt (candidateOfLog editing) in
           if errors \<noteq> [] then state\<lparr> validationErrors := errors \<rparr>
           else
             state\<lparr> serviceLogs :=
                      map (\<lambda>l. if ServiceLog.id l = ServiceLog.id editing then editing else l)
                        (serviceLogs state),
                    editingLog := None,
                    showFilters := False,
                    saveStatus := idle,
                    validationErrors := [] \<rparr>))"

definition deleteServiceLog :: "string \<Rightarrow> RootStateServiceLog \<Rightarrow> RootStateServiceLog" where
  "deleteServiceLog payload state =
     state\<lparr> serviceLogs := filter (\<lambda>l. ServiceLog.id l \<noteq> payload) (serviceLogs state),
            editingLog := (if editingLogHasId state payload then None else editingLog state) \<rparr>"

definition setSearchTerm :: "string \<Rightarrow> RootStateServiceLog \<Rightarrow> RootStateServiceLog" where
  "setSearchTerm payload state = state\<lparr> searchTerm := payload \<rparr>"

text \<open>\<^verbatim>\<open>setFilters\<close>: \<^verbatim>\<open>{ ...state.filters, ...action.payload }\<close>.\<close>

definition setFilters :: "PartialFilters \<Rightarrow> RootStateServiceLog \<Rightarrow> RootStateServiceLog" where
  "setFilters payload state =
     state\<lparr> filters :=
       \<lparr> Filters.startDateFrom =
           (case PartialFilters.startDateFrom payload of
              None \<Rightarrow> Filters.startDateFrom (filters state) | Some v \<Rightarrow> v),
         startDateTo =
           (case PartialFilters.startDateTo payload of
              None \<Rightarrow> Filters.startDateTo (filters state) | Some v \<Rightarrow> v),
         type =
           (case PartialFilters.type payload of
              None \<Rightarrow> Filters.type (filters state) | Some v \<Rightarrow> v) \<rparr> \<rparr>"

definition toggleFilters :: "RootStateServiceLog \<Rightarrow> RootStateServiceLog" where
  "toggleFilters state = state\<lparr> showFilters := \<not> showFilters state \<rparr>"

definition clearFilters :: "RootStateServiceLog \<Rightarrow> RootStateServiceLog" where
  "clearFilters state =
     state\<lparr> searchTerm := [],
            filters := \<lparr> Filters.startDateFrom = [], startDateTo = [], type = None \<rparr> \<rparr>"

definition setSaveStatus :: "SaveStatus \<Rightarrow> RootStateServiceLog \<Rightarrow> RootStateServiceLog" where
  "setSaveStatus payload state = state\<lparr> saveStatus := payload \<rparr>"

definition setValidationErrors :: "string list \<Rightarrow> RootStateServiceLog \<Rightarrow> RootStateServiceLog" where
  "setValidationErrors payload state = state\<lparr> validationErrors := payload \<rparr>"

text \<open>
  \<^verbatim>\<open>markDraftSaved\<close>, with payload \<^verbatim>\<open>{ id, lastSaved? }\<close>. \<^verbatim>\<open>find\<close> returns the
  first draft with the id, and the two assignments write to it where it stands
  in the array. \<open>now\<close> is the time value of the \<^verbatim>\<open>new Date()\<close> that is read
  when the payload has no \<^verbatim>\<open>lastSaved\<close>.
\<close>

definition markDraftSaved ::
  "Runtime \<Rightarrow> int \<Rightarrow> string \<Rightarrow> string option \<Rightarrow> RootStateServiceLog \<Rightarrow> RootStateServiceLog"
where
  "markDraftSaved rt now i savedAt state =
     (case findIndex (\<lambda>x. Draft.id x = i) (drafts state) of
        None \<Rightarrow> state
      | Some k \<Rightarrow>
          (let d = (drafts state ! k)
                     \<lparr> Draft.isDirty := False,
                       Draft.lastSaved := (case savedAt of None \<Rightarrow> toISOString rt now | Some v \<Rightarrow> v) \<rparr>
           in state\<lparr> drafts := (drafts state)[k := d],
                     currentDraft :=
                       (if currentDraftHasId state (Draft.id d) then Some d else currentDraft state) \<rparr>))"

section \<open>Persistence\<close>

text \<open>
  The values of JSON. \<^verbatim>\<open>JSON.stringify\<close> writes the JSON text of a value of
  the program, and \<^verbatim>\<open>JSON.parse\<close> reads from a JSON text the value that it
  denotes. The model takes a JSON text for the value it denotes, and has for
  \<^verbatim>\<open>JSON.stringify\<close> the step from a value of the program to a JSON value,
  where the values are lost that JSON does not have: a number that is not
  finite is written as \<^verbatim>\<open>null\<close>.
\<close>

datatype json =
    JNull
  | JBoolean bool
  | JNumber real
  | JString string
  | JArray "json list"
  | JObject "(string \<times> json) list"

text \<open>
  A string that \<^verbatim>\<open>localStorage\<close> holds: the JSON text of a value, the empty
  string, or another string that is not a JSON text.
\<close>

datatype stored = JsonText json | EmptyString | NotJson

text \<open>
  \<^verbatim>\<open>localStorage\<close>: the items it holds, and which writes it takes. \<^verbatim>\<open>setItem\<close>
  throws (a quota that is exceeded, a storage that is disabled) on a write it
  does not take.
\<close>

record Storage =
  items :: "string \<Rightarrow> stored option"
  accepts :: "string \<Rightarrow> stored \<Rightarrow> bool"

definition setItem :: "Storage \<Rightarrow> string \<Rightarrow> stored \<Rightarrow> exception + Storage" where
  "setItem ls k v =
     (if accepts ls k v then Inr (ls\<lparr> items := (items ls)(k \<mapsto> v) \<rparr>) else Inl QuotaExceededError)"

definition getItem :: "Storage \<Rightarrow> string \<Rightarrow> stored option" where
  "getItem ls k = items ls k"

definition typeName :: "ServiceType \<Rightarrow> string" where
  "typeName t = (case t of planned \<Rightarrow> ''planned'' | unplanned \<Rightarrow> ''unplanned'' | emergency \<Rightarrow> ''emergency'')"

definition statusName :: "SaveStatus \<Rightarrow> string" where
  "statusName t = (case t of idle \<Rightarrow> ''idle'' | saving \<Rightarrow> ''saving'' | saved \<Rightarrow> ''saved'')"

text \<open>
  \<^verbatim>\<open>JSON.stringify\<close> on the values of the state. A number is written as it
  is when it is finite and as \<^verbatim>\<open>null\<close> when it is \<^verbatim>\<open>NaN\<close> or infinite. An
  object is written with the properties it has, in their order; a log that
  \<^verbatim>\<open>createServiceLog\<close> built has them in the order of the draft, with
  \<^verbatim>\<open>createdAt\<close> last.
\<close>

definition jsonOfNumber :: "number \<Rightarrow> json" where
  "jsonOfNumber x = (case x of Finite r \<Rightarrow> JNumber r | _ \<Rightarrow> JNull)"

definition jsonOfDraft :: "Draft \<Rightarrow> json" where
  "jsonOfDraft d =
     JObject
       [(''providerId'', JString (Draft.providerId d)),
        (''serviceOrder'', JString (Draft.serviceOrder d)),
        (''carId'', JString (Draft.carId d)),
        (''odometer'', jsonOfNumber (Draft.odometer d)),
        (''engineHours'', jsonOfNumber (Draft.engineHours d)),
        (''startDate'', JString (Draft.startDate d)),
        (''endDate'', JString (Draft.endDate d)),
        (''type'', JString (typeName (Draft.type d))),
        (''serviceDescription'', JString (Draft.serviceDescription d)),
        (''id'', JString (Draft.id d)),
        (''lastSaved'', JString (Draft.lastSaved d)),
        (''isDirty'', JBoolean (Draft.isDirty d))]"

definition jsonOfServiceLog :: "ServiceLog \<Rightarrow> json" where
  "jsonOfServiceLog l =
     JObject
       ([(''providerId'', JString (ServiceLog.providerId l)),
         (''serviceOrder'', JString (ServiceLog.serviceOrder l)),
         (''carId'', JString (ServiceLog.carId l)),
         (''odometer'', jsonOfNumber (ServiceLog.odometer l)),
         (''engineHours'', jsonOfNumber (ServiceLog.engineHours l)),
         (''startDate'', JString (ServiceLog.startDate l)),
         (''endDate'', JString (ServiceLog.endDate l)),
         (''type'', JString (typeName (ServiceLog.type l))),
         (''serviceDescription'', JString (ServiceLog.serviceDescription l)),
         (''id'', JString (ServiceLog.id l))] @
        (case ServiceLog.lastSaved l of None \<Rightarrow> [] | Some v \<Rightarrow> [(''lastSaved'', JString v)]) @
        (case ServiceLog.isDirty l of None \<Rightarrow> [] | Some b \<Rightarrow> [(''isDirty'', JBoolean b)]) @
        [(''createdAt'', JString (ServiceLog.createdAt l))])"

definition jsonOfFilters :: "Filters \<Rightarrow> json" where
  "jsonOfFilters f =
     JObject
       [(''startDateFrom'', JString (Filters.startDateFrom f)),
        (''startDateTo'', JString (Filters.startDateTo f)),
        (''type'', JString (case Filters.type f of None \<Rightarrow> [] | Some t \<Rightarrow> typeName t))]"

text \<open>The properties that a partial state has, each with its value.\<close>

definition jsonOfState :: "PartialState \<Rightarrow> json" where
  "jsonOfState v =
     JObject
       ((case PartialState.serviceLogs v of
           None \<Rightarrow> [] | Some ls \<Rightarrow> [(''serviceLogs'', JArray (map jsonOfServiceLog ls))]) @
        (case PartialState.drafts v of
           None \<Rightarrow> [] | Some ds \<Rightarrow> [(''drafts'', JArray (map jsonOfDraft ds))]) @
        (case PartialState.currentDraft v of
           None \<Rightarrow> []
         | Some None \<Rightarrow> [(''currentDraft'', JNull)]
         | Some (Some c) \<Rightarrow> [(''currentDraft'', jsonOfDraft c)]) @
        (case PartialState.searchTerm v of
           None \<Rightarrow> [] | Some t \<Rightarrow> [(''searchTerm'', JString t)]) @
        (case PartialState.filters v of
           None \<Rightarrow> [] | Some f \<Rightarrow> [(''filters'', jsonOfFilters f)]) @
        (case PartialState.editingLog v of
           None \<Rightarrow> []
         | Some None \<Rightarrow> [(''editingLog'', JNull)]
         | Some (Some l) \<Rightarrow> [(''editingLog'', jsonOfServiceLog l)]) @
        (case PartialState.saveStatus v of
           None \<Rightarrow> [] | Some t \<Rightarrow> [(''saveStatus'', JString (statusName t))]) @
        (case PartialState.validationErrors v of
           None \<Rightarrow> [] | Some es \<Rightarrow> [(''validationErrors'', JArray (map JString es))]) @
        (case PartialState.showFilters v of
           None \<Rightarrow> [] | Some b \<Rightarrow> [(''showFilters'', JBoolean b)]))"

definition JSON_stringify :: "PartialState \<Rightarrow> stored" where
  "JSON_stringify v = JsonText (jsonOfState v)"

text \<open>\<^verbatim>\<open>JSON.parse\<close>: the value of a JSON text, and a \<^verbatim>\<open>SyntaxError\<close> on any other string.\<close>

definition JSON_parse :: "stored \<Rightarrow> exception + json" where
  "JSON_parse raw = (case raw of JsonText v \<Rightarrow> Inr v | _ \<Rightarrow> Inl SyntaxError)"

definition LOCAL_STORAGE_KEY :: string where
  "LOCAL_STORAGE_KEY = ''serviceLogManager_v1''"

text \<open>The object \<^verbatim>\<open>toSave\<close> of \<^verbatim>\<open>persistToLocalStorage\<close>.\<close>

definition toSave :: "RootStateServiceLog \<Rightarrow> PartialState" where
  "toSave state =
     \<lparr> PartialState.serviceLogs = Some (serviceLogs state),
       drafts = Some (map (\<lambda>d. d\<lparr> Draft.isDirty := False \<rparr>) (drafts state)),
       currentDraft =
         Some (case currentDraft state of
                 None \<Rightarrow> None
               | Some c \<Rightarrow> Some (c\<lparr> Draft.isDirty := False \<rparr>)),
       searchTerm = None, filters = None, editingLog = None, saveStatus = None,
       validationErrors = None, showFilters = None \<rparr>"

text \<open>
  \<^verbatim>\<open>persistToLocalStorage\<close>: the storage after the call. The \<^verbatim>\<open>catch\<close> ignores
  the exception of a write that fails.
\<close>

definition persistToLocalStorage :: "RootStateServiceLog \<Rightarrow> Storage \<Rightarrow> Storage" where
  "persistToLocalStorage state ls =
     (case setItem ls LOCAL_STORAGE_KEY (JSON_stringify (toSave state)) of
        Inl err \<Rightarrow> ls
      | Inr ls' \<Rightarrow> ls')"

text \<open>
  \<^verbatim>\<open>loadFromLocalStorage\<close>: the value that was parsed, which the code takes
  for a \<^verbatim>\<open>Partial<RootStateServiceLog>\<close> as it is; \<open>None\<close> is \<^verbatim>\<open>null\<close>.
\<close>

definition loadFromLocalStorage :: "Storage \<Rightarrow> json option" where
  "loadFromLocalStorage ls =
     (case getItem ls LOCAL_STORAGE_KEY of
        None \<Rightarrow> None
      | Some raw \<Rightarrow>
          if raw = EmptyString then None
          else (case JSON_parse raw of
                  Inl err \<Rightarrow> None
                | Inr v \<Rightarrow> if v = JNull then None else Some v))"

text \<open>
  What a parsed value is at the types that the code gives it. \<open>property k v\<close>
  is \<^verbatim>\<open>v[k]\<close>, with \<open>None\<close> for \<^verbatim>\<open>undefined\<close>; a draft or a log is read from
  an object whose properties have the declared types, and is \<open>None\<close> when a
  property is missing or has another type, as a number that came back as
  \<^verbatim>\<open>null\<close>.
\<close>

definition property :: "string \<Rightarrow> json \<Rightarrow> json option" where
  "property k v = (case v of JObject ps \<Rightarrow> map_of ps k | _ \<Rightarrow> None)"

fun stringOf :: "json option \<Rightarrow> string option" where
  "stringOf (Some (JString s)) = Some s"
| "stringOf _ = None"

fun numberOf :: "json option \<Rightarrow> number option" where
  "numberOf (Some (JNumber r)) = Some (Finite r)"
| "numberOf _ = None"

fun booleanOf :: "json option \<Rightarrow> bool option" where
  "booleanOf (Some (JBoolean b)) = Some b"
| "booleanOf _ = None"

definition serviceTypeOf :: "json option \<Rightarrow> ServiceType option" where
  "serviceTypeOf v =
     (case stringOf v of
        None \<Rightarrow> None
      | Some s \<Rightarrow>
          if s = ''planned'' then Some planned
          else if s = ''unplanned'' then Some unplanned
          else if s = ''emergency'' then Some emergency else None)"

text \<open>A property that the object may lack: \<open>Some None\<close> when it does.\<close>

fun optional :: "(json option \<Rightarrow> 'a option) \<Rightarrow> json option \<Rightarrow> 'a option option" where
  "optional f None = Some None"
| "optional f (Some v) = map_option Some (f (Some v))"

definition draftOfJson :: "json \<Rightarrow> Draft option" where
  "draftOfJson v =
     Option.bind (stringOf (property ''providerId'' v)) (\<lambda>p1.
     Option.bind (stringOf (property ''serviceOrder'' v)) (\<lambda>p2.
     Option.bind (stringOf (property ''carId'' v)) (\<lambda>p3.
     Option.bind (numberOf (property ''odometer'' v)) (\<lambda>p4.
     Option.bind (numberOf (property ''engineHours'' v)) (\<lambda>p5.
     Option.bind (stringOf (property ''startDate'' v)) (\<lambda>p6.
     Option.bind (stringOf (property ''endDate'' v)) (\<lambda>p7.
     Option.bind (serviceTypeOf (property ''type'' v)) (\<lambda>p8.
     Option.bind (stringOf (property ''serviceDescription'' v)) (\<lambda>p9.
     Option.bind (stringOf (property ''id'' v)) (\<lambda>p10.
     Option.bind (stringOf (property ''lastSaved'' v)) (\<lambda>p11.
     Option.bind (booleanOf (property ''isDirty'' v)) (\<lambda>p12.
       Some \<lparr> Draft.providerId = p1, serviceOrder = p2, carId = p3, odometer = p4,
              engineHours = p5, startDate = p6, endDate = p7, type = p8,
              serviceDescription = p9, id = p10, lastSaved = p11, isDirty = p12 \<rparr>))))))))))))"

definition serviceLogOfJson :: "json \<Rightarrow> ServiceLog option" where
  "serviceLogOfJson v =
     Option.bind (stringOf (property ''id'' v)) (\<lambda>p0.
     Option.bind (stringOf (property ''providerId'' v)) (\<lambda>p1.
     Option.bind (stringOf (property ''serviceOrder'' v)) (\<lambda>p2.
     Option.bind (stringOf (property ''carId'' v)) (\<lambda>p3.
     Option.bind (numberOf (property ''odometer'' v)) (\<lambda>p4.
     Option.bind (numberOf (property ''engineHours'' v)) (\<lambda>p5.
     Option.bind (stringOf (property ''startDate'' v)) (\<lambda>p6.
     Option.bind (stringOf (property ''endDate'' v)) (\<lambda>p7.
     Option.bind (serviceTypeOf (property ''type'' v)) (\<lambda>p8.
     Option.bind (stringOf (property ''serviceDescription'' v)) (\<lambda>p9.
     Option.bind (stringOf (property ''createdAt'' v)) (\<lambda>p10.
     Option.bind (optional stringOf (property ''lastSaved'' v)) (\<lambda>p11.
     Option.bind (optional booleanOf (property ''isDirty'' v)) (\<lambda>p12.
       Some \<lparr> ServiceLog.id = p0, providerId = p1, serviceOrder = p2, carId = p3,
              odometer = p4, engineHours = p5, startDate = p6, endDate = p7, type = p8,
              serviceDescription = p9, createdAt = p10, lastSaved = p11,
              isDirty = p12 \<rparr>)))))))))))))"

text \<open>
  The \<^verbatim>\<open>serviceLogs\<close>, the \<^verbatim>\<open>drafts\<close> and the \<^verbatim>\<open>currentDraft\<close> of the value
  that \<^verbatim>\<open>loadFromLocalStorage\<close> returns; \<open>Some None\<close> is the current draft
  \<^verbatim>\<open>null\<close>.
\<close>

definition restoredServiceLogs :: "json \<Rightarrow> ServiceLog list option" where
  "restoredServiceLogs v =
     (case property ''serviceLogs'' v of
        Some (JArray vs) \<Rightarrow> those (map serviceLogOfJson vs)
      | _ \<Rightarrow> None)"

definition restoredDrafts :: "json \<Rightarrow> Draft list option" where
  "restoredDrafts v =
     (case property ''drafts'' v of
        Some (JArray vs) \<Rightarrow> those (map draftOfJson vs)
      | _ \<Rightarrow> None)"

definition restoredCurrentDraft :: "json \<Rightarrow> Draft option option" where
  "restoredCurrentDraft v =
     (case property ''currentDraft'' v of
        None \<Rightarrow> None
      | Some JNull \<Rightarrow> Some None
      | Some c \<Rightarrow> map_option Some (draftOfJson c))"

text \<open>The numbers of a state are all finite.\<close>

definition finiteNumber :: "number \<Rightarrow> bool" where
  "finiteNumber x = (case x of Finite r \<Rightarrow> True | _ \<Rightarrow> False)"

definition finiteDraft :: "Draft \<Rightarrow> bool" where
  "finiteDraft d = (finiteNumber (Draft.odometer d) \<and> finiteNumber (Draft.engineHours d))"

definition finiteServiceLog :: "ServiceLog \<Rightarrow> bool" where
  "finiteServiceLog l =
     (finiteNumber (ServiceLog.odometer l) \<and> finiteNumber (ServiceLog.engineHours l))"

definition finiteNumbers :: "RootStateServiceLog \<Rightarrow> bool" where
  "finiteNumbers state =
     (list_all finiteServiceLog (serviceLogs state) \<and> list_all finiteDraft (drafts state) \<and>
      (case currentDraft state of None \<Rightarrow> True | Some c \<Rightarrow> finiteDraft c))"


section \<open>The filtered view\<close>

definition booleanToString :: "bool \<Rightarrow> string" where
  "booleanToString b = (if b then ''true'' else ''false'')"

text \<open>
  \<^verbatim>\<open>Object.values(log)\<close> with \<^verbatim>\<open>toString()\<close> applied to each value: the
  declared properties, then \<^verbatim>\<open>lastSaved\<close> and \<^verbatim>\<open>isDirty\<close> where the object
  has them. The order of the values plays no role for \<^verbatim>\<open>some\<close>.
\<close>

definition objectValues :: "Runtime \<Rightarrow> ServiceLog \<Rightarrow> string list" where
  "objectValues rt l =
     [ServiceLog.providerId l, ServiceLog.serviceOrder l, ServiceLog.carId l,
      numberToString rt (ServiceLog.odometer l), numberToString rt (ServiceLog.engineHours l),
      ServiceLog.startDate l, ServiceLog.endDate l, typeName (ServiceLog.type l),
      ServiceLog.serviceDescription l, ServiceLog.id l, ServiceLog.createdAt l] @
     (case ServiceLog.lastSaved l of None \<Rightarrow> [] | Some v \<Rightarrow> [v]) @
     (case ServiceLog.isDirty l of None \<Rightarrow> [] | Some b \<Rightarrow> [booleanToString b])"

definition matchesSearch :: "Runtime \<Rightarrow> RootStateServiceLog \<Rightarrow> ServiceLog \<Rightarrow> bool" where
  "matchesSearch rt state l =
     (searchTerm state = [] \<or>
      list_ex (\<lambda>v. includesStr (toLowerCase v) (toLowerCase (searchTerm state)))
        (objectValues rt l))"

definition matchesDateRange :: "RootStateServiceLog \<Rightarrow> ServiceLog \<Rightarrow> bool" where
  "matchesDateRange state l =
     ((Filters.startDateFrom (filters state) = [] \<or>
       stringGreaterEq (ServiceLog.startDate l) (Filters.startDateFrom (filters state))) \<and>
      (Filters.startDateTo (filters state) = [] \<or>
       stringLessEq (ServiceLog.startDate l) (Filters.startDateTo (filters state))))"

definition matchesType :: "RootStateServiceLog \<Rightarrow> ServiceLog \<Rightarrow> bool" where
  "matchesType state l =
     (case Filters.type (filters state) of None \<Rightarrow> True | Some t \<Rightarrow> ServiceLog.type l = t)"

definition filteredLogs :: "Runtime \<Rightarrow> RootStateServiceLog \<Rightarrow> ServiceLog list" where
  "filteredLogs rt state =
     filter (\<lambda>l. matchesSearch rt state l \<and> matchesDateRange state l \<and> matchesType state l)
       (serviceLogs state)"


section \<open>A host in the UTC time zone\<close>

text \<open>
  An instance of the built-ins, on which the model is evaluated at concrete
  inputs: the proleptic Gregorian calendar of ECMAScript dates, with UTC as
  the local time zone. Of the strings that a host reads as a date it reads the
  date-only ISO strings \<^verbatim>\<open>YYYY-MM-DD\<close>, the form in which a date input
  delivers its value.
\<close>

definition digitChar :: "nat \<Rightarrow> char" where
  "digitChar n = ''0123456789'' ! n"

text \<open>The decimal digits of a natural number, and the last \<open>n\<close> digits of an integer.\<close>

fun showNat :: "nat \<Rightarrow> string" where
  "showNat n =
     (if n < 10 then [digitChar n] else showNat (n div 10) @ [digitChar (n mod 10)])"

primrec showDigits :: "nat \<Rightarrow> int \<Rightarrow> string" where
  "showDigits 0 x = []"
| "showDigits (Suc n) x = showDigits n (x div 10) @ [digitChar (nat (x mod 10))]"

definition isDigit :: "char \<Rightarrow> bool" where
  "isDigit c = (48 \<le> (of_char c :: nat) \<and> (of_char c :: nat) \<le> 57)"

definition readNat :: "string \<Rightarrow> int" where
  "readNat s = foldl (\<lambda>acc c. 10 * acc + (int (of_char c) - 48)) 0 s"

definition isLeapYear :: "int \<Rightarrow> bool" where
  "isLeapYear y = (y mod 4 = 0 \<and> (y mod 100 \<noteq> 0 \<or> y mod 400 = 0))"

definition daysInMonth :: "int \<Rightarrow> int \<Rightarrow> int" where
  "daysInMonth y m =
     (if m = 2 then (if isLeapYear y then 29 else 28)
      else if m = 4 \<or> m = 6 \<or> m = 9 \<or> m = 11 then 30 else 31)"

text \<open>
  The day number (days since 1970-01-01) of a civil date, and back. Both count
  in years that begin with March, so that the leap day is the last day of its
  year: \<open>daysBeforeYear y\<close> is the number of days from the first of March of
  the year 0 to the first of March of the year \<open>y\<close>, and \<open>monthStart mp\<close>
  the number of days from the first of March to the first day of the month
  \<open>mp\<close> months later. The first of January 1970 is the day 719468 in this
  count.
\<close>

definition daysBeforeYear :: "int \<Rightarrow> int" where
  "daysBeforeYear y = 365 * y + y div 4 - y div 100 + y div 400"

definition monthStart :: "int \<Rightarrow> int" where
  "monthStart mp = (153 * mp + 2) div 5"

definition daysFromCivil :: "int \<Rightarrow> int \<Rightarrow> int \<Rightarrow> int" where
  "daysFromCivil y m d =
     (let y' = (if m \<le> 2 then y - 1 else y);
          mp = (if m > 2 then m - 3 else m + 9)
      in daysBeforeYear y' + monthStart mp + d - 1 - 719468)"

text \<open>
  The year that begins with March in which the day \<open>n\<close> lies: the estimate
  from the mean length of a year, moved by one where it is off.
\<close>

definition yearOfDays :: "int \<Rightarrow> int" where
  "yearOfDays n =
     (let y = (400 * n) div 146097 in
      if n < daysBeforeYear y then y - 1
      else if daysBeforeYear (y + 1) \<le> n then y + 1 else y)"

definition civilFromDays :: "int \<Rightarrow> int \<times> int \<times> int" where
  "civilFromDays z =
     (let n = z + 719468;
          y' = yearOfDays n;
          doy = n - daysBeforeYear y';
          mp = (5 * doy + 2) div 153;
          d = doy - monthStart mp + 1;
          m = (if mp < 10 then mp + 3 else mp - 9)
      in (if m \<le> 2 then y' + 1 else y', m, d))"

definition msPerDay :: int where
  "msPerDay = 86400000"

text \<open>
  \<^verbatim>\<open>new Date(s)\<close> on a date-only string: midnight UTC of that day. A day of
  the month up to 31 is taken in every month and counted on into the next
  month (\<^verbatim>\<open>2024-02-30\<close> is the first of March).
\<close>

definition utcParse :: "string \<Rightarrow> int option" where
  "utcParse s =
     (if length s = 10 \<and> s ! 4 = CHR ''-'' \<and> s ! 7 = CHR ''-'' \<and>
         list_all isDigit (take 4 s @ take 2 (drop 5 s) @ drop 8 s)
      then
        (let y = readNat (take 4 s); m = readNat (take 2 (drop 5 s)); d = readNat (drop 8 s) in
         if 1 \<le> m \<and> m \<le> 12 \<and> 1 \<le> d \<and> d \<le> 31
         then Some (daysFromCivil y m d * msPerDay) else None)
      else None)"

definition utcGetDate :: "int \<Rightarrow> int" where
  "utcGetDate t = (case civilFromDays (t div msPerDay) of (y, m, d) \<Rightarrow> d)"

definition utcSetDate :: "int \<Rightarrow> int \<Rightarrow> int option" where
  "utcSetDate t day =
     (case civilFromDays (t div msPerDay) of
        (y, m, d) \<Rightarrow>
          (let t' = (daysFromCivil y m 1 + day - 1) * msPerDay + t mod msPerDay in
           if \<bar>t'\<bar> \<le> 8640000000000000 then Some t' else None))"

definition utcToISOString :: "int \<Rightarrow> string" where
  "utcToISOString t =
     (case civilFromDays (t div msPerDay) of
        (y, m, d) \<Rightarrow>
          (let ms = t mod msPerDay in
           (if 0 \<le> y \<and> y \<le> 9999 then showDigits 4 y
            else (if y < 0 then ''-'' else ''+'') @ showDigits 6 \<bar>y\<bar>) @
           ''-'' @ showDigits 2 m @ ''-'' @ showDigits 2 d @
           ''T'' @ showDigits 2 (ms div 3600000) @
           '':'' @ showDigits 2 (ms mod 3600000 div 60000) @
           '':'' @ showDigits 2 (ms mod 60000 div 1000) @
           ''.'' @ showDigits 3 (ms mod 1000) @ ''Z''))"

text \<open>
  \<^verbatim>\<open>x.toString()\<close> on a number: the digits of the integral part and, for a
  number that is not integral, the point and the decimals, here up to twenty of
  them. A host prints the shortest decimals that read back as the same
  number, which are these for the numbers with few decimals that a form
  delivers, and turns to the exponent notation from \<^verbatim>\<open>1e21\<close> on and below
  \<^verbatim>\<open>1e-6\<close>; that notation is not modelled.
\<close>

primrec fractionDigits :: "nat \<Rightarrow> real \<Rightarrow> string" where
  "fractionDigits 0 x = []"
| "fractionDigits (Suc n) x =
     (if x = 0 then []
      else digitChar (nat \<lfloor>10 * x\<rfloor>) # fractionDigits n (10 * x - of_int \<lfloor>10 * x\<rfloor>))"

definition utcNumberToString :: "number \<Rightarrow> string" where
  "utcNumberToString x =
     (case x of
        NaN \<Rightarrow> ''NaN''
      | NegInfinity \<Rightarrow> ''-Infinity''
      | Finite r \<Rightarrow>
          (if r < 0 then ''-'' else []) @ showNat (nat \<lfloor>\<bar>r\<bar>\<rfloor>) @
          (if \<bar>r\<bar> = of_int \<lfloor>\<bar>r\<bar>\<rfloor> then []
           else ''.'' @ fractionDigits 20 (\<bar>r\<bar> - of_int \<lfloor>\<bar>r\<bar>\<rfloor>))
      | PosInfinity \<Rightarrow> ''Infinity'')"

definition utcHost :: Runtime where
  "utcHost =
     \<lparr> dateParse = utcParse, getDate = utcGetDate, setDate = utcSetDate,
       toISOString = utcToISOString, numberToString = utcNumberToString \<rparr>"


section \<open>Hosts with a time zone\<close>

text \<open>
  A time zone gives the offset of the local time from UTC, in milliseconds:
  \<open>offsetAt t\<close> at the instant \<open>t\<close> (\<^verbatim>\<open>LocalTZA(t, true)\<close> in ECMAScript),
  and \<open>offsetOfLocal t\<close> at the local time \<open>t\<close> (\<^verbatim>\<open>LocalTZA(t, false)\<close>).
  On a host with a time zone, \<^verbatim>\<open>getDate\<close> reads the day of the month of the
  local time \<^verbatim>\<open>LocalTime(t)\<close>, and \<^verbatim>\<open>setDate\<close> sets the day of the month of
  the local time and goes back to the instant \<^verbatim>\<open>UTC(t)\<close> of the new local
  time, as ECMAScript defines them. The other built-ins do not depend on the
  time zone: parsing a date-only string and \<^verbatim>\<open>toISOString\<close> work in UTC on
  every host.
\<close>

record Zone =
  offsetAt :: "int \<Rightarrow> int"
  offsetOfLocal :: "int \<Rightarrow> int"

definition zoneGetDate :: "Zone \<Rightarrow> int \<Rightarrow> int" where
  "zoneGetDate z t =
     (case civilFromDays ((t + offsetAt z t) div msPerDay) of (y, m, d) \<Rightarrow> d)"

definition zoneSetDate :: "Zone \<Rightarrow> int \<Rightarrow> int \<Rightarrow> int option" where
  "zoneSetDate z t day =
     (case civilFromDays ((t + offsetAt z t) div msPerDay) of
        (y, m, d) \<Rightarrow>
          (let local = (daysFromCivil y m 1 + day - 1) * msPerDay + (t + offsetAt z t) mod msPerDay;
               t' = local - offsetOfLocal z local
           in if \<bar>t'\<bar> \<le> 8640000000000000 then Some t' else None))"

definition zoneHost :: "Zone \<Rightarrow> Runtime" where
  "zoneHost z =
     \<lparr> dateParse = utcParse, getDate = zoneGetDate z, setDate = zoneSetDate z,
       toISOString = utcToISOString, numberToString = utcNumberToString \<rparr>"

text \<open>
  A time zone without a change of the clock: the same offset at every time.
  The UTC host is the host of the zone with the offset 0.
\<close>

definition fixedZone :: "int \<Rightarrow> Zone" where
  "fixedZone off = \<lparr> offsetAt = (\<lambda>t. off), offsetOfLocal = (\<lambda>t. off) \<rparr>"

text \<open>
  The clock is steady over the day that begins at the instant \<open>t\<close>: the
  local time one day after the local time of \<open>t\<close> has the offset of \<open>t\<close>.
  The offsets of the time zones lie between a day behind and a day ahead.
\<close>

definition steadyClock :: "Zone \<Rightarrow> int \<Rightarrow> bool" where
  "steadyClock z t =
     (- msPerDay < offsetAt z t \<and> offsetAt z t < msPerDay \<and>
      offsetOfLocal z (t + offsetAt z t + msPerDay) = offsetAt z t)"


section \<open>A host with a change of the clock\<close>

text \<open>
  Central European time around the one change of the clock that is modelled:
  local time is one hour ahead of UTC before \<^verbatim>\<open>2024-03-31T01:00:00Z\<close> and two
  hours ahead from then on. A local time in the hour that the clock skips is
  read with the offset before the change.
\<close>

definition clockChange :: int where
  "clockChange = 1711846800000"

definition cetZone :: Zone where
  "cetZone =
     \<lparr> offsetAt = (\<lambda>t. if t < clockChange then 3600000 else 7200000),
       offsetOfLocal = (\<lambda>t. if t - 7200000 < clockChange then 3600000 else 7200000) \<rparr>"

definition cetHost :: Runtime where
  "cetHost = zoneHost cetZone"


section \<open>What the specification says of the day after a date\<close>

text \<open>
  The dates of the calendar, and \<^emph>\<open>one calendar day\<close> after a date and before
  it: the next day of the month, or the first day of the next month, or the
  first of January of the next year. \<open>isoDate\<close> is the string
  \<^verbatim>\<open>YYYY-MM-DD\<close> of a date, the form of the fields \<^verbatim>\<open>startDate\<close> and
  \<^verbatim>\<open>endDate\<close>.
\<close>

definition validDate :: "int \<Rightarrow> int \<Rightarrow> int \<Rightarrow> bool" where
  "validDate y m d = (1 \<le> m \<and> m \<le> 12 \<and> 1 \<le> d \<and> d \<le> daysInMonth y m)"

definition nextCalendarDay :: "int \<times> int \<times> int \<Rightarrow> int \<times> int \<times> int" where
  "nextCalendarDay c =
     (case c of (y, m, d) \<Rightarrow>
        if d < daysInMonth y m then (y, m, d + 1)
        else if m < 12 then (y, m + 1, 1) else (y + 1, 1, 1))"

definition previousCalendarDay :: "int \<times> int \<times> int \<Rightarrow> int \<times> int \<times> int" where
  "previousCalendarDay c =
     (case c of (y, m, d) \<Rightarrow>
        if 1 < d then (y, m, d - 1)
        else if 1 < m then (y, m - 1, daysInMonth y (m - 1)) else (y - 1, 12, 31))"

definition isoDate :: "int \<times> int \<times> int \<Rightarrow> string" where
  "isoDate c =
     (case c of (y, m, d) \<Rightarrow> showDigits 4 y @ ''-'' @ showDigits 2 m @ ''-'' @ showDigits 2 d)"

text \<open>The instant at which a date begins in UTC, the time value of its date-only string.\<close>

definition startOfDay :: "int \<times> int \<times> int \<Rightarrow> int" where
  "startOfDay c = (case c of (y, m, d) \<Rightarrow> daysFromCivil y m d * msPerDay)"


section \<open>Reachable states and the pointer invariant\<close>

text \<open>
  The states the slice reaches from \<open>initialState\<close> by its reducers. A
  reducer that throws leaves the state as it is, so only the results \<open>Inr\<close>
  are steps. Two payloads are restricted, as the component restricts them:
  \<^verbatim>\<open>setCurrentDraft\<close> is dispatched with \<^verbatim>\<open>null\<close> or with a draft of
  \<^verbatim>\<open>state.drafts\<close>, and \<^verbatim>\<open>loadFromStorage\<close> with the object that
  \<^verbatim>\<open>persistToLocalStorage\<close> saved for a reachable state.
\<close>

inductive reachable :: "Runtime \<Rightarrow> RootStateServiceLog \<Rightarrow> bool" for rt :: Runtime where
  initial: "reachable rt initialState"
| load: "reachable rt s \<Longrightarrow> reachable rt persisted \<Longrightarrow>
    reachable rt (loadFromStorage (toSave persisted) s)"
| create: "reachable rt s \<Longrightarrow> createDraft rt today now random savedAt s = Inr s' \<Longrightarrow>
    reachable rt s'"
| select: "reachable rt s \<Longrightarrow> payload = None \<or> (\<exists>d \<in> set (drafts s). payload = Some d) \<Longrightarrow>
    reachable rt (setCurrentDraft payload s)"
| update: "reachable rt s \<Longrightarrow> updateDraft rt i fv s = Inr s' \<Longrightarrow> reachable rt s'"
| delete: "reachable rt s \<Longrightarrow> reachable rt (deleteDraft i s)"
| clear: "reachable rt s \<Longrightarrow> reachable rt (clearAllDrafts s)"
| promote: "reachable rt s \<Longrightarrow> reachable rt (createServiceLog rt now random createdNow s)"
| edit: "reachable rt s \<Longrightarrow> reachable rt (setEditingLog logPayload s)"
| editField: "reachable rt s \<Longrightarrow> updateEditingLogField rt lfv s = Inr s' \<Longrightarrow> reachable rt s'"
| save: "reachable rt s \<Longrightarrow> reachable rt (saveEditingLog rt s)"
| remove: "reachable rt s \<Longrightarrow> reachable rt (deleteServiceLog i s)"
| search: "reachable rt s \<Longrightarrow> reachable rt (setSearchTerm term s)"
| filters: "reachable rt s \<Longrightarrow> reachable rt (setFilters filterPayload s)"
| toggle: "reachable rt s \<Longrightarrow> reachable rt (toggleFilters s)"
| clearFilters: "reachable rt s \<Longrightarrow> reachable rt (clearFilters s)"
| status: "reachable rt s \<Longrightarrow> reachable rt (setSaveStatus st s)"
| errors: "reachable rt s \<Longrightarrow> reachable rt (setValidationErrors errs s)"
| markSaved: "reachable rt s \<Longrightarrow> reachable rt (markDraftSaved rt now i savedAt s)"

text \<open>
  The current-draft pointer is \<^verbatim>\<open>null\<close> or equal, field by field, to a draft
  of the collection.
\<close>

definition currentDraftPresent :: "RootStateServiceLog \<Rightarrow> bool" where
  "currentDraftPresent state =
     (case currentDraft state of None \<Rightarrow> True | Some c \<Rightarrow> c \<in> set (drafts state))"


section \<open>What the specification says of a valid candidate\<close>

text \<open>
  The nine rules of the specification's validation engine, in its words: the
  four texts are defined and not empty once trimmed, the two measurements are
  defined and at least zero, the two dates are present, and the end date is not
  before the start date when both are present.
\<close>

definition specNonEmpty :: "string option \<Rightarrow> bool" where
  "specNonEmpty v = (case v of None \<Rightarrow> False | Some s \<Rightarrow> trim s \<noteq> [])"

definition specNonNegative :: "number option \<Rightarrow> bool" where
  "specNonNegative v = (case v of None \<Rightarrow> False | Some x \<Rightarrow> atLeastZero x)"

definition specPresent :: "string option \<Rightarrow> bool" where
  "specPresent v = (case v of None \<Rightarrow> False | Some s \<Rightarrow> s \<noteq> [])"

definition specValid :: "Runtime \<Rightarrow> Candidate \<Rightarrow> bool" where
  "specValid rt data =
     (specNonEmpty (Candidate.providerId data) \<and>
      specNonEmpty (Candidate.serviceOrder data) \<and>
      specNonEmpty (Candidate.carId data) \<and>
      specNonNegative (Candidate.odometer data) \<and>
      specNonNegative (Candidate.engineHours data) \<and>
      specPresent (Candidate.startDate data) \<and>
      specPresent (Candidate.endDate data) \<and>
      specNonEmpty (Candidate.serviceDescription data) \<and>
      (case (Candidate.startDate data, Candidate.endDate data) of
         (Some s, Some e) \<Rightarrow> specPresent (Some s) \<and> specPresent (Some e) \<and> dateBefore rt e s
       | _ \<Rightarrow> False) = False)"


section \<open>What the specification says of a promoted record\<close>

text \<open>
  The Record of the specification's data model for a promoted draft: the nine
  shared fields copied from the draft, the generated \<open>id\<close> and
  \<open>createdAt\<close>, and no other property.
\<close>

definition specRecord :: "Draft \<Rightarrow> string \<Rightarrow> string \<Rightarrow> ServiceLog" where
  "specRecord d newId created =
     \<lparr> ServiceLog.id = newId,
       providerId = Draft.providerId d,
       serviceOrder = Draft.serviceOrder d,
       carId = Draft.carId d,
       odometer = Draft.odometer d,
       engineHours = Draft.engineHours d,
       startDate = Draft.startDate d,
       endDate = Draft.endDate d,
       type = Draft.type d,
       serviceDescription = Draft.serviceDescription d,
       createdAt = created,
       lastSaved = None,
       isDirty = None \<rparr>"


section \<open>What the specification says of the filtered view\<close>

text \<open>
  The projection of the specification, in its words: a Record passes when the
  search term is empty or is, without regard to case, a substring of the
  string rendering of one of the fields of the Record, the eleven fields of the
  data model, and its start date is in the range of the filter, and its type
  is the type of the filter, where these are set.
\<close>

definition specFieldValues :: "Runtime \<Rightarrow> ServiceLog \<Rightarrow> string list" where
  "specFieldValues rt l =
     [ServiceLog.id l, ServiceLog.providerId l, ServiceLog.serviceOrder l, ServiceLog.carId l,
      numberToString rt (ServiceLog.odometer l), numberToString rt (ServiceLog.engineHours l),
      ServiceLog.startDate l, ServiceLog.endDate l, typeName (ServiceLog.type l),
      ServiceLog.serviceDescription l, ServiceLog.createdAt l]"

definition specPasses :: "Runtime \<Rightarrow> RootStateServiceLog \<Rightarrow> ServiceLog \<Rightarrow> bool" where
  "specPasses rt state l =
     ((searchTerm state = [] \<or>
       list_ex (\<lambda>v. includesStr (toLowerCase v) (toLowerCase (searchTerm state)))
         (specFieldValues rt l)) \<and>
      (Filters.startDateFrom (filters state) = [] \<or>
       stringGreaterEq (ServiceLog.startDate l) (Filters.startDateFrom (filters state))) \<and>
      (Filters.startDateTo (filters state) = [] \<or>
       stringLessEq (ServiceLog.startDate l) (Filters.startDateTo (filters state))) \<and>
      (Filters.type (filters state) = None \<or>
       Filters.type (filters state) = Some (ServiceLog.type l)))"


section \<open>Example values\<close>

definition exampleDraft :: Draft where
  "exampleDraft =
     \<lparr> Draft.providerId = ''P1'', serviceOrder = ''S1'', carId = ''C1'',
       odometer = Finite 100, engineHours = Finite 5,
       startDate = ''2024-01-31'', endDate = ''2024-03-15'',
       type = planned, serviceDescription = ''oil change'',
       id = ''draft_1'', lastSaved = ''2024-01-31T08:00:00.000Z'', isDirty = False \<rparr>"

definition exampleState :: RootStateServiceLog where
  "exampleState = initialState\<lparr> drafts := [exampleDraft], currentDraft := Some exampleDraft \<rparr>"

definition exampleLog :: ServiceLog where
  "exampleLog =
     \<lparr> ServiceLog.id = ''log_1'', providerId = ''P1'', serviceOrder = ''S1'', carId = ''C1'',
       odometer = Finite 100, engineHours = Finite 5,
       startDate = ''2024-01-06'', endDate = ''2024-01-07'',
       type = planned, serviceDescription = ''oil change'',
       createdAt = ''2024-01-08T09:00:00.000Z'', lastSaved = None, isDirty = None \<rparr>"

definition earlyLog :: ServiceLog where
  "earlyLog = exampleLog\<lparr> ServiceLog.id := ''log_2'', ServiceLog.startDate := ''2024-01-03'',
     ServiceLog.endDate := ''2024-01-04'' \<rparr>"

definition emergencyLog :: ServiceLog where
  "emergencyLog = exampleLog\<lparr> ServiceLog.id := ''log_3'', ServiceLog.startDate := ''2024-01-07'',
     ServiceLog.endDate := ''2024-01-08'', ServiceLog.type := emergency \<rparr>"

text \<open>A state with three records and an edit session open on the first.\<close>

definition editingState :: RootStateServiceLog where
  "editingState =
     initialState\<lparr> serviceLogs := [exampleLog, earlyLog, emergencyLog],
                    editingLog := Some (exampleLog\<lparr> ServiceLog.odometer := Finite 120 \<rparr>),
                    showFilters := True, saveStatus := saved \<rparr>"

text \<open>The example state with an edit session open on \<open>exampleLog\<close>.\<close>

definition draftEditState :: RootStateServiceLog where
  "draftEditState = exampleState\<lparr> editingLog := Some exampleLog \<rparr>"

text \<open>The example state after an edit of its draft: the draft is dirty.\<close>

definition dirtyState :: RootStateServiceLog where
  "dirtyState =
     exampleState\<lparr> drafts := [exampleDraft\<lparr> Draft.isDirty := True \<rparr>],
                    currentDraft := Some (exampleDraft\<lparr> Draft.isDirty := True \<rparr>),
                    saveStatus := saving \<rparr>"

text \<open>
  The draft and the state that \<^verbatim>\<open>createDraft\<close> makes from the initial state on
  the UTC host, at the clock readings \<^verbatim>\<open>1700000000123\<close> and \<^verbatim>\<open>1700000000124\<close>.
\<close>

definition createdDraft :: Draft where
  "createdDraft =
     \<lparr> Draft.providerId = [], serviceOrder = [], carId = [],
       odometer = Finite 0, engineHours = Finite 0,
       startDate = ''2023-11-14'', endDate = ''2023-11-15'',
       type = planned, serviceDescription = [],
       id = ''draft_1700000000123_abc1234'', lastSaved = ''2023-11-14T22:13:20.124Z'',
       isDirty = False \<rparr>"

definition createdState :: RootStateServiceLog where
  "createdState = initialState\<lparr> drafts := [createdDraft], currentDraft := Some createdDraft \<rparr>"

text \<open>
  Three records with the filter \<^verbatim>\<open>{ startDateFrom: '2024-01-05', type: 'planned' }\<close>,
  and the same records with the search term \<^verbatim>\<open>OIL\<close>.
\<close>

definition filterState :: RootStateServiceLog where
  "filterState =
     initialState\<lparr> serviceLogs := [earlyLog, exampleLog, emergencyLog],
                    filters := \<lparr> Filters.startDateFrom = ''2024-01-05'', startDateTo = [],
                                 type = Some planned \<rparr> \<rparr>"

definition searchState :: RootStateServiceLog where
  "searchState =
     initialState\<lparr> serviceLogs := [earlyLog, exampleLog, emergencyLog], searchTerm := ''OIL'' \<rparr>"

text \<open>A storage that takes every write, and one that takes none.\<close>

definition emptyStorage :: Storage where
  "emptyStorage = \<lparr> items = (\<lambda>k. None), accepts = (\<lambda>k v. True) \<rparr>"

definition fullStorage :: Storage where
  "fullStorage = \<lparr> items = (\<lambda>k. None), accepts = (\<lambda>k v. False) \<rparr>"

text \<open>
  The states of a session on the UTC host that begins with the state
  \<open>createdState\<close>: the four texts of the draft are typed in, the timer of the
  component dispatches \<^verbatim>\<open>markDraftSaved\<close> at the clock reading
  \<^verbatim>\<open>1700000001500\<close>, and \<^verbatim>\<open>createServiceLog\<close> promotes the draft at the clock
  readings \<^verbatim>\<open>1700000002000\<close> and \<^verbatim>\<open>1700000002001\<close>.
\<close>

definition draftingState :: "Draft \<Rightarrow> RootStateServiceLog" where
  "draftingState d = createdState\<lparr> drafts := [d], currentDraft := Some d, saveStatus := saving \<rparr>"

definition filledDraft :: Draft where
  "filledDraft =
     createdDraft\<lparr> Draft.providerId := ''P1'', Draft.serviceOrder := ''S1'', Draft.carId := ''C1'',
                   Draft.serviceDescription := ''oil change'', Draft.isDirty := True \<rparr>"

definition savedDraft :: Draft where
  "savedDraft =
     filledDraft\<lparr> Draft.isDirty := False, Draft.lastSaved := ''2023-11-14T22:13:21.500Z'' \<rparr>"

definition promotedLog :: ServiceLog where
  "promotedLog =
     \<lparr> ServiceLog.id = ''log_1700000002000_k3j9x2a'', providerId = ''P1'', serviceOrder = ''S1'',
       carId = ''C1'', odometer = Finite 0, engineHours = Finite 0,
       startDate = ''2023-11-14'', endDate = ''2023-11-15'',
       type = planned, serviceDescription = ''oil change'',
       createdAt = ''2023-11-14T22:13:22.001Z'',
       lastSaved = Some ''2023-11-14T22:13:21.500Z'', isDirty = Some False \<rparr>"

definition promotedState :: RootStateServiceLog where
  "promotedState = initialState\<lparr> serviceLogs := [promotedLog], saveStatus := saving \<rparr>"

text \<open>The state after the promotion, with the search term \<^verbatim>\<open>false\<close>.\<close>

definition falseSearchState :: RootStateServiceLog where
  "falseSearchState = setSearchTerm ''false'' promotedState"

text \<open>
  The state after the promotion, with an edit session opened on the record,
  after \<^verbatim>\<open>loadFromStorage\<close> of what \<^verbatim>\<open>persistToLocalStorage\<close> saved for the
  initial state: the session is open on a record that is not in the
  collection any more.
\<close>

definition staleSessionState :: RootStateServiceLog where
  "staleSessionState =
     loadFromStorage (toSave initialState) (setEditingLog (Some promotedLog) promotedState)"

text \<open>The state \<open>createdState\<close> after \<^verbatim>\<open>NaN\<close> was written to the odometer of its draft.\<close>

definition nanDraft :: Draft where
  "nanDraft = createdDraft\<lparr> Draft.odometer := NaN, Draft.isDirty := True \<rparr>"

definition nanState :: RootStateServiceLog where
  "nanState = draftingState nanDraft"

text \<open>Three records and a search term that none of them has.\<close>

definition missState :: RootStateServiceLog where
  "missState =
     initialState\<lparr> serviceLogs := [earlyLog, exampleLog, emergencyLog], searchTerm := ''tyre'' \<rparr>"


section \<open>Evaluations on the UTC host\<close>

lemma utcParse_examples:
  "utcParse ''2024-01-31'' = Some 1706659200000"
  "utcParse ''2024-03-15'' = Some 1710460800000"
  "utcParse ''2024-01-06'' = Some 1704499200000"
  "utcParse ''2024-01-07'' = Some 1704585600000"
  "utcParse [] = None"
  by code_simp+

lemma utcParse_overflow_examples:
  "utcParse ''2024-02-30'' = Some 1709251200000"
  "utcParse ''2024-03-01'' = Some 1709251200000"
  "utcParse ''2024-02-32'' = None"
  "utcParse ''2024-13-01'' = None"
  by code_simp+

lemma fractionDigits_numeral:
  "fractionDigits (numeral k) x =
     (if x = 0 then []
      else digitChar (nat \<lfloor>10 * x\<rfloor>) # fractionDigits (pred_numeral k) (10 * x - of_int \<lfloor>10 * x\<rfloor>))"
  by (simp add: numeral_eq_Suc)

lemma utcNumberToString_examples:
  "utcNumberToString (Finite 100) = ''100''"
  "utcNumberToString (Finite (201 / 2)) = ''100.5''"
  "utcNumberToString (Finite (- 5)) = ''-5''"
  "utcNumberToString (Finite (1 / 8)) = ''0.125''"
  "utcNumberToString NaN = ''NaN''"
  by (simp_all add: utcNumberToString_def digitChar_def fractionDigits_numeral)

lemma validate_exampleDraft: "validateServiceLog utcHost (candidateOfDraft exampleDraft) = []"
  by (simp add: validateServiceLog_def candidateOfDraft_def exampleDraft_def blank_def falsy_def
      undefinedOrNegative_def lessThanZero_def endBeforeStart_def dateBefore_def utcHost_def
      utcParse_examples trim_def isWhiteSpace_def)

lemma validate_exampleLog:
  "validateServiceLog utcHost (candidateOfLog (exampleLog\<lparr> ServiceLog.odometer := Finite 120 \<rparr>)) = []"
  by (simp add: validateServiceLog_def candidateOfLog_def exampleLog_def blank_def falsy_def
      undefinedOrNegative_def lessThanZero_def endBeforeStart_def dateBefore_def utcHost_def
      utcParse_examples trim_def isWhiteSpace_def)

lemma utc_toISOString_example: "toISOString utcHost 1706700000001 = ''2024-01-31T11:20:00.001Z''"
  by code_simp

lemma utc_logId_example: "logId utcHost 1706700000000 ''k3j9x2a'' = ''log_1706700000000_k3j9x2a''"
  by (simp add: logId_def utcHost_def utcNumberToString_def digitChar_def)

lemma utc_dayAfter_example:
  "dayAfter utcHost (dateParse utcHost ''2024-02-28'') = Inr ''2024-02-29''"
  by code_simp

lemma utc_newDraft_example:
  "dayAfter utcHost (Some 1700000000123) = Inr ''2023-11-15''"
  "beforeT (toISOString utcHost 1700000000123) = ''2023-11-14''"
  "toISOString utcHost 1700000000124 = ''2023-11-14T22:13:20.124Z''"
  by code_simp+

lemma utc_draftId_example:
  "draftId utcHost 1700000000123 ''abc1234'' = ''draft_1700000000123_abc1234''"
  by (simp add: draftId_def utcHost_def utcNumberToString_def digitChar_def)

lemma createDraft_example:
  "createDraft utcHost 1700000000123 1700000000123 ''abc1234'' 1700000000124 initialState =
     Inr createdState"
  by (simp add: createDraft_def newDraft_def utc_newDraft_example utc_draftId_example
      createdState_def createdDraft_def initialState_def)

lemma filteredLogs_filterState: "filteredLogs utcHost filterState = [exampleLog]"
  by (simp add: filteredLogs_def filterState_def initialState_def matchesSearch_def
      matchesDateRange_def matchesType_def stringGreaterEq_def stringLessEq_def
      exampleLog_def earlyLog_def emergencyLog_def)

lemma objectValues_exampleLog:
  "objectValues utcHost exampleLog =
     [''P1'', ''S1'', ''C1'', ''100'', ''5'', ''2024-01-06'', ''2024-01-07'', ''planned'',
      ''oil change'', ''log_1'', ''2024-01-08T09:00:00.000Z'']"
  by (simp add: objectValues_def exampleLog_def utcHost_def utcNumberToString_def
      digitChar_def typeName_def)


section \<open>A session on the UTC host\<close>

lemma updateDraft_draftingState:
  assumes "Draft.id d = i" "draftStartDate fv = None"
  shows "updateDraft rt i fv (draftingState d) =
           Inr (draftingState ((assignDraft fv d)\<lparr> Draft.isDirty := True \<rparr>))"
  using assms
  by (simp add: updateDraft_def Let_def draftingState_def currentDraftHasId_def)

lemma markDraftSaved_draftingState:
  assumes "Draft.id d = i"
  shows "markDraftSaved rt now i None (draftingState d) =
           draftingState (d\<lparr> Draft.isDirty := False, Draft.lastSaved := toISOString rt now \<rparr>)"
  using assms
  by (simp add: markDraftSaved_def Let_def draftingState_def currentDraftHasId_def)

lemma reachable_draftingState: "reachable utcHost (draftingState createdDraft)"
proof -
  have "reachable utcHost createdState"
    by (rule reachable.create [OF reachable.initial createDraft_example])
  then have "reachable utcHost (setSaveStatus saving createdState)"
    by (rule reachable.status)
  then show ?thesis
    by (simp add: setSaveStatus_def draftingState_def createdState_def)
qed

lemma reachable_update:
  assumes "reachable rt (draftingState d)" "draftStartDate fv = None"
  shows "reachable rt (draftingState ((assignDraft fv d)\<lparr> Draft.isDirty := True \<rparr>))"
  using assms(1) updateDraft_draftingState [OF refl assms(2)] by (rule reachable.update)

lemma reachable_filled: "reachable utcHost (draftingState filledDraft)"
proof -
  have "reachable utcHost
     (draftingState ((assignDraft (D_serviceDescription ''oil change'')
        ((assignDraft (D_carId ''C1'')
           ((assignDraft (D_serviceOrder ''S1'')
              ((assignDraft (D_providerId ''P1'') createdDraft)\<lparr> Draft.isDirty := True \<rparr>))
            \<lparr> Draft.isDirty := True \<rparr>))
         \<lparr> Draft.isDirty := True \<rparr>))\<lparr> Draft.isDirty := True \<rparr>))"
    by (intro reachable_update reachable_draftingState) simp_all
  then show ?thesis
    by (simp add: filledDraft_def)
qed

lemma utc_savedAt_example: "toISOString utcHost 1700000001500 = ''2023-11-14T22:13:21.500Z''"
  "toISOString utcHost 1700000002001 = ''2023-11-14T22:13:22.001Z''"
  by code_simp+

lemma reachable_saved: "reachable utcHost (draftingState savedDraft)"
proof -
  have "reachable utcHost
          (markDraftSaved utcHost 1700000001500 (Draft.id filledDraft) None (draftingState filledDraft))"
    using reachable_filled by (rule reachable.markSaved)
  then show ?thesis
    by (simp add: markDraftSaved_draftingState utc_savedAt_example savedDraft_def)
qed

lemma validate_savedDraft: "validateServiceLog utcHost (candidateOfDraft savedDraft) = []"
proof -
  have "utcParse ''2023-11-14'' = Some 1699920000000" "utcParse ''2023-11-15'' = Some 1700006400000"
    by code_simp+
  then show ?thesis
    by (simp add: validateServiceLog_def candidateOfDraft_def savedDraft_def filledDraft_def
        createdDraft_def blank_def falsy_def undefinedOrNegative_def lessThanZero_def
        endBeforeStart_def dateBefore_def utcHost_def trim_def isWhiteSpace_def)
qed

lemma utc_promotedId_example:
  "logId utcHost 1700000002000 ''k3j9x2a'' = ''log_1700000002000_k3j9x2a''"
  by (simp add: logId_def utcHost_def utcNumberToString_def digitChar_def)

lemma promotion_example:
  "createServiceLog utcHost 1700000002000 ''k3j9x2a'' 1700000002001 (draftingState savedDraft) =
     promotedState"
proof -
  have cur: "currentDraft (draftingState savedDraft) = Some savedDraft"
    by (simp add: draftingState_def)
  have "createServiceLog utcHost 1700000002000 ''k3j9x2a'' 1700000002001 (draftingState savedDraft) =
          (draftingState savedDraft)
            \<lparr> serviceLogs := serviceLogs (draftingState savedDraft) @
                 [newLog savedDraft ''log_1700000002000_k3j9x2a'' ''2023-11-14T22:13:22.001Z''],
              drafts := filter (\<lambda>d. Draft.id d \<noteq> Draft.id savedDraft) (drafts (draftingState savedDraft)),
              currentDraft := None, validationErrors := [] \<rparr>"
    by (simp add: createServiceLog_def cur validate_savedDraft Let_def utc_promotedId_example
        utc_savedAt_example)
  also have "\<dots> = promotedState"
    by (simp add: draftingState_def createdState_def initialState_def promotedState_def
        promotedLog_def newLog_def savedDraft_def filledDraft_def createdDraft_def)
  finally show ?thesis .
qed

lemma reachable_promoted: "reachable utcHost promotedState"
  using reachable.promote [OF reachable_saved, of 1700000002000 "''k3j9x2a''" 1700000002001]
  by (simp add: promotion_example)

lemma reachable_nanState: "reachable utcHost nanState"
  using reachable_update [OF reachable_draftingState, of "D_odometer NaN"]
  by (simp add: nanState_def nanDraft_def)

lemma reachable_staleSession: "reachable utcHost staleSessionState"
  unfolding staleSessionState_def
  by (intro reachable.load reachable.edit reachable_promoted reachable.initial)


section \<open>Lemmas on lists and strings\<close>

lemma findIndex_Some:
  "findIndex p xs = Some k \<Longrightarrow> k < length xs \<and> p (xs ! k)"
  by (induction xs arbitrary: k) (auto split: if_splits)

lemma findIndex_None: "findIndex p xs = None \<longleftrightarrow> (\<forall>x \<in> set xs. \<not> p x)"
  by (induction xs) auto

lemma filter_absent_id: "i \<notin> f ` set xs \<Longrightarrow> filter (\<lambda>x. f x \<noteq> i) xs = xs"
  by (induction xs) auto

lemma all_dropWhile_iff: "(\<forall>x \<in> set (dropWhile P s). P x) \<longleftrightarrow> (\<forall>x \<in> set s. P x)"
proof
  assume rest: "\<forall>x \<in> set (dropWhile P s). P x"
  have "dropWhile P s = []"
  proof (rule ccontr)
    assume "dropWhile P s \<noteq> []"
    then have "hd (dropWhile P s) \<in> set (dropWhile P s)" and "\<not> P (hd (dropWhile P s))"
      by (simp_all add: hd_dropWhile)
    with rest show False by blast
  qed
  then show "\<forall>x \<in> set s. P x"
    by (simp add: dropWhile_eq_Nil_conv)
next
  assume "\<forall>x \<in> set s. P x"
  then show "\<forall>x \<in> set (dropWhile P s). P x"
    by (blast dest: set_dropWhileD)
qed

lemma trim_empty_iff: "trim s = [] \<longleftrightarrow> (\<forall>c \<in> set s. isWhiteSpace c)"
  by (simp add: trim_def dropWhile_eq_Nil_conv all_dropWhile_iff)

lemma mem_list_update_other:
  assumes "c \<in> set xs" and "k < length xs" and "c \<noteq> xs ! k"
  shows "c \<in> set (xs[k := y])"
proof -
  from assms(1) obtain j where j: "j < length xs" "xs ! j = c"
    by (auto simp: in_set_conv_nth)
  with assms(3) have "j \<noteq> k" by auto
  with j have "xs[k := y] ! j = c" "j < length (xs[k := y])" by simp_all
  then show ?thesis by (metis nth_mem)
qed

lemma startsWith_iff: "startsWith s t \<longleftrightarrow> (\<exists>q. s = t @ q)"
  by (induction s t rule: startsWith.induct) auto

lemma includesStr_iff: "includesStr s t \<longleftrightarrow> (\<exists>p q. s = p @ t @ q)"
proof (induction s)
  case Nil
  then show ?case by simp
next
  case (Cons x xs)
  show ?case
  proof
    assume "includesStr (x # xs) t"
    then consider "startsWith (x # xs) t" | "includesStr xs t" by auto
    then show "\<exists>p q. x # xs = p @ t @ q"
    proof cases
      case 1
      then obtain q where "x # xs = t @ q" by (auto simp: startsWith_iff)
      then have "x # xs = [] @ t @ q" by simp
      then show ?thesis by blast
    next
      case 2
      with Cons.IH obtain p q where "xs = p @ t @ q" by blast
      then have "x # xs = (x # p) @ t @ q" by simp
      then show ?thesis by blast
    qed
  next
    assume "\<exists>p q. x # xs = p @ t @ q"
    then obtain p q where pq: "x # xs = p @ t @ q" by blast
    show "includesStr (x # xs) t"
    proof (cases p)
      case Nil
      with pq have "startsWith (x # xs) t" by (auto simp: startsWith_iff)
      then show ?thesis by simp
    next
      case (Cons y ys)
      with pq have "xs = ys @ t @ q" by simp
      with Cons.IH have "includesStr xs t" by blast
      then show ?thesis by simp
    qed
  qed
qed

lemma stringLess_total: "\<not> stringLess a b \<longleftrightarrow> a = b \<or> stringLess b a"
proof (induction a b rule: stringLess.induct)
  case (1 a)
  then show ?case by (cases a) auto
next
  case (2 y ys)
  then show ?case by simp
next
  case (3 x xs y ys)
  then show ?case by (auto simp: not_less le_less)
qed


section \<open>Properties of the validation\<close>

text \<open>
  The list of messages is empty exactly when none of the nine checks fires,
  and each message is in the list exactly when its check fires. The messages
  come in the order of the checks, by the definition of
  \<open>validateServiceLog\<close>.
\<close>

lemma validateServiceLog_empty_iff:
  "validateServiceLog rt data = [] \<longleftrightarrow>
     \<not> blank (Candidate.providerId data) \<and> \<not> blank (Candidate.serviceOrder data) \<and>
     \<not> blank (Candidate.carId data) \<and> \<not> undefinedOrNegative (Candidate.odometer data) \<and>
     \<not> undefinedOrNegative (Candidate.engineHours data) \<and> \<not> falsy (Candidate.startDate data) \<and>
     \<not> falsy (Candidate.endDate data) \<and> \<not> blank (Candidate.serviceDescription data) \<and>
     \<not> endBeforeStart rt data"
  by (simp add: validateServiceLog_def)

lemma validateServiceLog_messages:
  "''Provider ID is required'' \<in> set (validateServiceLog rt data) \<longleftrightarrow> blank (Candidate.providerId data)"
  "''Service Order is required'' \<in> set (validateServiceLog rt data) \<longleftrightarrow> blank (Candidate.serviceOrder data)"
  "''Car ID is required'' \<in> set (validateServiceLog rt data) \<longleftrightarrow> blank (Candidate.carId data)"
  "''Valid odometer reading is required'' \<in> set (validateServiceLog rt data) \<longleftrightarrow>
     undefinedOrNegative (Candidate.odometer data)"
  "''Valid engine hours is required'' \<in> set (validateServiceLog rt data) \<longleftrightarrow>
     undefinedOrNegative (Candidate.engineHours data)"
  "''Start date is required'' \<in> set (validateServiceLog rt data) \<longleftrightarrow> falsy (Candidate.startDate data)"
  "''End date is required'' \<in> set (validateServiceLog rt data) \<longleftrightarrow> falsy (Candidate.endDate data)"
  "''Service description is required'' \<in> set (validateServiceLog rt data) \<longleftrightarrow>
     blank (Candidate.serviceDescription data)"
  "''End date must be after start date'' \<in> set (validateServiceLog rt data) \<longleftrightarrow> endBeforeStart rt data"
  by (simp_all add: validateServiceLog_def)

text \<open>
  The check on \<^verbatim>\<open>odometer\<close> and \<^verbatim>\<open>engineHours\<close> fires on an undefined value
  and on a value below zero. It does not fire on \<^verbatim>\<open>NaN\<close>, which is not at least
  zero either.
\<close>

lemma undefinedOrNegative_iff:
  "undefinedOrNegative v \<longleftrightarrow> (\<forall>x. v = Some x \<longrightarrow> \<not> atLeastZero x \<and> x \<noteq> NaN)"
  by (cases v) (auto simp: undefinedOrNegative_def lessThanZero_def atLeastZero_def split: number.splits)

text \<open>
  The checks of the code against the rules of the specification: they agree on
  every candidate whose \<^verbatim>\<open>odometer\<close> and \<^verbatim>\<open>engineHours\<close> are not \<^verbatim>\<open>NaN\<close>, so
  that on these the list of messages is empty exactly when the candidate is
  valid.
\<close>

lemma blank_iff_spec: "blank v \<longleftrightarrow> \<not> specNonEmpty v"
  by (cases v) (simp_all add: blank_def specNonEmpty_def)

lemma falsy_iff_spec: "falsy v \<longleftrightarrow> \<not> specPresent v"
  by (cases v) (simp_all add: falsy_def specPresent_def)

lemma undefinedOrNegative_iff_spec:
  "v \<noteq> Some NaN \<Longrightarrow> undefinedOrNegative v \<longleftrightarrow> \<not> specNonNegative v"
  by (cases v)
    (auto simp: undefinedOrNegative_def specNonNegative_def lessThanZero_def atLeastZero_def
      split: number.splits)

lemma endBeforeStart_iff_spec:
  "endBeforeStart rt data \<longleftrightarrow>
     (case (Candidate.startDate data, Candidate.endDate data) of
        (Some s, Some e) \<Rightarrow> specPresent (Some s) \<and> specPresent (Some e) \<and> dateBefore rt e s
      | _ \<Rightarrow> False)"
  by (simp add: endBeforeStart_def specPresent_def split: option.splits)

lemma validateServiceLog_empty_iff_specValid:
  assumes "Candidate.odometer data \<noteq> Some NaN" and "Candidate.engineHours data \<noteq> Some NaN"
  shows "validateServiceLog rt data = [] \<longleftrightarrow> specValid rt data"
  using assms
  by (simp add: validateServiceLog_empty_iff specValid_def blank_iff_spec falsy_iff_spec
      undefinedOrNegative_iff_spec endBeforeStart_iff_spec)

text \<open>
  C2, at the input where the code leaves the claim: a candidate with every
  field valid but \<^verbatim>\<open>odometer: NaN\<close>. The rule "odometer defined and at least 0"
  is violated, so the candidate is not valid, and \<^verbatim>\<open>validateServiceLog\<close> returns
  the empty list, because \<^verbatim>\<open>NaN === undefined\<close> and \<^verbatim>\<open>NaN < 0\<close> are both false.
\<close>

theorem validateServiceLog_accepts_NaN:
  "validateServiceLog utcHost (candidateOfDraft (exampleDraft\<lparr> Draft.odometer := NaN \<rparr>)) = [] \<and>
   \<not> specValid utcHost (candidateOfDraft (exampleDraft\<lparr> Draft.odometer := NaN \<rparr>))"
  by (simp add: validateServiceLog_def candidateOfDraft_def exampleDraft_def blank_def falsy_def
      undefinedOrNegative_def lessThanZero_def atLeastZero_def endBeforeStart_def dateBefore_def
      utcHost_def utcParse_examples trim_def isWhiteSpace_def specValid_def specNonNegative_def)


section \<open>Promotion of the current draft\<close>

text \<open>
  C1, as amended. When \<^verbatim>\<open>createServiceLog\<close> runs on a state whose current
  draft is \<open>d\<close>, it validates \<open>d\<close>. If the list of violations is not empty,
  the list becomes the validation errors and nothing else changes: the records
  and the drafts are as before. If the list is empty, the records gain exactly
  one entry, at the end: it has the nine shared fields of the draft, the
  generated id and \<^verbatim>\<open>createdAt\<close>, and it also keeps the \<^verbatim>\<open>lastSaved\<close> and
  \<^verbatim>\<open>isDirty\<close> of the draft; every draft with the id of \<open>d\<close> leaves the
  drafts, so \<open>d\<close> is no longer among them; the current-draft pointer becomes
  \<^verbatim>\<open>null\<close>; and the validation errors are cleared.
\<close>

theorem createServiceLog_promotion_contract:
  assumes "currentDraft state = Some d"
  shows "(validateServiceLog rt (candidateOfDraft d) \<noteq> [] \<longrightarrow>
            createServiceLog rt now random createdNow state =
              state\<lparr> validationErrors := validateServiceLog rt (candidateOfDraft d) \<rparr> \<and>
            validationErrors (createServiceLog rt now random createdNow state) =
              validateServiceLog rt (candidateOfDraft d) \<and>
            serviceLogs (createServiceLog rt now random createdNow state) = serviceLogs state \<and>
            drafts (createServiceLog rt now random createdNow state) = drafts state) \<and>
         (validateServiceLog rt (candidateOfDraft d) = [] \<longrightarrow>
            serviceLogs (createServiceLog rt now random createdNow state) =
              serviceLogs state @
              [\<lparr> ServiceLog.id = logId rt now random,
                 providerId = Draft.providerId d,
                 serviceOrder = Draft.serviceOrder d,
                 carId = Draft.carId d,
                 odometer = Draft.odometer d,
                 engineHours = Draft.engineHours d,
                 startDate = Draft.startDate d,
                 endDate = Draft.endDate d,
                 type = Draft.type d,
                 serviceDescription = Draft.serviceDescription d,
                 createdAt = toISOString rt createdNow,
                 lastSaved = Some (Draft.lastSaved d),
                 isDirty = Some (Draft.isDirty d) \<rparr>] \<and>
            drafts (createServiceLog rt now random createdNow state) =
              filter (\<lambda>x. Draft.id x \<noteq> Draft.id d) (drafts state) \<and>
            d \<notin> set (drafts (createServiceLog rt now random createdNow state)) \<and>
            currentDraft (createServiceLog rt now random createdNow state) = None \<and>
            validationErrors (createServiceLog rt now random createdNow state) = [])"
  using assms by (simp add: createServiceLog_def Let_def newLog_def)

text \<open>
  The contract at the example state: the draft \<open>exampleDraft\<close> is valid and is
  promoted.
\<close>

theorem createServiceLog_promotion_contract_witness:
  "currentDraft exampleState = Some exampleDraft \<and>
   validateServiceLog utcHost (candidateOfDraft exampleDraft) = [] \<and>
   serviceLogs (createServiceLog utcHost 1706700000000 ''k3j9x2a'' 1706700000001 exampleState) =
     [\<lparr> ServiceLog.id = ''log_1706700000000_k3j9x2a'',
        providerId = ''P1'', serviceOrder = ''S1'', carId = ''C1'',
        odometer = Finite 100, engineHours = Finite 5,
        startDate = ''2024-01-31'', endDate = ''2024-03-15'',
        type = planned, serviceDescription = ''oil change'',
        createdAt = ''2024-01-31T11:20:00.001Z'',
        lastSaved = Some ''2024-01-31T08:00:00.000Z'', isDirty = Some False \<rparr>] \<and>
   drafts (createServiceLog utcHost 1706700000000 ''k3j9x2a'' 1706700000001 exampleState) = [] \<and>
   currentDraft (createServiceLog utcHost 1706700000000 ''k3j9x2a'' 1706700000001 exampleState) = None \<and>
   validationErrors (createServiceLog utcHost 1706700000000 ''k3j9x2a'' 1706700000001 exampleState) = []"
proof -
  have cur: "currentDraft exampleState = Some exampleDraft"
    by (simp add: exampleState_def)
  have st: "serviceLogs exampleState = []" "drafts exampleState = [exampleDraft]"
    by (simp_all add: exampleState_def initialState_def)
  show ?thesis
    using createServiceLog_promotion_contract
            [OF cur, of utcHost 1706700000000 "''k3j9x2a''" 1706700000001]
      validate_exampleDraft cur
    by (simp add: st utc_toISOString_example utc_logId_example exampleDraft_def)
qed

text \<open>
  C1 as stated fails at the same input: the entry that the records gain is not
  the record made of the shared fields, the id and \<^verbatim>\<open>createdAt\<close> alone, since
  it carries \<^verbatim>\<open>lastSaved\<close> and \<^verbatim>\<open>isDirty\<close> too.
\<close>

theorem createServiceLog_entry_counterexample:
  "currentDraft exampleState = Some exampleDraft \<and>
   validateServiceLog utcHost (candidateOfDraft exampleDraft) = [] \<and>
   serviceLogs (createServiceLog utcHost 1706700000000 ''k3j9x2a'' 1706700000001 exampleState) \<noteq>
     serviceLogs exampleState @
       [specRecord exampleDraft (logId utcHost 1706700000000 ''k3j9x2a'')
          (toISOString utcHost 1706700000001)]"
  using validate_exampleDraft
  by (simp add: createServiceLog_def exampleState_def initialState_def newLog_def specRecord_def)

text \<open>
  C9. With no current draft, \<^verbatim>\<open>createServiceLog\<close> sets the validation errors
  to the single message \<^verbatim>\<open>No draft selected\<close> and leaves every other field of
  the state as it is.
\<close>

theorem createServiceLog_without_draft:
  assumes "currentDraft state = None"
  shows "validationErrors (createServiceLog rt now random createdNow state) = [''No draft selected''] \<and>
         serviceLogs (createServiceLog rt now random createdNow state) = serviceLogs state \<and>
         drafts (createServiceLog rt now random createdNow state) = drafts state \<and>
         currentDraft (createServiceLog rt now random createdNow state) = currentDraft state \<and>
         searchTerm (createServiceLog rt now random createdNow state) = searchTerm state \<and>
         filters (createServiceLog rt now random createdNow state) = filters state \<and>
         editingLog (createServiceLog rt now random createdNow state) = editingLog state \<and>
         saveStatus (createServiceLog rt now random createdNow state) = saveStatus state \<and>
         showFilters (createServiceLog rt now random createdNow state) = showFilters state"
  using assms by (simp add: createServiceLog_def)

text \<open>The same at the initial state, which has no current draft.\<close>

theorem createServiceLog_without_draft_witness:
  "currentDraft initialState = None \<and>
   validationErrors (createServiceLog utcHost 1706700000000 ''k3j9x2a'' 1706700000001 initialState) =
     [''No draft selected''] \<and>
   serviceLogs (createServiceLog utcHost 1706700000000 ''k3j9x2a'' 1706700000001 initialState) = [] \<and>
   drafts (createServiceLog utcHost 1706700000000 ''k3j9x2a'' 1706700000001 initialState) = []"
  using createServiceLog_without_draft [of initialState utcHost 1706700000000 "''k3j9x2a''" 1706700000001]
  by (simp add: initialState_def)


section \<open>Commit of the edit session\<close>

text \<open>
  C3. When \<^verbatim>\<open>saveEditingLog\<close> runs on a state with an open edit session on
  the working copy \<open>e\<close>, it validates \<open>e\<close>. If the list of violations is
  not empty, it is stored as the validation errors and nothing else changes:
  the working copy stays open and the records are as before. If the list is
  empty, every record that shares the id of \<open>e\<close> is replaced by \<open>e\<close> where
  it stands (the array keeps its length and the other records their places),
  the session is closed, the validation errors are cleared and the save status
  is \<^verbatim>\<open>idle\<close>.
\<close>

theorem saveEditingLog_commit_contract:
  assumes "editingLog state = Some e"
  shows "(validateServiceLog rt (candidateOfLog e) \<noteq> [] \<longrightarrow>
            saveEditingLog rt state = state\<lparr> validationErrors := validateServiceLog rt (candidateOfLog e) \<rparr> \<and>
            validationErrors (saveEditingLog rt state) = validateServiceLog rt (candidateOfLog e) \<and>
            editingLog (saveEditingLog rt state) = Some e \<and>
            serviceLogs (saveEditingLog rt state) = serviceLogs state) \<and>
         (validateServiceLog rt (candidateOfLog e) = [] \<longrightarrow>
            serviceLogs (saveEditingLog rt state) =
              map (\<lambda>l. if ServiceLog.id l = ServiceLog.id e then e else l) (serviceLogs state) \<and>
            length (serviceLogs (saveEditingLog rt state)) = length (serviceLogs state) \<and>
            (\<forall>k < length (serviceLogs state).
               serviceLogs (saveEditingLog rt state) ! k =
                 (if ServiceLog.id (serviceLogs state ! k) = ServiceLog.id e then e
                  else serviceLogs state ! k)) \<and>
            editingLog (saveEditingLog rt state) = None \<and>
            validationErrors (saveEditingLog rt state) = [] \<and>
            saveStatus (saveEditingLog rt state) = idle)"
  using assms by (simp add: saveEditingLog_def Let_def)

text \<open>
  The contract at the example state: a session on the first of three records,
  with a valid working copy.
\<close>

theorem saveEditingLog_commit_contract_witness:
  "editingLog editingState = Some (exampleLog\<lparr> ServiceLog.odometer := Finite 120 \<rparr>) \<and>
   validateServiceLog utcHost (candidateOfLog (exampleLog\<lparr> ServiceLog.odometer := Finite 120 \<rparr>)) = [] \<and>
   serviceLogs (saveEditingLog utcHost editingState) =
     [exampleLog\<lparr> ServiceLog.odometer := Finite 120 \<rparr>, earlyLog, emergencyLog] \<and>
   editingLog (saveEditingLog utcHost editingState) = None \<and>
   validationErrors (saveEditingLog utcHost editingState) = [] \<and>
   saveStatus (saveEditingLog utcHost editingState) = idle"
proof -
  have open_session: "editingLog editingState = Some (exampleLog\<lparr> ServiceLog.odometer := Finite 120 \<rparr>)"
    by (simp add: editingState_def)
  show ?thesis
    using saveEditingLog_commit_contract [OF open_session, of utcHost] validate_exampleLog open_session
    by (simp add: editingState_def exampleLog_def earlyLog_def emergencyLog_def)
qed

text \<open>
  The scenario of the specification: the working copy gets the odometer
  \<^verbatim>\<open>-5\<close>, and the commit is rejected with the one message for the odometer; the
  records are unchanged and the session stays open.
\<close>

lemma saveEditingLog_rejects_negative_odometer:
  "saveEditingLog utcHost
     (editingState\<lparr> editingLog := Some (exampleLog\<lparr> ServiceLog.odometer := Finite (- 5) \<rparr>) \<rparr>) =
   editingState\<lparr> editingLog := Some (exampleLog\<lparr> ServiceLog.odometer := Finite (- 5) \<rparr>),
                 validationErrors := [''Valid odometer reading is required''] \<rparr>"
  by (simp add: saveEditingLog_def validateServiceLog_def candidateOfLog_def exampleLog_def
      blank_def falsy_def undefinedOrNegative_def lessThanZero_def endBeforeStart_def
      dateBefore_def utcHost_def utcParse_examples trim_def isWhiteSpace_def editingState_def)

text \<open>
  C10. A commit of the edit session that passes validation also sets
  \<^verbatim>\<open>showFilters\<close> to false. It leaves the drafts, the current draft, the search
  term and the filters as they are, and every record whose id is not the id of
  the working copy stays in its place unchanged.
\<close>

theorem saveEditingLog_commit_frame:
  assumes "editingLog state = Some e"
    and "validateServiceLog rt (candidateOfLog e) = []"
  shows "showFilters (saveEditingLog rt state) = False \<and>
         drafts (saveEditingLog rt state) = drafts state \<and>
         currentDraft (saveEditingLog rt state) = currentDraft state \<and>
         searchTerm (saveEditingLog rt state) = searchTerm state \<and>
         filters (saveEditingLog rt state) = filters state \<and>
         length (serviceLogs (saveEditingLog rt state)) = length (serviceLogs state) \<and>
         (\<forall>k < length (serviceLogs state).
            ServiceLog.id (serviceLogs state ! k) \<noteq> ServiceLog.id e \<longrightarrow>
            serviceLogs (saveEditingLog rt state) ! k = serviceLogs state ! k)"
  using assms by (simp add: saveEditingLog_def Let_def)

text \<open>
  The same at the example state, where the filter panel is shown before the
  commit.
\<close>

theorem saveEditingLog_commit_frame_witness:
  "editingLog editingState = Some (exampleLog\<lparr> ServiceLog.odometer := Finite 120 \<rparr>) \<and>
   validateServiceLog utcHost (candidateOfLog (exampleLog\<lparr> ServiceLog.odometer := Finite 120 \<rparr>)) = [] \<and>
   showFilters editingState = True \<and>
   showFilters (saveEditingLog utcHost editingState) = False \<and>
   drafts (saveEditingLog utcHost editingState) = drafts editingState \<and>
   serviceLogs (saveEditingLog utcHost editingState) ! 1 = earlyLog \<and>
   serviceLogs (saveEditingLog utcHost editingState) ! 2 = emergencyLog"
proof -
  have open_session: "editingLog editingState = Some (exampleLog\<lparr> ServiceLog.odometer := Finite 120 \<rparr>)"
    by (simp add: editingState_def)
  have others: "ServiceLog.id (serviceLogs editingState ! 1) \<noteq> ''log_1''"
    "ServiceLog.id (serviceLogs editingState ! 2) \<noteq> ''log_1''"
    "(1::nat) < length (serviceLogs editingState)" "(2::nat) < length (serviceLogs editingState)"
    "serviceLogs editingState ! 1 = earlyLog" "serviceLogs editingState ! 2 = emergencyLog"
    "showFilters editingState = True"
    by (simp_all add: editingState_def earlyLog_def emergencyLog_def exampleLog_def)
  show ?thesis
    using saveEditingLog_commit_frame [OF open_session validate_exampleLog] open_session
      validate_exampleLog others
    by (simp add: exampleLog_def)
qed


section \<open>The calendar of the hosts\<close>

text \<open>
  The day number of a date and the date of a day number are inverse to each
  other on the dates of the calendar, and the day number of the next calendar
  day is the next day number. With these, the three statements that advance a
  date by one day are followed through on a host with a time zone, for a day
  over which its clock is steady.
\<close>

lemma div_between:
  fixes y k :: int
  assumes "0 < k"
  shows "k * (y div k) \<le> y \<and> y < k * (y div k) + k"
proof -
  have "k * (y div k) + y mod k = y" by simp
  moreover have "0 \<le> y mod k" "y mod k < k" using assms by simp_all
  ultimately show ?thesis by linarith
qed

lemma div_unique_int:
  fixes n k q :: int
  assumes "k * q \<le> n" "n < k * q + k" "0 < k"
  shows "n div k = q"
proof (rule int_div_pos_eq)
  show "n = k * q + (n - k * q)" by simp
  show "0 \<le> n - k * q" using assms by simp
  show "n - k * q < k" using assms by simp
qed

lemma div_Suc_int:
  fixes y k :: int
  assumes "1 < k"
  shows "(y + 1) div k = y div k + (if (y + 1) mod k = 0 then 1 else 0)"
proof -
  define q where "q = y div k"
  define r where "r = y mod k"
  have eq: "y = k * q + r" by (simp add: q_def r_def)
  have r: "0 \<le> r" "r < k" using assms by (simp_all add: r_def)
  show ?thesis
  proof (cases "r + 1 = k")
    case True
    have "y + 1 = k * q + k" using eq True by simp
    also have "\<dots> = k * (q + 1)" by (simp add: algebra_simps)
    finally have sum: "y + 1 = k * (q + 1)" .
    have "(y + 1) div k = q + 1" using assms by (simp add: sum)
    moreover have "(y + 1) mod k = 0" by (simp add: sum)
    ultimately show ?thesis by (simp add: q_def)
  next
    case False
    then have lt: "r + 1 < k" using r by simp
    have sum: "y + 1 = k * q + (r + 1)" using eq by simp
    have nonneg: "0 \<le> r + 1" using r by simp
    have "(y + 1) div k = q"
      using sum nonneg lt by (rule int_div_pos_eq)
    moreover have "(y + 1) mod k = r + 1"
      using sum nonneg lt by (rule int_mod_pos_eq)
    ultimately show ?thesis using r by (simp add: q_def)
  qed
qed

lemma mod_400_100_4:
  fixes y :: int
  shows "y mod 400 = 0 \<Longrightarrow> y mod 100 = 0" and "y mod 100 = 0 \<Longrightarrow> y mod 4 = 0"
proof -
  show "y mod 100 = 0" if "y mod 400 = 0"
  proof -
    have "400 dvd y" using that by (simp add: dvd_eq_mod_eq_0)
    then have "100 dvd y" by (rule dvd_trans [rotated]) simp
    then show ?thesis by (simp add: dvd_eq_mod_eq_0)
  qed
  show "y mod 4 = 0" if "y mod 100 = 0"
  proof -
    have "100 dvd y" using that by (simp add: dvd_eq_mod_eq_0)
    then have "4 dvd y" by (rule dvd_trans [rotated]) simp
    then show ?thesis by (simp add: dvd_eq_mod_eq_0)
  qed
qed

lemma daysBeforeYear_Suc:
  "daysBeforeYear (y + 1) = daysBeforeYear y + (if isLeapYear (y + 1) then 366 else 365)"
proof -
  define a where "a = (y + 1) mod 4"
  define b where "b = (y + 1) mod 100"
  define c where "c = (y + 1) mod 400"
  define p where "p = y div 4"
  define q where "q = y div 100"
  define r where "r = y div 400"
  have d: "(y + 1) div 4 = p + (if a = 0 then 1 else 0)"
    "(y + 1) div 100 = q + (if b = 0 then 1 else 0)"
    "(y + 1) div 400 = r + (if c = 0 then 1 else 0)"
    by (simp_all add: div_Suc_int a_def b_def c_def p_def q_def r_def)
  have m: "c = 0 \<Longrightarrow> b = 0" "b = 0 \<Longrightarrow> a = 0"
    using mod_400_100_4 [of "y + 1"] by (simp_all add: a_def b_def c_def)
  have leap: "isLeapYear (y + 1) \<longleftrightarrow> a = 0 \<and> (b \<noteq> 0 \<or> c = 0)"
    by (simp add: isLeapYear_def a_def b_def c_def)
  have "365 * (y + 1) + (p + (if a = 0 then 1 else 0)) - (q + (if b = 0 then 1 else 0)) +
          (r + (if c = 0 then 1 else 0)) =
        365 * y + p - q + r + (if a = 0 \<and> (b \<noteq> 0 \<or> c = 0) then 366 else 365)"
    using m by (cases "a = 0"; cases "b = 0"; cases "c = 0"; simp)
  then show ?thesis
    unfolding daysBeforeYear_def d leap p_def [symmetric] q_def [symmetric] r_def [symmetric] .
qed

lemma daysBeforeYear_bounds:
  "146097 * y - 699 \<le> 400 * daysBeforeYear y \<and> 400 * daysBeforeYear y \<le> 146097 * y + 396"
  using div_between [of 4 y] div_between [of 100 y] div_between [of 400 y]
  by (simp add: daysBeforeYear_def algebra_simps)

lemma yearOfDays_unique:
  assumes lower: "daysBeforeYear y \<le> n" and upper: "n < daysBeforeYear (y + 1)"
  shows "yearOfDays n = y"
proof -
  define y0 where "y0 = (400 * n) div 146097"
  have q: "146097 * y0 \<le> 400 * n" "400 * n < 146097 * y0 + 146097"
    using div_between [of 146097 "400 * n"] by (simp_all add: y0_def)
  have b1: "146097 * y - 699 \<le> 400 * daysBeforeYear y"
    using daysBeforeYear_bounds [of y] by simp
  have b2: "400 * daysBeforeYear (y + 1) \<le> 146097 * y + 146097 + 396"
    using daysBeforeYear_bounds [of "y + 1"] by (simp add: algebra_simps)
  have "y0 \<le> y + 1" using q b2 upper by linarith
  moreover have "y - 1 \<le> y0" using q b1 lower by linarith
  ultimately consider "y0 = y - 1" | "y0 = y" | "y0 = y + 1" by linarith
  then show ?thesis
  proof cases
    case 1
    have "daysBeforeYear y0 \<le> daysBeforeYear (y0 + 1)"
      by (simp add: daysBeforeYear_Suc)
    then show ?thesis
      using 1 lower upper by (simp add: yearOfDays_def y0_def [symmetric] Let_def)
  next
    case 2
    then show ?thesis
      using lower upper by (simp add: yearOfDays_def y0_def [symmetric] Let_def)
  next
    case 3
    then show ?thesis
      using lower upper by (simp add: yearOfDays_def y0_def [symmetric] Let_def)
  qed
qed

lemma monthStart_values:
  "monthStart 0 = 0" "monthStart 1 = 31" "monthStart 2 = 61" "monthStart 3 = 92"
  "monthStart 4 = 122" "monthStart 5 = 153" "monthStart 6 = 184" "monthStart 7 = 214"
  "monthStart 8 = 245" "monthStart 9 = 275" "monthStart 10 = 306" "monthStart 11 = 337"
  by (simp_all add: monthStart_def)

lemma month_cases:
  fixes mp :: int
  assumes "0 \<le> mp" "mp \<le> 11"
  obtains "mp = 0" | "mp = 1" | "mp = 2" | "mp = 3" | "mp = 4" | "mp = 5" | "mp = 6"
    | "mp = 7" | "mp = 8" | "mp = 9" | "mp = 10" | "mp = 11"
proof -
  have "mp = 0 \<or> mp = 1 \<or> mp = 2 \<or> mp = 3 \<or> mp = 4 \<or> mp = 5 \<or> mp = 6 \<or>
        mp = 7 \<or> mp = 8 \<or> mp = 9 \<or> mp = 10 \<or> mp = 11"
    using assms by presburger
  then show ?thesis using that by blast
qed

lemma monthOfDay:
  fixes mp d :: int
  assumes "0 \<le> mp" "mp \<le> 11" "1 \<le> d"
    and "d \<le> (if mp = 11 then 29 else if mp = 1 \<or> mp = 3 \<or> mp = 6 \<or> mp = 8 then 30 else 31)"
  shows "(5 * (monthStart mp + d - 1) + 2) div 153 = mp"
  using assms(1,2)
proof (cases rule: month_cases)
qed (use assms(3,4) in \<open>simp_all add: monthStart_values div_unique_int\<close>)


lemma monthStart_nonneg: "0 \<le> mp \<Longrightarrow> 0 \<le> monthStart mp"
  by (simp add: monthStart_def pos_imp_zdiv_nonneg_iff)

lemma civil_of_days:
  assumes "validDate y m d"
  shows "civilFromDays (daysFromCivil y m d) = (y, m, d)"
proof -
  define Y where "Y = (if m \<le> 2 then y - 1 else y)"
  define mp where "mp = (if m > 2 then m - 3 else m + 9)"
  define doy where "doy = monthStart mp + d - 1"
  from assms have m: "1 \<le> m" "m \<le> 12" and d: "1 \<le> d" "d \<le> daysInMonth y m"
    by (simp_all add: validDate_def)
  have mp: "0 \<le> mp" "mp \<le> 11" using m by (simp_all add: mp_def)
  have len: "d \<le> (if mp = 11 then 29 else if mp = 1 \<or> mp = 3 \<or> mp = 6 \<or> mp = 8 then 30 else 31)"
    using d(2) m by (simp add: mp_def daysInMonth_def split: if_splits)
  have month: "(5 * doy + 2) div 153 = mp"
    unfolding doy_def using mp d(1) len by (rule monthOfDay)
  have doy0: "0 \<le> doy"
    using monthStart_nonneg [OF mp(1)] d(1) by (simp add: doy_def)
  have doy1: "doy < (if isLeapYear (Y + 1) then 366 else 365)"
    using mp
  proof (cases rule: month_cases)
    case 12
    then have "m = 2" using m by (simp add: mp_def split: if_splits)
    then show ?thesis
      using d(2) 12 by (cases "isLeapYear y") (simp_all add: doy_def Y_def monthStart_values daysInMonth_def)
  qed (use len in \<open>simp_all add: doy_def monthStart_values\<close>)
  have year: "yearOfDays (daysBeforeYear Y + doy) = Y"
  proof (rule yearOfDays_unique)
    show "daysBeforeYear Y \<le> daysBeforeYear Y + doy" using doy0 by simp
    show "daysBeforeYear Y + doy < daysBeforeYear (Y + 1)"
      using doy1 by (simp add: daysBeforeYear_Suc)
  qed
  have n: "daysFromCivil y m d + 719468 = daysBeforeYear Y + doy"
    by (simp add: daysFromCivil_def Y_def mp_def doy_def Let_def)
  have mback: "(if mp < 10 then mp + 3 else mp - 9) = m"
    using m by (simp add: mp_def)
  have yr: "(if m \<le> 2 then Y + 1 else Y) = y"
    by (simp add: Y_def)
  have day: "doy - monthStart mp + 1 = d"
    by (simp add: doy_def)
  have "civilFromDays (daysFromCivil y m d) =
          (if (if mp < 10 then mp + 3 else mp - 9) \<le> 2 then Y + 1 else Y,
           if mp < 10 then mp + 3 else mp - 9, doy - monthStart mp + 1)"
    by (simp add: civilFromDays_def Let_def n year month)
  then show ?thesis
    by (simp only: mback yr day)
qed

lemma daysFromCivil_day: "daysFromCivil y m (d + k) = daysFromCivil y m d + k"
  by (simp add: daysFromCivil_def Let_def)

lemma daysInMonth_bounds: "28 \<le> daysInMonth y m" "daysInMonth y m \<le> 31"
  by (simp_all add: daysInMonth_def)

lemma next_day:
  assumes "validDate y m d" and "nextCalendarDay (y, m, d) = (y', m', d')"
  shows "validDate y' m' d' \<and> daysFromCivil y' m' d' = daysFromCivil y m d + 1"
proof -
  from assms have m: "1 \<le> m" "m \<le> 12" and d: "1 \<le> d" "d \<le> daysInMonth y m"
    by (simp_all add: validDate_def)
  show ?thesis
  proof (cases "d < daysInMonth y m")
    case True
    then have "y' = y" "m' = m" "d' = d + 1" using assms(2) by (simp_all add: nextCalendarDay_def)
    then show ?thesis
      using m d True by (simp add: validDate_def daysFromCivil_day)
  next
    case False
    then have last: "d = daysInMonth y m" using d by simp
    have "0 \<le> m - 1" "m - 1 \<le> 11" using m by simp_all
    then show ?thesis
    proof (cases rule: month_cases)
      case 2
      then have m2: "m = 2" by simp
      then have nxt: "y' = y" "m' = 3" "d' = 1"
        using assms(2) last by (simp_all add: nextCalendarDay_def)
      have "daysBeforeYear (y - 1 + 1) = daysBeforeYear (y - 1) + (if isLeapYear (y - 1 + 1) then 366 else 365)"
        by (rule daysBeforeYear_Suc)
      then show ?thesis
        using last by (simp add: nxt m2 validDate_def daysFromCivil_def daysInMonth_def monthStart_values)
    next
      case 12
      then have m12: "m = 12" by simp
      then have nxt: "y' = y + 1" "m' = 1" "d' = 1"
        using assms(2) last by (simp_all add: nextCalendarDay_def)
      show ?thesis
        using last by (simp add: nxt m12 validDate_def daysFromCivil_def daysInMonth_def monthStart_values)
    qed (use assms(2) last in \<open>simp_all add: nextCalendarDay_def validDate_def daysFromCivil_def daysInMonth_def monthStart_values\<close>)
  qed
qed

lemma civil_of_next_day:
  assumes "validDate y m d"
  shows "civilFromDays (daysFromCivil y m d + 1) = nextCalendarDay (y, m, d)"
proof -
  obtain y' m' d' where nxt: "nextCalendarDay (y, m, d) = (y', m', d')"
    by (cases "nextCalendarDay (y, m, d)")
  from next_day [OF assms nxt] civil_of_days [of y' m' d'] show ?thesis
    by (simp add: nxt)
qed


lemma digit_cases:
  fixes k :: nat
  assumes "k < 10"
  obtains "k = 0" | "k = 1" | "k = 2" | "k = 3" | "k = 4" | "k = 5" | "k = 6" | "k = 7"
    | "k = 8" | "k = 9"
proof -
  have "k = 0 \<or> k = 1 \<or> k = 2 \<or> k = 3 \<or> k = 4 \<or> k = 5 \<or> k = 6 \<or> k = 7 \<or> k = 8 \<or> k = 9"
    using assms by presburger
  then show ?thesis using that by blast
qed

lemma digitChar_props:
  assumes "k < 10"
  shows "isDigit (digitChar k)" and "int (of_char (digitChar k)) - 48 = int k"
    and "digitChar k \<noteq> CHR ''T''"
  using assms by (cases rule: digit_cases; simp add: digitChar_def isDigit_def)+

lemma last_digit: "nat (x mod 10) < 10" for x :: int
  by simp

lemma showDigits_length: "length (showDigits n x) = n"
  by (induction n arbitrary: x) simp_all

lemma showDigits_isDigit: "list_all isDigit (showDigits n x)"
  by (induction n arbitrary: x) (simp_all add: digitChar_props(1) [OF last_digit])

lemma showDigits_no_T: "CHR ''T'' \<notin> set (showDigits n x)"
  by (induction n arbitrary: x) (simp_all add: digitChar_props(3) [OF last_digit, symmetric])

lemma readNat_snoc: "readNat (s @ [c]) = 10 * readNat s + (int (of_char c) - 48)"
  by (simp add: readNat_def)

lemma readNat_showDigits:
  "0 \<le> x \<Longrightarrow> x < 10 ^ n \<Longrightarrow> readNat (showDigits n x) = x"
proof (induction n arbitrary: x)
  case 0
  then show ?case by (simp add: readNat_def)
next
  case (Suc n)
  define q where "q = x div 10"
  define p :: int where "p = 10 ^ n"
  have "10 * q \<le> x" using div_between [of 10 x] by (simp add: q_def)
  moreover have "x < 10 * p" using Suc.prems(2) by (simp add: p_def)
  ultimately have "q < p" by linarith
  then have small: "x div 10 < 10 ^ n" by (simp add: q_def p_def)
  have "0 \<le> x div 10" using Suc.prems(1) by (simp add: pos_imp_zdiv_nonneg_iff)
  from this small have "readNat (showDigits n (x div 10)) = x div 10" by (rule Suc.IH)
  then show ?case
    by (simp add: readNat_snoc digitChar_props(2) [OF last_digit])
qed


lemma showDigits_zero: "showDigits 2 0 = ''00''" "showDigits 3 0 = ''000''"
  by code_simp+

lemma beforeT_isoDate: "beforeT (isoDate (y, m, d) @ ''T'' @ rest) = isoDate (y, m, d)"
proof -
  have "\<forall>c \<in> set (isoDate (y, m, d)). c \<noteq> CHR ''T''"
    using showDigits_no_T by (auto simp: isoDate_def)
  then show ?thesis
    by (simp add: beforeT_def takeWhile_append2 del: takeWhile_append)
qed

lemma parse_fields:
  assumes "length a = 4" "length b = 2" "length c = 2"
  shows "length (a @ ''-'' @ b @ ''-'' @ c) = 10"
    and "(a @ ''-'' @ b @ ''-'' @ c) ! 4 = CHR ''-''"
    and "(a @ ''-'' @ b @ ''-'' @ c) ! 7 = CHR ''-''"
    and "take 4 (a @ ''-'' @ b @ ''-'' @ c) = a"
    and "take 2 (drop 5 (a @ ''-'' @ b @ ''-'' @ c)) = b"
    and "drop 8 (a @ ''-'' @ b @ ''-'' @ c) = c"
  using assms by (simp_all add: nth_append)

lemma utcParse_isoDate:
  assumes "validDate y m d" "0 \<le> y" "y \<le> 9999"
  shows "utcParse (isoDate (y, m, d)) = Some (daysFromCivil y m d * msPerDay)"
proof -
  from assms(1) have m: "1 \<le> m" "m \<le> 12" and d: "1 \<le> d" "d \<le> 31"
    using daysInMonth_bounds(2) [of y m] by (simp_all add: validDate_def)
  have ry: "readNat (showDigits 4 y) = y" using assms(2,3) by (simp add: readNat_showDigits)
  have rm: "readNat (showDigits 2 m) = m" using m by (simp add: readNat_showDigits)
  have rd: "readNat (showDigits 2 d) = d" using d by (simp add: readNat_showDigits)
  note f = parse_fields [of "showDigits 4 y" "showDigits 2 m" "showDigits 2 d",
      OF showDigits_length showDigits_length showDigits_length]
  show ?thesis
    unfolding utcParse_def isoDate_def prod.case f
    using m d by (simp add: ry rm rd showDigits_isDigit Let_def)
qed

lemma daysFromCivil_range:
  assumes "validDate y m d" "0 \<le> y" "y \<le> 9999"
  shows "- 1000000 \<le> daysFromCivil y m d" "daysFromCivil y m d \<le> 4000000"
proof -
  define Y where "Y = (if m \<le> 2 then y - 1 else y)"
  define mp where "mp = (if m > 2 then m - 3 else m + 9)"
  from assms have m: "1 \<le> m" "m \<le> 12" and d: "1 \<le> d" "d \<le> 31"
    using daysInMonth_bounds(2) [of y m] by (simp_all add: validDate_def)
  have mp: "0 \<le> mp" "mp \<le> 11" using m by (simp_all add: mp_def)
  have Y: "- 1 \<le> Y" "Y \<le> 9999" using assms(2,3) by (simp_all add: Y_def)
  have s: "0 \<le> monthStart mp" "monthStart mp \<le> 337"
    using mp by (cases rule: month_cases; simp add: monthStart_values)+
  have eq: "daysFromCivil y m d = daysBeforeYear Y + monthStart mp + d - 1 - 719468"
    by (simp add: daysFromCivil_def Y_def mp_def monthStart_def Let_def)
  show "- 1000000 \<le> daysFromCivil y m d" "daysFromCivil y m d \<le> 4000000"
    using daysBeforeYear_bounds [of Y] Y s d unfolding eq by linarith+
qed

lemma previous_day:
  assumes "validDate y m d" and "previousCalendarDay (y, m, d) = (y', m', d')"
  shows "validDate y' m' d' \<and> daysFromCivil y' m' d' = daysFromCivil y m d - 1"
proof -
  from assms have m: "1 \<le> m" "m \<le> 12" and d: "1 \<le> d" "d \<le> daysInMonth y m"
    by (simp_all add: validDate_def)
  show ?thesis
  proof (cases "1 < d")
    case True
    then have "y' = y" "m' = m" "d' = d - 1" using assms(2) by (simp_all add: previousCalendarDay_def)
    then show ?thesis
      using m d True daysFromCivil_day [of y m d "- 1"] by (simp add: validDate_def)
  next
    case False
    then have first: "d = 1" using d by simp
    have "0 \<le> m - 1" "m - 1 \<le> 11" using m by simp_all
    then show ?thesis
    proof (cases rule: month_cases)
      case 3
      then have m3: "m = 3" by simp
      then have prev: "y' = y" "m' = 2" "d' = daysInMonth y 2"
        using assms(2) first by (auto simp: previousCalendarDay_def)
      have "daysBeforeYear (y - 1 + 1) = daysBeforeYear (y - 1) + (if isLeapYear (y - 1 + 1) then 366 else 365)"
        by (rule daysBeforeYear_Suc)
      then show ?thesis
        using first by (simp add: prev m3 validDate_def daysFromCivil_def daysInMonth_def monthStart_values)
    qed (use assms(2) first in \<open>simp_all add: previousCalendarDay_def validDate_def daysFromCivil_def
          daysInMonth_def monthStart_values\<close>)
  qed
qed

lemma div_mod_unique:
  fixes n k q r :: int
  assumes "n = k * q + r" "0 \<le> r" "r < k"
  shows "n div k = q" "n mod k = r"
  using assms by (rule int_div_pos_eq, rule int_mod_pos_eq)

lemma zone_dayAfter:
  assumes "validDate y m d" "0 \<le> y" "y \<le> 9999" "(y, m, d) \<noteq> (9999, 12, 31)"
    and steady: "steadyClock z (startOfDay (y, m, d))"
  shows "dayAfter (zoneHost z) (dateParse (zoneHost z) (isoDate (y, m, d))) =
           Inr (isoDate (nextCalendarDay (y, m, d)))"
proof -
  define D where "D = daysFromCivil y m d"
  define off where "off = offsetAt z (D * msPerDay)"
  have off: "- msPerDay < off" "off < msPerDay"
    and same: "offsetOfLocal z (D * msPerDay + off + msPerDay) = off"
    using steady by (simp_all add: steadyClock_def startOfDay_def D_def off_def)
  obtain y' m' d' where nxt: "nextCalendarDay (y, m, d) = (y', m', d')"
    by (cases "nextCalendarDay (y, m, d)")
  have civ': "civilFromDays (D + 1) = (y', m', d')"
    unfolding D_def using civil_of_next_day [OF assms(1)] nxt by simp
  have range: "- 1000000 \<le> D" "D \<le> 4000000"
    unfolding D_def using assms(1-3) by (rule daysFromCivil_range)+
  have y': "0 \<le> y'" "y' \<le> 9999"
    using nxt assms(2-4) assms(1)
    by (auto simp: nextCalendarDay_def validDate_def daysInMonth_def split: if_splits)
  have parsed: "dateParse (zoneHost z) (isoDate (y, m, d)) = Some (D * msPerDay)"
    using utcParse_isoDate [OF assms(1-3)] by (simp add: zoneHost_def D_def)
  have "\<exists>a b c L r. validDate a b c \<and> daysFromCivil a b c = L \<and>
          D * msPerDay + off = msPerDay * L + r \<and> 0 \<le> r \<and> r < msPerDay"
  proof (cases "0 \<le> off")
    case True
    then show ?thesis
      using assms(1) off(2) by (intro exI [of _ y] exI [of _ m] exI [of _ d] exI [of _ D] exI [of _ off])
        (simp add: D_def)
  next
    case False
    obtain a b c where prev: "previousCalendarDay (y, m, d) = (a, b, c)"
      by (cases "previousCalendarDay (y, m, d)")
    from previous_day [OF assms(1) prev] False off(1) show ?thesis
      by (intro exI [of _ a] exI [of _ b] exI [of _ c] exI [of _ "D - 1"] exI [of _ "off + msPerDay"])
        (simp add: D_def algebra_simps)
  qed
  then obtain a b c L r where loc: "validDate a b c" "daysFromCivil a b c = L"
    "D * msPerDay + off = msPerDay * L + r" "0 \<le> r" "r < msPerDay"
    by blast
  have whole: "(D * msPerDay + off) div msPerDay = L" "(D * msPerDay + off) mod msPerDay = r"
    using loc(3-5) by (rule div_mod_unique)+
  have civ: "civilFromDays L = (a, b, c)"
    using civil_of_days [OF loc(1)] loc(2) by simp
  have gd: "getDate (zoneHost z) (D * msPerDay) = c"
    by (simp add: zoneHost_def zoneGetDate_def off_def [symmetric] whole civ)
  have "daysFromCivil a b 1 + (c + 1) - 1 = L + 1"
    using loc(2) by (simp add: daysFromCivil_def Let_def)
  then have "(daysFromCivil a b 1 + (c + 1) - 1) * msPerDay + r = (L + 1) * msPerDay + r"
    by simp
  also have "\<dots> = D * msPerDay + off + msPerDay"
    using loc(3) by (simp add: algebra_simps)
  finally have moved: "(daysFromCivil a b 1 + (c + 1) - 1) * msPerDay + r = D * msPerDay + off + msPerDay" .
  have instant: "D * msPerDay + off + msPerDay - off = (D + 1) * msPerDay"
    by (simp add: algebra_simps)
  have bound: "\<bar>(D + 1) * msPerDay\<bar> \<le> 8640000000000000"
    using range by (simp add: msPerDay_def abs_le_iff)
  have sd: "setDate (zoneHost z) (D * msPerDay) (c + 1) = Some ((D + 1) * msPerDay)"
    by (simp only: zoneHost_def Runtime.simps zoneSetDate_def off_def [symmetric] whole civ
        prod.case Let_def moved same instant bound if_True)
  have whole': "(D + 1) * msPerDay div msPerDay = D + 1" "(D + 1) * msPerDay mod msPerDay = 0"
    by (simp_all add: msPerDay_def)
  have iso: "toISOString (zoneHost z) ((D + 1) * msPerDay) =
               isoDate (y', m', d') @ ''T'' @ ''00:00:00.000Z''"
    using y' by (simp add: zoneHost_def utcToISOString_def whole' civ' isoDate_def Let_def
        showDigits_zero)
  show ?thesis
    unfolding dayAfter_def parsed option.case gd sd iso beforeT_isoDate nxt ..
qed

lemma utcHost_zoneHost: "utcHost = zoneHost (fixedZone 0)"
  by (simp add: utcHost_def zoneHost_def fixedZone_def fun_eq_iff utcGetDate_def zoneGetDate_def
      utcSetDate_def zoneSetDate_def)

lemma steadyClock_fixedZone:
  "- msPerDay < off \<Longrightarrow> off < msPerDay \<Longrightarrow> steadyClock (fixedZone off) t"
  by (simp add: steadyClock_def fixedZone_def)

lemma isoDate_not_empty: "isoDate (y, m, d) \<noteq> []"
proof -
  have "length (isoDate (y, m, d)) = 10"
    by (simp add: isoDate_def showDigits_length)
  then show ?thesis by auto
qed

lemma nextCalendarDay_examples:
  "nextCalendarDay (2024, 2, 28) = (2024, 2, 29)"
  "nextCalendarDay (2023, 2, 28) = (2023, 3, 1)"
  "nextCalendarDay (1900, 2, 28) = (1900, 3, 1)"
  "nextCalendarDay (2000, 2, 29) = (2000, 3, 1)"
  "nextCalendarDay (2024, 4, 30) = (2024, 5, 1)"
  "nextCalendarDay (2023, 12, 31) = (2024, 1, 1)"
  "isoDate (2024, 2, 28) = ''2024-02-28''"
  "isoDate (2024, 2, 29) = ''2024-02-29''"
  "validDate 2024 2 28"
  by code_simp+

lemma zone_dayAfter_examples:
  "dayAfter (zoneHost (fixedZone 3600000)) (dateParse (zoneHost (fixedZone 3600000)) ''2024-03-31'') =
     Inr ''2024-04-01''"
  "dayAfter (zoneHost (fixedZone (- 18000000)))
     (dateParse (zoneHost (fixedZone (- 18000000))) ''2024-02-28'') = Inr ''2024-02-29''"
  by code_simp+

lemma steadyClock_cetZone:
  "steadyClock cetZone (startOfDay (2024, 3, 30))"
  "\<not> steadyClock cetZone (startOfDay (2024, 3, 31))"
  "steadyClock cetZone (startOfDay (2024, 4, 1))"
  by code_simp+


section \<open>The start date and the end date\<close>

text \<open>
  \<^verbatim>\<open>updateDraft\<close> on a draft that is found, with its case distinction written
  out.
\<close>

lemma updateDraft_found:
  assumes "findIndex (\<lambda>x. Draft.id x = i) (drafts state) = Some k"
  shows "updateDraft rt i fv state =
     (case draftStartDate fv of
        None \<Rightarrow>
          Inr (state\<lparr> drafts := (drafts state)[k := (assignDraft fv (drafts state ! k))\<lparr> Draft.isDirty := True \<rparr>],
                     currentDraft :=
                       (if currentDraftHasId state i
                        then Some ((assignDraft fv (drafts state ! k))\<lparr> Draft.isDirty := True \<rparr>)
                        else currentDraft state),
                     saveStatus := saving \<rparr>)
      | Some v \<Rightarrow>
          (case dayAfter rt (dateParse rt v) of
             Inl ex \<Rightarrow> Inl ex
           | Inr e \<Rightarrow>
               Inr (state\<lparr> drafts := (drafts state)
                            [k := (assignDraft fv (drafts state ! k))\<lparr> Draft.isDirty := True, Draft.endDate := e \<rparr>],
                          currentDraft :=
                            (if currentDraftHasId state i
                             then Some ((assignDraft fv (drafts state ! k))
                                          \<lparr> Draft.isDirty := True, Draft.endDate := e \<rparr>)
                             else currentDraft state),
                          saveStatus := saving \<rparr>)))"
  using assms by (simp add: updateDraft_def Let_def split: option.splits sum.splits)

lemma assignDraft_endDate:
  "\<forall>w. fv \<noteq> D_startDate w \<Longrightarrow>
   Draft.endDate (assignDraft fv d) = (case fv of D_endDate w \<Rightarrow> w | _ \<Rightarrow> Draft.endDate d)"
  by (cases fv) simp_all

lemma assignLog_endDate:
  "\<forall>w. fv \<noteq> L_startDate w \<Longrightarrow>
   ServiceLog.endDate (assignLog fv l) = (case fv of L_endDate w \<Rightarrow> w | _ \<Rightarrow> ServiceLog.endDate l)"
  by (cases fv) simp_all

lemma draftStartDate_other: "\<forall>w. fv \<noteq> D_startDate w \<Longrightarrow> draftStartDate fv = None"
  by (cases fv) simp_all

lemma logStartDate_other: "\<forall>w. fv \<noteq> L_startDate w \<Longrightarrow> logStartDate fv = None"
  by (cases fv) simp_all

lemma updateDraft_startDate:
  assumes "findIndex (\<lambda>x. Draft.id x = i) (drafts state) = Some k"
  shows "v \<noteq> [] \<longrightarrow> dayAfter rt (dateParse rt v) = Inr e \<longrightarrow>
           (\<exists>s'. updateDraft rt i (D_startDate v) state = Inr s' \<and>
                 Draft.startDate (drafts s' ! k) = v \<and> Draft.endDate (drafts s' ! k) = e)"
    and "v \<noteq> [] \<longrightarrow> dayAfter rt (dateParse rt v) = Inl ex \<longrightarrow>
           updateDraft rt i (D_startDate v) state = Inl ex"
    and "\<exists>s'. updateDraft rt i (D_startDate []) state = Inr s' \<and>
              Draft.startDate (drafts s' ! k) = [] \<and>
              Draft.endDate (drafts s' ! k) = Draft.endDate (drafts state ! k)"
    and "(\<forall>w. fv \<noteq> D_startDate w) \<longrightarrow>
           (\<exists>s'. updateDraft rt i fv state = Inr s' \<and>
                 Draft.endDate (drafts s' ! k) =
                   (case fv of D_endDate w \<Rightarrow> w | _ \<Rightarrow> Draft.endDate (drafts state ! k)))"
proof -
  have k: "k < length (drafts state)"
    using findIndex_Some [OF assms] by simp
  show "v \<noteq> [] \<longrightarrow> dayAfter rt (dateParse rt v) = Inr e \<longrightarrow>
           (\<exists>s'. updateDraft rt i (D_startDate v) state = Inr s' \<and>
                 Draft.startDate (drafts s' ! k) = v \<and> Draft.endDate (drafts s' ! k) = e)"
    using k by (simp add: updateDraft_found [OF assms])
  show "v \<noteq> [] \<longrightarrow> dayAfter rt (dateParse rt v) = Inl ex \<longrightarrow>
           updateDraft rt i (D_startDate v) state = Inl ex"
    by (simp add: updateDraft_found [OF assms])
  show "\<exists>s'. updateDraft rt i (D_startDate []) state = Inr s' \<and>
              Draft.startDate (drafts s' ! k) = [] \<and>
              Draft.endDate (drafts s' ! k) = Draft.endDate (drafts state ! k)"
    using k by (simp add: updateDraft_found [OF assms])
  show "(\<forall>w. fv \<noteq> D_startDate w) \<longrightarrow>
           (\<exists>s'. updateDraft rt i fv state = Inr s' \<and>
                 Draft.endDate (drafts s' ! k) =
                   (case fv of D_endDate w \<Rightarrow> w | _ \<Rightarrow> Draft.endDate (drafts state ! k)))"
    using k by (simp add: updateDraft_found [OF assms] draftStartDate_other assignDraft_endDate)
qed

lemma updateEditingLogField_startDate:
  assumes "editingLog state = Some l"
  shows "v \<noteq> [] \<longrightarrow> dayAfter rt (dateParse rt v) = Inr e \<longrightarrow>
           updateEditingLogField rt (L_startDate v) state =
             Inr (state\<lparr> editingLog := Some (l\<lparr> ServiceLog.startDate := v, ServiceLog.endDate := e \<rparr>) \<rparr>)"
    and "v \<noteq> [] \<longrightarrow> dayAfter rt (dateParse rt v) = Inl ex \<longrightarrow>
           updateEditingLogField rt (L_startDate v) state = Inl ex"
    and "updateEditingLogField rt (L_startDate []) state =
           Inr (state\<lparr> editingLog := Some (l\<lparr> ServiceLog.startDate := [] \<rparr>) \<rparr>)"
    and "(\<forall>w. fv \<noteq> L_startDate w) \<longrightarrow>
           updateEditingLogField rt fv state = Inr (state\<lparr> editingLog := Some (assignLog fv l) \<rparr>) \<and>
           ServiceLog.endDate (assignLog fv l) =
             (case fv of L_endDate w \<Rightarrow> w | _ \<Rightarrow> ServiceLog.endDate l)"
  using assms
  by (simp_all add: updateEditingLogField_def Let_def logStartDate_other assignLog_endDate)

text \<open>
  C4, as amended. Let \<open>k\<close> be the place of the first draft with the id \<open>i\<close>.
  Setting \<^verbatim>\<open>startDate\<close> to a date \<^verbatim>\<open>YYYY-MM-DD\<close> of the calendar sets
  \<^verbatim>\<open>endDate\<close> to that date plus one calendar day, whatever \<^verbatim>\<open>endDate\<close> was
  before, on a host whose clock is steady over that day: the offset of the
  local time from UTC is the same when the day begins and one day later.
  Setting \<^verbatim>\<open>startDate\<close> to the empty string leaves \<^verbatim>\<open>endDate\<close> as it was.
  Setting any other field leaves \<^verbatim>\<open>endDate\<close> as given: the old value, or the
  new one when the field is \<^verbatim>\<open>endDate\<close> itself. The same holds for the working
  copy of the open edit session under \<^verbatim>\<open>updateEditingLogField\<close>. The dates
  are those with a year of four digits, the last day of the year 9999 left
  aside.
\<close>

theorem startDate_auto_advance:
  "(findIndex (\<lambda>x. Draft.id x = i) (drafts state) = Some k \<longrightarrow>
      (validDate y m d \<and> 0 \<le> y \<and> y \<le> 9999 \<and> (y, m, d) \<noteq> (9999, 12, 31) \<and>
       steadyClock z (startOfDay (y, m, d)) \<longrightarrow>
         (\<exists>s'. updateDraft (zoneHost z) i (D_startDate (isoDate (y, m, d))) state = Inr s' \<and>
               Draft.startDate (drafts s' ! k) = isoDate (y, m, d) \<and>
               Draft.endDate (drafts s' ! k) = isoDate (nextCalendarDay (y, m, d)))) \<and>
      (\<exists>s'. updateDraft rt i (D_startDate []) state = Inr s' \<and>
            Draft.startDate (drafts s' ! k) = [] \<and>
            Draft.endDate (drafts s' ! k) = Draft.endDate (drafts state ! k)) \<and>
      ((\<forall>w. dfv \<noteq> D_startDate w) \<longrightarrow>
         (\<exists>s'. updateDraft rt i dfv state = Inr s' \<and>
               Draft.endDate (drafts s' ! k) =
                 (case dfv of D_endDate w \<Rightarrow> w | _ \<Rightarrow> Draft.endDate (drafts state ! k))))) \<and>
   (editingLog state = Some l \<longrightarrow>
      (validDate y m d \<and> 0 \<le> y \<and> y \<le> 9999 \<and> (y, m, d) \<noteq> (9999, 12, 31) \<and>
       steadyClock z (startOfDay (y, m, d)) \<longrightarrow>
         updateEditingLogField (zoneHost z) (L_startDate (isoDate (y, m, d))) state =
           Inr (state\<lparr> editingLog :=
                  Some (l\<lparr> ServiceLog.startDate := isoDate (y, m, d),
                           ServiceLog.endDate := isoDate (nextCalendarDay (y, m, d)) \<rparr>) \<rparr>)) \<and>
      updateEditingLogField rt (L_startDate []) state =
        Inr (state\<lparr> editingLog := Some (l\<lparr> ServiceLog.startDate := [] \<rparr>) \<rparr>) \<and>
      ((\<forall>w. lfv \<noteq> L_startDate w) \<longrightarrow>
         updateEditingLogField rt lfv state =
           Inr (state\<lparr> editingLog := Some (assignLog lfv l) \<rparr>) \<and>
         ServiceLog.endDate (assignLog lfv l) =
           (case lfv of L_endDate w \<Rightarrow> w | _ \<Rightarrow> ServiceLog.endDate l)))"
proof (intro conjI impI)
  assume found: "findIndex (\<lambda>x. Draft.id x = i) (drafts state) = Some k"
  note draft = updateDraft_startDate [OF found]
  show "\<exists>s'. updateDraft (zoneHost z) i (D_startDate (isoDate (y, m, d))) state = Inr s' \<and>
          Draft.startDate (drafts s' ! k) = isoDate (y, m, d) \<and>
          Draft.endDate (drafts s' ! k) = isoDate (nextCalendarDay (y, m, d))"
    if "validDate y m d \<and> 0 \<le> y \<and> y \<le> 9999 \<and> (y, m, d) \<noteq> (9999, 12, 31) \<and>
        steadyClock z (startOfDay (y, m, d))"
  proof -
    have "dayAfter (zoneHost z) (dateParse (zoneHost z) (isoDate (y, m, d))) =
            Inr (isoDate (nextCalendarDay (y, m, d)))"
      using that by (intro zone_dayAfter) simp_all
    then show ?thesis
      using draft(1) isoDate_not_empty by blast
  qed
  show "\<exists>s'. updateDraft rt i (D_startDate []) state = Inr s' \<and>
          Draft.startDate (drafts s' ! k) = [] \<and>
          Draft.endDate (drafts s' ! k) = Draft.endDate (drafts state ! k)"
    by (rule draft(3))
  show "\<exists>s'. updateDraft rt i dfv state = Inr s' \<and>
          Draft.endDate (drafts s' ! k) =
            (case dfv of D_endDate w \<Rightarrow> w | _ \<Rightarrow> Draft.endDate (drafts state ! k))"
    if "\<forall>w. dfv \<noteq> D_startDate w"
    using draft(4) that by blast
next
  assume session: "editingLog state = Some l"
  note log = updateEditingLogField_startDate [OF session]
  show "updateEditingLogField (zoneHost z) (L_startDate (isoDate (y, m, d))) state =
          Inr (state\<lparr> editingLog :=
                 Some (l\<lparr> ServiceLog.startDate := isoDate (y, m, d),
                          ServiceLog.endDate := isoDate (nextCalendarDay (y, m, d)) \<rparr>) \<rparr>)"
    if "validDate y m d \<and> 0 \<le> y \<and> y \<le> 9999 \<and> (y, m, d) \<noteq> (9999, 12, 31) \<and>
        steadyClock z (startOfDay (y, m, d))"
  proof -
    have "dayAfter (zoneHost z) (dateParse (zoneHost z) (isoDate (y, m, d))) =
            Inr (isoDate (nextCalendarDay (y, m, d)))"
      using that by (intro zone_dayAfter) simp_all
    then show ?thesis
      using log(1) isoDate_not_empty by blast
  qed
  show "updateEditingLogField rt (L_startDate []) state =
          Inr (state\<lparr> editingLog := Some (l\<lparr> ServiceLog.startDate := [] \<rparr>) \<rparr>)"
    by (rule log(3))
  show "updateEditingLogField rt lfv state = Inr (state\<lparr> editingLog := Some (assignLog lfv l) \<rparr>)"
    if "\<forall>w. lfv \<noteq> L_startDate w"
    using log(4) that by blast
  show "ServiceLog.endDate (assignLog lfv l) =
          (case lfv of L_endDate w \<Rightarrow> w | _ \<Rightarrow> ServiceLog.endDate l)"
    if "\<forall>w. lfv \<noteq> L_startDate w"
    using log(4) that by blast
qed

text \<open>
  On the UTC host, the host of the zone with the offset 0: a draft with the end
  date \<^verbatim>\<open>2024-03-15\<close> and a working copy get the start date \<^verbatim>\<open>2024-02-28\<close> and
  with it the end date \<^verbatim>\<open>2024-02-29\<close>, the next day of a leap year; setting
  \<^verbatim>\<open>carId\<close> leaves the end date of the draft. On the host with central European
  time, the working copy gets the start date \<^verbatim>\<open>2024-03-30\<close>, a day over which
  the clock is steady, and with it the end date \<^verbatim>\<open>2024-03-31\<close>.
\<close>

theorem startDate_auto_advance_witness:
  "findIndex (\<lambda>x. Draft.id x = ''draft_1'') (drafts draftEditState) = Some 0 \<and>
   editingLog draftEditState = Some exampleLog \<and>
   validDate 2024 2 28 \<and>
   steadyClock (fixedZone 0) (startOfDay (2024, 2, 28)) \<and>
   isoDate (2024, 2, 28) = ''2024-02-28'' \<and>
   isoDate (nextCalendarDay (2024, 2, 28)) = ''2024-02-29'' \<and>
   Draft.endDate (drafts draftEditState ! 0) = ''2024-03-15'' \<and>
   (\<exists>s'. updateDraft utcHost ''draft_1'' (D_startDate ''2024-02-28'') draftEditState = Inr s' \<and>
         Draft.startDate (drafts s' ! 0) = ''2024-02-28'' \<and>
         Draft.endDate (drafts s' ! 0) = ''2024-02-29'') \<and>
   (\<exists>s'. updateDraft utcHost ''draft_1'' (D_carId ''C2'') draftEditState = Inr s' \<and>
         Draft.endDate (drafts s' ! 0) = ''2024-03-15'') \<and>
   updateEditingLogField utcHost (L_startDate ''2024-02-28'') draftEditState =
     Inr (draftEditState\<lparr> editingLog :=
            Some (exampleLog\<lparr> ServiceLog.startDate := ''2024-02-28'',
                              ServiceLog.endDate := ''2024-02-29'' \<rparr>) \<rparr>) \<and>
   validDate 2024 3 30 \<and>
   steadyClock cetZone (startOfDay (2024, 3, 30)) \<and>
   updateEditingLogField cetHost (L_startDate ''2024-03-30'') draftEditState =
     Inr (draftEditState\<lparr> editingLog :=
            Some (exampleLog\<lparr> ServiceLog.startDate := ''2024-03-30'',
                              ServiceLog.endDate := ''2024-03-31'' \<rparr>) \<rparr>)"
proof -
  have found: "findIndex (\<lambda>x. Draft.id x = ''draft_1'') (drafts draftEditState) = Some 0"
    and session: "editingLog draftEditState = Some exampleLog"
    and before: "Draft.endDate (drafts draftEditState ! 0) = ''2024-03-15''"
    by (simp_all add: draftEditState_def exampleState_def exampleDraft_def initialState_def)
  have dates: "validDate 2024 2 28" "isoDate (2024, 2, 28) = ''2024-02-28''"
    "isoDate (nextCalendarDay (2024, 2, 28)) = ''2024-02-29''"
    by (simp_all add: nextCalendarDay_examples)
  have steady: "steadyClock (fixedZone 0) (startOfDay (2024, 2, 28))"
    by (simp add: steadyClock_fixedZone msPerDay_def)
  have march: "validDate 2024 3 30" "isoDate (2024, 3, 30) = ''2024-03-30''"
    "isoDate (nextCalendarDay (2024, 3, 30)) = ''2024-03-31''"
    by code_simp+
  have leap_day:
    "(\<exists>s'. updateDraft utcHost ''draft_1'' (D_startDate ''2024-02-28'') draftEditState = Inr s' \<and>
         Draft.startDate (drafts s' ! 0) = ''2024-02-28'' \<and>
         Draft.endDate (drafts s' ! 0) = ''2024-02-29'') \<and>
     (\<exists>s'. updateDraft utcHost ''draft_1'' (D_carId ''C2'') draftEditState = Inr s' \<and>
         Draft.endDate (drafts s' ! 0) = ''2024-03-15'') \<and>
     updateEditingLogField utcHost (L_startDate ''2024-02-28'') draftEditState =
       Inr (draftEditState\<lparr> editingLog :=
              Some (exampleLog\<lparr> ServiceLog.startDate := ''2024-02-28'',
                                ServiceLog.endDate := ''2024-02-29'' \<rparr>) \<rparr>)"
    using startDate_auto_advance [of "''draft_1''" draftEditState 0 2024 2 28 "fixedZone 0" utcHost
        "D_carId ''C2''" exampleLog "L_carId ''C2''"]
      found session before steady
    by (simp add: dates utcHost_zoneHost [symmetric])
  have spring:
    "updateEditingLogField cetHost (L_startDate ''2024-03-30'') draftEditState =
       Inr (draftEditState\<lparr> editingLog :=
              Some (exampleLog\<lparr> ServiceLog.startDate := ''2024-03-30'',
                                ServiceLog.endDate := ''2024-03-31'' \<rparr>) \<rparr>)"
    using startDate_auto_advance [of "''draft_1''" draftEditState 0 2024 3 30 cetZone utcHost
        "D_carId ''C2''" exampleLog "L_carId ''C2''"]
      session steadyClock_cetZone(1)
    by (simp add: march cetHost_def)
  show ?thesis
    using found session before dates steady march(1) steadyClock_cetZone(1) leap_day spring
    by simp
qed

text \<open>
  C4 as stated fails when the start date is set to the empty string (the date
  input is cleared): the guard \<^verbatim>\<open>field === 'startDate' && value\<close> is false, and
  the draft keeps the end date \<^verbatim>\<open>2024-03-15\<close> chosen before.
\<close>

theorem startDate_cleared_counterexample:
  "Draft.endDate (drafts exampleState ! 0) = ''2024-03-15'' \<and>
   updateDraft utcHost ''draft_1'' (D_startDate []) exampleState =
     Inr (exampleState
            \<lparr> drafts := [exampleDraft\<lparr> Draft.startDate := [], Draft.isDirty := True \<rparr>],
              currentDraft := Some (exampleDraft\<lparr> Draft.startDate := [], Draft.isDirty := True \<rparr>),
              saveStatus := saving \<rparr>) \<and>
   Draft.endDate (exampleDraft\<lparr> Draft.startDate := [], Draft.isDirty := True \<rparr>) = ''2024-03-15''"
  by (simp add: updateDraft_def Let_def currentDraftHasId_def exampleState_def exampleDraft_def
      initialState_def)


text \<open>
  The theorem is about the days over which the clock of the host is steady.
  \<open>dayAfter\<close> advances the day in local time and reads it back in UTC: on
  the host with central European time, the local day after
  \<^verbatim>\<open>2024-03-31T00:00:00Z\<close> is 23 hours long, and the date that is read back for
  the start date \<^verbatim>\<open>2024-03-31\<close> is the start date itself.
\<close>

lemma cet_dayAfter_examples:
  "dayAfter cetHost (dateParse cetHost ''2024-03-30'') = Inr ''2024-03-31''"
  "dayAfter cetHost (dateParse cetHost ''2024-03-31'') = Inr ''2024-03-31''"
  "dayAfter cetHost (dateParse cetHost ''2024-04-01'') = Inr ''2024-04-02''"
  by code_simp+

lemma updateDraft_on_clock_change:
  "updateDraft cetHost ''draft_1'' (D_startDate ''2024-03-31'') exampleState =
     Inr (exampleState
            \<lparr> drafts := [exampleDraft\<lparr> Draft.startDate := ''2024-03-31'',
                                      Draft.endDate := ''2024-03-31'', Draft.isDirty := True \<rparr>],
              currentDraft := Some (exampleDraft\<lparr> Draft.startDate := ''2024-03-31'',
                                      Draft.endDate := ''2024-03-31'', Draft.isDirty := True \<rparr>),
              saveStatus := saving \<rparr>)"
  by (simp add: updateDraft_def Let_def cet_dayAfter_examples currentDraftHasId_def
      exampleState_def exampleDraft_def initialState_def)


section \<open>The current-draft pointer\<close>

text \<open>
  Replacing the draft at the place where \<^verbatim>\<open>findIndex\<close> found the id \<open>i\<close>, and
  moving the pointer to the new draft when the pointer has the id \<open>i\<close>, keeps
  the pointer in the collection. \<^verbatim>\<open>updateDraft\<close> and \<^verbatim>\<open>markDraftSaved\<close> are
  both of this form.
\<close>

lemma present_replace_at:
  assumes inv: "currentDraftPresent state"
    and found: "findIndex (\<lambda>x. Draft.id x = i) (drafts state) = Some k"
    and ds: "drafts s' = (drafts state)[k := d]"
    and cur: "currentDraft s' = (if currentDraftHasId state i then Some d else currentDraft state)"
  shows "currentDraftPresent s'"
proof (cases "currentDraftHasId state i")
  case True
  with findIndex_Some [OF found] ds cur show ?thesis
    by (simp add: currentDraftPresent_def set_update_memI)
next
  case False
  show ?thesis
  proof (cases "currentDraft state")
    case None
    with False cur show ?thesis by (simp add: currentDraftPresent_def)
  next
    case (Some c)
    with inv have mem: "c \<in> set (drafts state)"
      by (simp add: currentDraftPresent_def)
    from Some False have "Draft.id c \<noteq> i"
      by (simp add: currentDraftHasId_def)
    with findIndex_Some [OF found] have "c \<noteq> drafts state ! k" by auto
    with mem findIndex_Some [OF found] have "c \<in> set ((drafts state)[k := d])"
      by (simp add: mem_list_update_other)
    with Some False ds cur show ?thesis by (simp add: currentDraftPresent_def)
  qed
qed

lemma present_updateDraft:
  assumes "currentDraftPresent state" and "updateDraft rt i fv state = Inr s'"
  shows "currentDraftPresent s'"
proof (cases "findIndex (\<lambda>x. Draft.id x = i) (drafts state)")
  case None
  with assms show ?thesis by (simp add: updateDraft_def)
next
  case (Some k)
  from assms(2) Some obtain d where
    "drafts s' = (drafts state)[k := d]"
    "currentDraft s' = (if currentDraftHasId state i then Some d else currentDraft state)"
    by (auto simp: updateDraft_def Let_def split: option.splits sum.splits)
  then show ?thesis
    by (rule present_replace_at [OF assms(1) Some])
qed

lemma present_markDraftSaved:
  assumes "currentDraftPresent state"
  shows "currentDraftPresent (markDraftSaved rt now i savedAt state)"
proof (cases "findIndex (\<lambda>x. Draft.id x = i) (drafts state)")
  case None
  with assms show ?thesis by (simp add: markDraftSaved_def)
next
  case (Some k)
  from findIndex_Some [OF Some] have "Draft.id (drafts state ! k) = i" by simp
  with Some show ?thesis
    by (intro present_replace_at [OF assms Some]) (simp_all add: markDraftSaved_def Let_def)
qed

lemma present_deleteDraft:
  assumes "currentDraftPresent state"
  shows "currentDraftPresent (deleteDraft i state)"
  using assms
  by (auto simp: currentDraftPresent_def deleteDraft_def currentDraftHasId_def split: option.splits)

lemma present_clearAllDrafts: "currentDraftPresent (clearAllDrafts state)"
  by (simp add: currentDraftPresent_def clearAllDrafts_def)

lemma present_createServiceLog:
  assumes "currentDraftPresent state"
  shows "currentDraftPresent (createServiceLog rt now random createdNow state)"
  using assms
  by (auto simp: currentDraftPresent_def createServiceLog_def Let_def split: option.splits)

lemma present_createDraft:
  assumes "createDraft rt today now random savedAt state = Inr s'"
  shows "currentDraftPresent s'"
  using assms by (auto simp: currentDraftPresent_def createDraft_def split: sum.splits)

lemma present_loadFromStorage:
  assumes "currentDraftPresent persisted"
  shows "currentDraftPresent (loadFromStorage (toSave persisted) state)"
  using assms
  by (auto simp: currentDraftPresent_def loadFromStorage_def toSave_def split: option.splits)

lemma present_setCurrentDraft:
  assumes "payload = None \<or> (\<exists>d \<in> set (drafts state). payload = Some d)"
  shows "currentDraftPresent (setCurrentDraft payload state)"
  using assms by (auto simp: currentDraftPresent_def setCurrentDraft_def)

lemma present_updateEditingLogField:
  assumes "currentDraftPresent state" and "updateEditingLogField rt fv state = Inr s'"
  shows "currentDraftPresent s'"
  using assms
  by (auto simp: currentDraftPresent_def updateEditingLogField_def Let_def
      split: option.splits sum.splits)

lemma present_other:
  assumes "currentDraftPresent state"
  shows "currentDraftPresent (setEditingLog logPayload state)"
    and "currentDraftPresent (saveEditingLog rt state)"
    and "currentDraftPresent (deleteServiceLog i state)"
    and "currentDraftPresent (setSearchTerm term state)"
    and "currentDraftPresent (setFilters filterPayload state)"
    and "currentDraftPresent (toggleFilters state)"
    and "currentDraftPresent (clearFilters state)"
    and "currentDraftPresent (setSaveStatus st state)"
    and "currentDraftPresent (setValidationErrors errs state)"
  using assms
  by (simp_all add: currentDraftPresent_def setEditingLog_def saveEditingLog_def Let_def
      deleteServiceLog_def setSearchTerm_def setFilters_def toggleFilters_def clearFilters_def
      setSaveStatus_def setValidationErrors_def split: option.splits)

lemma reachable_present: "reachable rt state \<Longrightarrow> currentDraftPresent state"
proof (induction rule: reachable.induct)
  case initial
  show ?case by (simp add: currentDraftPresent_def initialState_def)
next
  case (load s persisted)
  then show ?case by (simp add: present_loadFromStorage)
next
  case (create s today now random savedAt s')
  then show ?case by (simp add: present_createDraft)
next
  case (select s payload)
  then show ?case by (simp add: present_setCurrentDraft)
next
  case (update s i fv s')
  then show ?case by (blast intro: present_updateDraft)
next
  case (editField s lfv s')
  then show ?case by (blast intro: present_updateEditingLogField)
qed (simp_all add: present_deleteDraft present_clearAllDrafts present_createServiceLog
      present_markDraftSaved present_other)

text \<open>
  C5. In every state that is reachable from the initial state by the reducers
  (with \<^verbatim>\<open>setCurrentDraft\<close> applied to \<^verbatim>\<open>null\<close> or to a draft of the
  collection), the current-draft pointer is \<^verbatim>\<open>null\<close> or equal, in its id and in
  every other field, to a draft of the collection. And each of \<^verbatim>\<open>updateDraft\<close>,
  \<^verbatim>\<open>deleteDraft\<close>, \<^verbatim>\<open>clearAllDrafts\<close>, \<^verbatim>\<open>createServiceLog\<close> and
  \<^verbatim>\<open>markDraftSaved\<close> preserves this, from any state where it holds.
\<close>

theorem current_draft_pointer_invariant:
  "(reachable rt state \<longrightarrow> currentDraftPresent state) \<and>
   (currentDraftPresent state \<longrightarrow>
      (\<forall>s'. updateDraft rt i fv state = Inr s' \<longrightarrow> currentDraftPresent s') \<and>
      currentDraftPresent (deleteDraft i state) \<and>
      currentDraftPresent (clearAllDrafts state) \<and>
      currentDraftPresent (createServiceLog rt now random createdNow state) \<and>
      currentDraftPresent (markDraftSaved rt now i savedAt state))"
  using reachable_present present_updateDraft present_deleteDraft present_clearAllDrafts
    present_createServiceLog present_markDraftSaved
  by blast

text \<open>
  The invariant on the state that \<^verbatim>\<open>createDraft\<close> reaches from the initial
  state, and on the states that the five operations make of it.
\<close>

theorem current_draft_pointer_invariant_witness:
  "reachable utcHost createdState \<and>
   currentDraftPresent createdState \<and>
   updateDraft utcHost ''draft_1700000000123_abc1234'' (D_carId ''C1'') createdState =
     Inr (createdState
            \<lparr> drafts := [createdDraft\<lparr> Draft.carId := ''C1'', Draft.isDirty := True \<rparr>],
              currentDraft := Some (createdDraft\<lparr> Draft.carId := ''C1'', Draft.isDirty := True \<rparr>),
              saveStatus := saving \<rparr>) \<and>
   currentDraftPresent
     (createdState
        \<lparr> drafts := [createdDraft\<lparr> Draft.carId := ''C1'', Draft.isDirty := True \<rparr>],
          currentDraft := Some (createdDraft\<lparr> Draft.carId := ''C1'', Draft.isDirty := True \<rparr>),
          saveStatus := saving \<rparr>) \<and>
   currentDraftPresent (deleteDraft ''draft_1700000000123_abc1234'' createdState) \<and>
   currentDraftPresent (clearAllDrafts createdState) \<and>
   currentDraftPresent (createServiceLog utcHost 1700000000200 ''k3j9x2a'' 1700000000201 createdState) \<and>
   currentDraftPresent (markDraftSaved utcHost 1700000000200 ''draft_1700000000123_abc1234'' None createdState)"
proof -
  have reach: "reachable utcHost createdState"
    by (rule reachable.create [OF reachable.initial createDraft_example])
  have upd: "updateDraft utcHost ''draft_1700000000123_abc1234'' (D_carId ''C1'') createdState =
     Inr (createdState
            \<lparr> drafts := [createdDraft\<lparr> Draft.carId := ''C1'', Draft.isDirty := True \<rparr>],
              currentDraft := Some (createdDraft\<lparr> Draft.carId := ''C1'', Draft.isDirty := True \<rparr>),
              saveStatus := saving \<rparr>)"
    by (simp add: updateDraft_def Let_def currentDraftHasId_def createdState_def createdDraft_def
        initialState_def)
  show ?thesis
    using current_draft_pointer_invariant
            [of utcHost createdState "''draft_1700000000123_abc1234''" "D_carId ''C1''"
               1700000000200 "''k3j9x2a''" 1700000000201 None]
      reach upd
    by simp
qed


section \<open>Operations on an id that is not there\<close>

lemma absent_not_current:
  assumes "currentDraftPresent state" "i \<notin> Draft.id ` set (drafts state)"
  shows "\<not> currentDraftHasId state i"
  using assms by (auto simp: currentDraftPresent_def currentDraftHasId_def split: option.splits)

text \<open>
  C8, as amended. In a state whose current-draft pointer is \<^verbatim>\<open>null\<close> or a
  draft of the collection, as it is in every reachable state, and for an id
  \<open>i\<close> that no draft of the collection has, \<^verbatim>\<open>updateDraft\<close> returns the
  state unchanged without throwing, and \<^verbatim>\<open>markDraftSaved\<close> and
  \<^verbatim>\<open>deleteDraft\<close> return the state unchanged. For an id \<open>j\<close> that no record
  has, \<^verbatim>\<open>deleteServiceLog\<close> returns the state unchanged unless the edit
  session is open on a log with the id \<open>j\<close>, in which case it closes the
  session and changes nothing else. Of the four reducers only \<^verbatim>\<open>updateDraft\<close>
  has a statement that can throw, and it is not reached.
\<close>

theorem missing_id_no_op:
  "(i \<notin> Draft.id ` set (drafts state) \<longrightarrow>
      updateDraft rt i fv state = Inr state \<and>
      markDraftSaved rt now i savedAt state = state \<and>
      (currentDraftPresent state \<longrightarrow> deleteDraft i state = state)) \<and>
   (reachable rt state \<longrightarrow> i \<notin> Draft.id ` set (drafts state) \<longrightarrow> deleteDraft i state = state) \<and>
   (j \<notin> ServiceLog.id ` set (serviceLogs state) \<longrightarrow>
      deleteServiceLog j state =
        (if editingLogHasId state j then state\<lparr> editingLog := None \<rparr> else state))"
proof -
  have none: "findIndex (\<lambda>d. Draft.id d = i) (drafts state) = None"
    if "i \<notin> Draft.id ` set (drafts state)"
    using that by (auto simp: findIndex_None)
  have del: "deleteDraft i state = state"
    if "currentDraftPresent state" "i \<notin> Draft.id ` set (drafts state)"
    using that absent_not_current [OF that] by (simp add: deleteDraft_def filter_absent_id)
  show ?thesis
    using none del reachable_present [of rt state]
    by (simp add: updateDraft_def markDraftSaved_def deleteServiceLog_def filter_absent_id)
qed

text \<open>
  The four operations on ids that the state \<open>createdState\<close> does not have, a
  state that \<^verbatim>\<open>createDraft\<close> reaches from the initial state.
\<close>

theorem missing_id_no_op_witness:
  "reachable utcHost createdState \<and>
   currentDraftPresent createdState \<and>
   ''draft_9'' \<notin> Draft.id ` set (drafts createdState) \<and>
   ''log_9'' \<notin> ServiceLog.id ` set (serviceLogs createdState) \<and>
   updateDraft utcHost ''draft_9'' (D_carId ''C2'') createdState = Inr createdState \<and>
   markDraftSaved utcHost 1706700000000 ''draft_9'' None createdState = createdState \<and>
   deleteDraft ''draft_9'' createdState = createdState \<and>
   deleteServiceLog ''log_9'' createdState = createdState"
proof -
  have reach: "reachable utcHost createdState"
    by (rule reachable.create [OF reachable.initial createDraft_example])
  have present: "currentDraftPresent createdState"
    by (simp add: currentDraftPresent_def createdState_def)
  have absent: "''draft_9'' \<notin> Draft.id ` set (drafts createdState)"
    "''log_9'' \<notin> ServiceLog.id ` set (serviceLogs createdState)"
    by (simp_all add: createdState_def createdDraft_def initialState_def)
  have session: "\<not> editingLogHasId createdState ''log_9''"
    by (simp add: editingLogHasId_def createdState_def initialState_def)
  show ?thesis
    using missing_id_no_op [of "''draft_9''" createdState utcHost "D_carId ''C2''" 1706700000000
        None "''log_9''"] reach present absent session
    by simp
qed

text \<open>
  C8 as stated fails for \<^verbatim>\<open>deleteServiceLog\<close> in a reachable state: a record
  is promoted, an edit session is opened on it, and \<^verbatim>\<open>loadFromStorage\<close>
  restores a collection without the record. \<^verbatim>\<open>deleteServiceLog\<close> on the id of
  that record, an id that no record of the collection has, closes the session.
\<close>

theorem deleteServiceLog_stale_session_counterexample:
  "reachable utcHost staleSessionState \<and>
   ''log_1700000002000_k3j9x2a'' \<notin> ServiceLog.id ` set (serviceLogs staleSessionState) \<and>
   editingLog staleSessionState = Some promotedLog \<and>
   editingLog (deleteServiceLog ''log_1700000002000_k3j9x2a'' staleSessionState) = None \<and>
   deleteServiceLog ''log_1700000002000_k3j9x2a'' staleSessionState \<noteq> staleSessionState"
proof -
  have fields: "serviceLogs staleSessionState = []" "editingLog staleSessionState = Some promotedLog"
    by (simp_all add: staleSessionState_def loadFromStorage_def toSave_def setEditingLog_def
        initialState_def)
  have closed: "editingLog (deleteServiceLog ''log_1700000002000_k3j9x2a'' staleSessionState) = None"
    by (simp add: deleteServiceLog_def editingLogHasId_def fields promotedLog_def)
  then have "deleteServiceLog ''log_1700000002000_k3j9x2a'' staleSessionState \<noteq> staleSessionState"
    using fields(2) by (metis option.distinct(1))
  then show ?thesis
    using reachable_staleSession fields closed by simp
qed


section \<open>Persistence round trip\<close>

lemma serviceTypeOf_typeName: "serviceTypeOf (Some (JString (typeName t))) = Some t"
  by (cases t) (simp_all add: serviceTypeOf_def typeName_def)

lemma numberOf_jsonOfNumber: "finiteNumber x \<Longrightarrow> numberOf (Some (jsonOfNumber x)) = Some x"
  by (cases x) (simp_all add: finiteNumber_def jsonOfNumber_def)

lemma draftOfJson_jsonOfDraft:
  assumes "finiteDraft d"
  shows "draftOfJson (jsonOfDraft d) = Some d"
  using assms
  by (cases d)
    (simp add: draftOfJson_def jsonOfDraft_def property_def finiteDraft_def
      serviceTypeOf_typeName numberOf_jsonOfNumber)

lemma serviceLogOfJson_jsonOfServiceLog:
  assumes "finiteServiceLog l"
  shows "serviceLogOfJson (jsonOfServiceLog l) = Some l"
proof (cases l)
  case (fields i p1 p2 p3 p4 p5 p6 p7 p8 p9 p10 p11 p12)
  with assms show ?thesis
    by (cases p11; cases p12)
      (simp_all add: serviceLogOfJson_def jsonOfServiceLog_def property_def finiteServiceLog_def
        serviceTypeOf_typeName numberOf_jsonOfNumber)
qed

lemma those_map_Some:
  "(\<And>x. x \<in> set xs \<Longrightarrow> f (g x) = Some x) \<Longrightarrow> those (map (\<lambda>x. f (g x)) xs) = Some xs"
  by (induction xs) simp_all

lemma jsonOfDraft_not_null: "jsonOfDraft d \<noteq> JNull"
  by (simp add: jsonOfDraft_def)

lemma restored_toSave:
  assumes "finiteNumbers state"
  shows "restoredServiceLogs (jsonOfState (toSave state)) = Some (serviceLogs state)"
    and "restoredDrafts (jsonOfState (toSave state)) =
           Some (map (\<lambda>d. d\<lparr> Draft.isDirty := False \<rparr>) (drafts state))"
    and "restoredCurrentDraft (jsonOfState (toSave state)) =
           Some (map_option (\<lambda>c. c\<lparr> Draft.isDirty := False \<rparr>) (currentDraft state))"
proof -
  have logs: "those (map (\<lambda>l. serviceLogOfJson (jsonOfServiceLog l)) (serviceLogs state)) =
                Some (serviceLogs state)"
    using assms
    by (intro those_map_Some serviceLogOfJson_jsonOfServiceLog)
      (simp add: finiteNumbers_def list_all_iff)
  have clean: "finiteDraft (d\<lparr> Draft.isDirty := False \<rparr>)" if "finiteDraft d" for d
    using that by (simp add: finiteDraft_def)
  have ds: "those (map (\<lambda>d. draftOfJson (jsonOfDraft d))
                     (map (\<lambda>d. d\<lparr> Draft.isDirty := False \<rparr>) (drafts state))) =
              Some (map (\<lambda>d. d\<lparr> Draft.isDirty := False \<rparr>) (drafts state))"
    using assms
    by (intro those_map_Some draftOfJson_jsonOfDraft)
      (auto simp: finiteNumbers_def list_all_iff clean)
  show "restoredServiceLogs (jsonOfState (toSave state)) = Some (serviceLogs state)"
    using logs
    by (simp add: restoredServiceLogs_def jsonOfState_def toSave_def property_def comp_def
        split: option.splits)
  show "restoredDrafts (jsonOfState (toSave state)) =
           Some (map (\<lambda>d. d\<lparr> Draft.isDirty := False \<rparr>) (drafts state))"
    using ds
    by (simp add: restoredDrafts_def jsonOfState_def toSave_def property_def comp_def
        split: option.splits)
  show "restoredCurrentDraft (jsonOfState (toSave state)) =
           Some (map_option (\<lambda>c. c\<lparr> Draft.isDirty := False \<rparr>) (currentDraft state))"
  proof (cases "currentDraft state")
    case None
    then show ?thesis
      by (simp add: restoredCurrentDraft_def jsonOfState_def toSave_def property_def)
  next
    case (Some c)
    then have "finiteDraft (c\<lparr> Draft.isDirty := False \<rparr>)"
      using assms by (simp add: finiteNumbers_def clean)
    then have "draftOfJson (jsonOfDraft (c\<lparr> Draft.isDirty := False \<rparr>)) =
                 Some (c\<lparr> Draft.isDirty := False \<rparr>)"
      by (rule draftOfJson_jsonOfDraft)
    moreover have "restoredCurrentDraft (jsonOfState (toSave state)) =
        map_option Some (draftOfJson (jsonOfDraft (c\<lparr> Draft.isDirty := False \<rparr>)))"
      using Some jsonOfDraft_not_null [of "c\<lparr> Draft.isDirty := False \<rparr>"]
      by (simp add: restoredCurrentDraft_def jsonOfState_def toSave_def property_def
          split: json.splits)
    ultimately show ?thesis
      using Some by simp
  qed
qed

lemma persist_then_load:
  assumes "accepts ls LOCAL_STORAGE_KEY (JSON_stringify (toSave state))"
  shows "loadFromLocalStorage (persistToLocalStorage state ls) = Some (jsonOfState (toSave state))"
  using assms
  by (simp add: loadFromLocalStorage_def persistToLocalStorage_def setItem_def getItem_def
      JSON_stringify_def JSON_parse_def jsonOfState_def)

text \<open>
  C6, as amended. When the numbers of the state are finite and the storage
  takes the write, \<^verbatim>\<open>loadFromLocalStorage\<close> after \<^verbatim>\<open>persistToLocalStorage\<close>
  returns a value whose \<^verbatim>\<open>serviceLogs\<close> are the records of the state, whose
  \<^verbatim>\<open>drafts\<close> are the drafts of the state with \<^verbatim>\<open>isDirty\<close> set to false, every
  one of them not dirty, and whose \<^verbatim>\<open>currentDraft\<close> is the current draft of the
  state with \<^verbatim>\<open>isDirty\<close> set to false, or \<^verbatim>\<open>null\<close>.
\<close>

theorem persistence_round_trip:
  assumes "finiteNumbers state"
    and "accepts ls LOCAL_STORAGE_KEY (JSON_stringify (toSave state))"
  shows "\<exists>v. loadFromLocalStorage (persistToLocalStorage state ls) = Some v \<and>
             restoredServiceLogs v = Some (serviceLogs state) \<and>
             restoredDrafts v = Some (map (\<lambda>d. d\<lparr> Draft.isDirty := False \<rparr>) (drafts state)) \<and>
             (\<forall>d \<in> set (map (\<lambda>d. d\<lparr> Draft.isDirty := False \<rparr>) (drafts state)). \<not> Draft.isDirty d) \<and>
             restoredCurrentDraft v =
               Some (map_option (\<lambda>c. c\<lparr> Draft.isDirty := False \<rparr>) (currentDraft state))"
  using persist_then_load [OF assms(2)] restored_toSave [OF assms(1)]
  by simp

text \<open>The round trip of a state with a dirty current draft, through an empty storage.\<close>

theorem persistence_round_trip_witness:
  "finiteNumbers dirtyState \<and>
   accepts emptyStorage LOCAL_STORAGE_KEY (JSON_stringify (toSave dirtyState)) \<and>
   drafts dirtyState = [exampleDraft\<lparr> Draft.isDirty := True \<rparr>] \<and>
   currentDraft dirtyState = Some (exampleDraft\<lparr> Draft.isDirty := True \<rparr>) \<and>
   (\<exists>v. loadFromLocalStorage (persistToLocalStorage dirtyState emptyStorage) = Some v \<and>
        restoredServiceLogs v = Some [] \<and>
        restoredDrafts v = Some [exampleDraft] \<and>
        restoredCurrentDraft v = Some (Some exampleDraft))"
proof -
  have finite: "finiteNumbers dirtyState"
    by (simp add: finiteNumbers_def finiteDraft_def finiteNumber_def dirtyState_def
        exampleState_def initialState_def exampleDraft_def)
  have taken: "accepts emptyStorage LOCAL_STORAGE_KEY (JSON_stringify (toSave dirtyState))"
    by (simp add: emptyStorage_def)
  have fields: "serviceLogs dirtyState = []" "drafts dirtyState = [exampleDraft\<lparr> Draft.isDirty := True \<rparr>]"
    "currentDraft dirtyState = Some (exampleDraft\<lparr> Draft.isDirty := True \<rparr>)"
    "exampleDraft\<lparr> Draft.isDirty := False \<rparr> = exampleDraft"
    by (simp_all add: dirtyState_def exampleState_def initialState_def exampleDraft_def)
  show ?thesis
    using persistence_round_trip [of dirtyState emptyStorage] finite taken
    by (simp add: fields) blast
qed

text \<open>
  C6 as stated fails on a state with a number that is not finite: the draft of
  \<open>nanState\<close> has the odometer \<^verbatim>\<open>NaN\<close>, which is written as \<^verbatim>\<open>null\<close>, and
  the drafts that come back are not the drafts that were saved. It fails as
  well when the storage refuses the write: \<^verbatim>\<open>setItem\<close> throws,
  \<^verbatim>\<open>persistToLocalStorage\<close> ignores the exception, and \<^verbatim>\<open>loadFromLocalStorage\<close>
  finds no item and returns \<^verbatim>\<open>null\<close>.
\<close>

theorem persistence_loss_counterexample:
  "reachable utcHost nanState \<and>
   drafts nanState = [nanDraft] \<and>
   Draft.odometer nanDraft = NaN \<and>
   Option.bind (loadFromLocalStorage (persistToLocalStorage nanState emptyStorage))
     (property ''drafts'') =
     Some (JArray [jsonOfDraft (nanDraft\<lparr> Draft.isDirty := False \<rparr>)]) \<and>
   property ''odometer'' (jsonOfDraft (nanDraft\<lparr> Draft.isDirty := False \<rparr>)) = Some JNull \<and>
   Option.bind (loadFromLocalStorage (persistToLocalStorage nanState emptyStorage)) restoredDrafts =
     None \<and>
   loadFromLocalStorage (persistToLocalStorage dirtyState fullStorage) = None"
proof -
  have taken: "accepts emptyStorage LOCAL_STORAGE_KEY (JSON_stringify (toSave nanState))"
    by (simp add: emptyStorage_def)
  have fields: "drafts nanState = [nanDraft]" "Draft.odometer nanDraft = NaN"
    by (simp_all add: nanState_def draftingState_def nanDraft_def)
  have written: "property ''drafts'' (jsonOfState (toSave nanState)) =
      Some (JArray [jsonOfDraft (nanDraft\<lparr> Draft.isDirty := False \<rparr>)])"
    by (simp add: jsonOfState_def toSave_def property_def fields split: option.splits)
  have null: "property ''odometer'' (jsonOfDraft (nanDraft\<lparr> Draft.isDirty := False \<rparr>)) = Some JNull"
    by (simp add: jsonOfDraft_def property_def nanDraft_def jsonOfNumber_def)
  have lost: "draftOfJson (jsonOfDraft (nanDraft\<lparr> Draft.isDirty := False \<rparr>)) = None"
    by (simp add: draftOfJson_def jsonOfDraft_def property_def nanDraft_def jsonOfNumber_def
        createdDraft_def)
  have refused: "loadFromLocalStorage (persistToLocalStorage dirtyState fullStorage) = None"
    by (simp add: loadFromLocalStorage_def persistToLocalStorage_def setItem_def getItem_def
        fullStorage_def)
  show ?thesis
    using reachable_nanState fields null refused
    by (simp add: persist_then_load [OF taken] written restoredDrafts_def lost)
qed


section \<open>Characterisation of the filtered view\<close>

text \<open>The three conditions of \<^verbatim>\<open>filteredLogs\<close>, in terms of substrings and of the order of strings.\<close>

lemma matchesSearch_iff:
  "matchesSearch rt state l \<longleftrightarrow>
     searchTerm state = [] \<or>
     (\<exists>v \<in> set (objectValues rt l). \<exists>p q. toLowerCase v = p @ toLowerCase (searchTerm state) @ q)"
  by (simp add: matchesSearch_def list_ex_iff includesStr_iff)

lemma matchesDateRange_iff:
  "matchesDateRange state l \<longleftrightarrow>
     (Filters.startDateFrom (filters state) = [] \<or>
      ServiceLog.startDate l = Filters.startDateFrom (filters state) \<or>
      stringLess (Filters.startDateFrom (filters state)) (ServiceLog.startDate l)) \<and>
     (Filters.startDateTo (filters state) = [] \<or>
      ServiceLog.startDate l = Filters.startDateTo (filters state) \<or>
      stringLess (ServiceLog.startDate l) (Filters.startDateTo (filters state)))"
  by (auto simp: matchesDateRange_def stringGreaterEq_def stringLessEq_def stringLess_total)

lemma matchesType_iff:
  "matchesType state l \<longleftrightarrow>
     Filters.type (filters state) = None \<or> Filters.type (filters state) = Some (ServiceLog.type l)"
  by (auto simp: matchesType_def split: option.splits)

text \<open>
  The values of a record that \<^verbatim>\<open>createServiceLog\<close> built from a draft: next to
  the declared fields, the \<^verbatim>\<open>lastSaved\<close> of the draft and \<^verbatim>\<open>true\<close> or
  \<^verbatim>\<open>false\<close> for its \<^verbatim>\<open>isDirty\<close>.
\<close>

lemma objectValues_promoted:
  "set (objectValues rt (newLog d newId created)) =
     {Draft.providerId d, Draft.serviceOrder d, Draft.carId d,
      numberToString rt (Draft.odometer d), numberToString rt (Draft.engineHours d),
      Draft.startDate d, Draft.endDate d, typeName (Draft.type d), Draft.serviceDescription d,
      newId, created, Draft.lastSaved d, booleanToString (Draft.isDirty d)}"
  by (auto simp: objectValues_def newLog_def)

lemma objectValues_set:
  "set (objectValues rt l) =
     set (specFieldValues rt l) \<union> set_option (ServiceLog.lastSaved l) \<union>
     booleanToString ` set_option (ServiceLog.isDirty l)"
  by (auto simp: objectValues_def specFieldValues_def split: option.splits)

text \<open>
  C7, as amended. A record \<open>l\<close> is in the filtered view exactly when it is a
  record of the state and (the search term is empty, or the search term in
  lower case is a substring of the lower-case string rendering of one of the
  values of the record) and (\<^verbatim>\<open>startDateFrom\<close> is empty, or the start date of
  the record is equal to it or above it) and (\<^verbatim>\<open>startDateTo\<close> is empty, or the
  start date of the record is equal to it or below it) and (the type filter is
  empty, or is the type of the record). The values of a record are the values
  of all the properties that the object has (\<open>objectValues\<close>): the eleven
  fields of a Record and, where the object has them, as a record has that
  \<^verbatim>\<open>createServiceLog\<close> built from a draft, \<^verbatim>\<open>lastSaved\<close> and \<^verbatim>\<open>isDirty\<close>.
  The dates are compared as strings. The view is the list of the records of
  the state that pass, in their order: the records themselves are not changed.
\<close>

theorem filteredLogs_characterization:
  "(l \<in> set (filteredLogs rt state) \<longleftrightarrow>
      l \<in> set (serviceLogs state) \<and>
      (searchTerm state = [] \<or>
       (\<exists>v \<in> set (objectValues rt l). \<exists>p q. toLowerCase v = p @ toLowerCase (searchTerm state) @ q)) \<and>
      (Filters.startDateFrom (filters state) = [] \<or>
       ServiceLog.startDate l = Filters.startDateFrom (filters state) \<or>
       stringLess (Filters.startDateFrom (filters state)) (ServiceLog.startDate l)) \<and>
      (Filters.startDateTo (filters state) = [] \<or>
       ServiceLog.startDate l = Filters.startDateTo (filters state) \<or>
       stringLess (ServiceLog.startDate l) (Filters.startDateTo (filters state))) \<and>
      (Filters.type (filters state) = None \<or>
       Filters.type (filters state) = Some (ServiceLog.type l))) \<and>
   set (objectValues rt l) =
     set (specFieldValues rt l) \<union> set_option (ServiceLog.lastSaved l) \<union>
     booleanToString ` set_option (ServiceLog.isDirty l) \<and>
   filteredLogs rt state = filter (\<lambda>x. x \<in> set (filteredLogs rt state)) (serviceLogs state)"
proof (intro conjI)
  show "l \<in> set (filteredLogs rt state) \<longleftrightarrow>
      l \<in> set (serviceLogs state) \<and>
      (searchTerm state = [] \<or>
       (\<exists>v \<in> set (objectValues rt l). \<exists>p q. toLowerCase v = p @ toLowerCase (searchTerm state) @ q)) \<and>
      (Filters.startDateFrom (filters state) = [] \<or>
       ServiceLog.startDate l = Filters.startDateFrom (filters state) \<or>
       stringLess (Filters.startDateFrom (filters state)) (ServiceLog.startDate l)) \<and>
      (Filters.startDateTo (filters state) = [] \<or>
       ServiceLog.startDate l = Filters.startDateTo (filters state) \<or>
       stringLess (ServiceLog.startDate l) (Filters.startDateTo (filters state))) \<and>
      (Filters.type (filters state) = None \<or>
       Filters.type (filters state) = Some (ServiceLog.type l))"
    unfolding filteredLogs_def set_filter mem_Collect_eq
      matchesSearch_iff matchesDateRange_iff matchesType_iff
    by (simp only: conj_assoc)
  show "set (objectValues rt l) =
     set (specFieldValues rt l) \<union> set_option (ServiceLog.lastSaved l) \<union>
     booleanToString ` set_option (ServiceLog.isDirty l)"
    by (rule objectValues_set)
  show "filteredLogs rt state = filter (\<lambda>x. x \<in> set (filteredLogs rt state)) (serviceLogs state)"
    unfolding filteredLogs_def by (rule filter_cong) auto
qed

lemma objectValues_promotedLog:
  "objectValues utcHost promotedLog =
     [''P1'', ''S1'', ''C1'', ''0'', ''0'', ''2023-11-14'', ''2023-11-15'', ''planned'',
      ''oil change'', ''log_1700000002000_k3j9x2a'', ''2023-11-14T22:13:22.001Z'',
      ''2023-11-14T22:13:21.500Z'', ''false'']"
  by (simp add: objectValues_def promotedLog_def utcHost_def utcNumberToString_def
      digitChar_def typeName_def booleanToString_def)

lemma specFieldValues_promotedLog:
  "specFieldValues utcHost promotedLog =
     [''log_1700000002000_k3j9x2a'', ''P1'', ''S1'', ''C1'', ''0'', ''0'', ''2023-11-14'',
      ''2023-11-15'', ''planned'', ''oil change'', ''2023-11-14T22:13:22.001Z'']"
  by (simp add: specFieldValues_def promotedLog_def utcHost_def utcNumberToString_def
      digitChar_def typeName_def)

lemma search_misses:
  "\<not> list_ex (\<lambda>v. includesStr (toLowerCase v) (toLowerCase ''tyre''))
        [''P1'', ''S1'', ''C1'', ''100'', ''5'', ''2024-01-06'', ''2024-01-07'', ''planned'',
         ''oil change'', ''log_1'', ''2024-01-08T09:00:00.000Z'']"
  "\<not> list_ex (\<lambda>v. includesStr (toLowerCase v) (toLowerCase ''false''))
        [''log_1700000002000_k3j9x2a'', ''P1'', ''S1'', ''C1'', ''0'', ''0'', ''2023-11-14'',
         ''2023-11-15'', ''planned'', ''oil change'', ''2023-11-14T22:13:22.001Z'']"
  by code_simp+

text \<open>
  On three records dated \<^verbatim>\<open>2024-01-03\<close> (planned), \<^verbatim>\<open>2024-01-06\<close> (planned) and
  \<^verbatim>\<open>2024-01-07\<close> (emergency): the filter \<^verbatim>\<open>{ startDateFrom: '2024-01-05', type: 'planned' }\<close>
  keeps the second alone, the search term \<^verbatim>\<open>OIL\<close> finds the description
  \<^verbatim>\<open>oil change\<close>, and the search term \<^verbatim>\<open>tyre\<close> finds no value of the second
  record. On the promoted record the search term \<^verbatim>\<open>false\<close> finds the value of
  \<^verbatim>\<open>isDirty\<close>.
\<close>

theorem filteredLogs_characterization_witness:
  "exampleLog \<in> set (filteredLogs utcHost filterState) \<and>
   earlyLog \<notin> set (filteredLogs utcHost filterState) \<and>
   emergencyLog \<notin> set (filteredLogs utcHost filterState) \<and>
   exampleLog \<in> set (filteredLogs utcHost searchState) \<and>
   exampleLog \<in> set (serviceLogs missState) \<and>
   exampleLog \<notin> set (filteredLogs utcHost missState) \<and>
   promotedLog \<in> set (filteredLogs utcHost falseSearchState)"
proof -
  have filter_fields:
    "serviceLogs filterState = [earlyLog, exampleLog, emergencyLog]"
    "searchTerm filterState = []"
    "Filters.startDateFrom (filters filterState) = ''2024-01-05''"
    "Filters.startDateTo (filters filterState) = []"
    "Filters.type (filters filterState) = Some planned"
    by (simp_all add: filterState_def initialState_def)
  have search_fields:
    "serviceLogs searchState = [earlyLog, exampleLog, emergencyLog]"
    "searchTerm searchState = ''OIL''"
    "Filters.startDateFrom (filters searchState) = []"
    "Filters.startDateTo (filters searchState) = []"
    "Filters.type (filters searchState) = None"
    by (simp_all add: searchState_def initialState_def)
  have miss_fields:
    "serviceLogs missState = [earlyLog, exampleLog, emergencyLog]"
    "searchTerm missState = ''tyre''"
    by (simp_all add: missState_def initialState_def)
  have false_fields:
    "serviceLogs falseSearchState = [promotedLog]"
    "searchTerm falseSearchState = ''false''"
    "Filters.startDateFrom (filters falseSearchState) = []"
    "Filters.startDateTo (filters falseSearchState) = []"
    "Filters.type (filters falseSearchState) = None"
    by (simp_all add: falseSearchState_def setSearchTerm_def promotedState_def initialState_def)
  have dates:
    "ServiceLog.startDate exampleLog = ''2024-01-06''" "ServiceLog.type exampleLog = planned"
    "ServiceLog.startDate earlyLog = ''2024-01-03''" "ServiceLog.type emergencyLog = emergency"
    by (simp_all add: exampleLog_def earlyLog_def emergencyLog_def)
  have found: "toLowerCase ''oil change'' = [] @ toLowerCase ''OIL'' @ '' change''"
    by code_simp
  have "''oil change'' \<in> set (objectValues utcHost exampleLog)"
    by (simp add: objectValues_exampleLog)
  with found have hit:
    "\<exists>v \<in> set (objectValues utcHost exampleLog). \<exists>p q. toLowerCase v = p @ toLowerCase ''OIL'' @ q"
    by blast
  have miss:
    "\<not> (\<exists>v \<in> set (objectValues utcHost exampleLog). \<exists>p q. toLowerCase v = p @ toLowerCase ''tyre'' @ q)"
    unfolding includesStr_iff [symmetric] list_ex_iff [symmetric] objectValues_exampleLog
    by (rule search_misses(1))
  have leftover: "toLowerCase ''false'' = [] @ toLowerCase ''false'' @ []"
    by simp
  have "''false'' \<in> set (objectValues utcHost promotedLog)"
    by (simp add: objectValues_promotedLog)
  with leftover have hit':
    "\<exists>v \<in> set (objectValues utcHost promotedLog). \<exists>p q. toLowerCase v = p @ toLowerCase ''false'' @ q"
    by blast
  have 1: "exampleLog \<in> set (filteredLogs utcHost filterState)"
    using filteredLogs_characterization [of exampleLog utcHost filterState]
    by (simp add: filter_fields dates)
  have 2: "earlyLog \<notin> set (filteredLogs utcHost filterState)"
    using filteredLogs_characterization [of earlyLog utcHost filterState]
    by (simp add: filter_fields dates)
  have 3: "emergencyLog \<notin> set (filteredLogs utcHost filterState)"
    using filteredLogs_characterization [of emergencyLog utcHost filterState]
    by (simp add: filter_fields dates)
  have 4: "exampleLog \<in> set (filteredLogs utcHost searchState)"
    using filteredLogs_characterization [of exampleLog utcHost searchState] hit
    by (simp add: search_fields)
  have 5: "exampleLog \<notin> set (filteredLogs utcHost missState)"
    using filteredLogs_characterization [of exampleLog utcHost missState] miss
    by (simp add: miss_fields)
  have 6: "promotedLog \<in> set (filteredLogs utcHost falseSearchState)"
    using filteredLogs_characterization [of promotedLog utcHost falseSearchState] hit'
    by (simp add: false_fields)
  from 1 2 3 4 5 6 show ?thesis by (simp add: miss_fields)
qed

text \<open>
  C7 as stated fails on a record that \<^verbatim>\<open>createServiceLog\<close> built from a draft:
  with the search term \<^verbatim>\<open>false\<close> the record is in the filtered view, and none
  of its eleven fields has \<^verbatim>\<open>false\<close> in its string rendering. What the search
  finds is the value of the property \<^verbatim>\<open>isDirty\<close> that the record kept from the
  draft.
\<close>

theorem filteredLogs_leftover_counterexample:
  "reachable utcHost falseSearchState \<and>
   promotedLog \<in> set (serviceLogs falseSearchState) \<and>
   searchTerm falseSearchState = ''false'' \<and>
   promotedLog \<in> set (filteredLogs utcHost falseSearchState) \<and>
   \<not> specPasses utcHost falseSearchState promotedLog"
proof -
  have reach: "reachable utcHost falseSearchState"
    unfolding falseSearchState_def using reachable_promoted by (rule reachable.search)
  have fields:
    "serviceLogs falseSearchState = [promotedLog]"
    "searchTerm falseSearchState = ''false''"
    "Filters.startDateFrom (filters falseSearchState) = []"
    "Filters.startDateTo (filters falseSearchState) = []"
    "Filters.type (filters falseSearchState) = None"
    by (simp_all add: falseSearchState_def setSearchTerm_def promotedState_def initialState_def)
  have found: "includesStr (toLowerCase ''false'') (toLowerCase ''false'')"
    by code_simp
  have inside: "promotedLog \<in> set (filteredLogs utcHost falseSearchState)"
    using found
    by (simp add: filteredLogs_def fields matchesSearch_def matchesDateRange_def matchesType_def
        objectValues_promotedLog)
  have outside: "\<not> specPasses utcHost falseSearchState promotedLog"
    using search_misses(2) by (simp add: specPasses_def fields specFieldValues_promotedLog)
  show ?thesis
    using reach fields inside outside by simp
qed

end
